theory Spec2Isabelle
  imports Main "HOL-Library.AList" "HOL-Library.Sublist"
begin

section \<open>Text: the string operations used by the property store\<close>

text \<open>
  Strings are lists of characters, the code points below 256. A property file is opened
  in text mode with universal newlines: the reader ends a line at a line feed, at a
  carriage return and at a carriage return followed by a line feed, and delivers each of
  them as a line feed. The writer is that of a system whose line separator is the line
  feed: the text is stored as it is written.
\<close>

definition newline :: char where
  "newline = CHR 0x0A"

definition carriage_return :: char where
  "carriage_return = CHR 0x0D"

text \<open>\<^verbatim>\<open>str.isspace\<close> on the code points below 256: tab, line feed, vertical tab, form
  feed, carriage return, the four separators 0x1C..0x1F, the blank, the next-line
  control 0x85 and the no-break space 0xA0.\<close>

definition is_space :: "char \<Rightarrow> bool" where
  "is_space c = (c \<in> set [CHR 0x09, CHR 0x0A, CHR 0x0B, CHR 0x0C, CHR 0x0D,
                            CHR 0x1C, CHR 0x1D, CHR 0x1E, CHR 0x1F, CHR 0x20, CHR 0x85, CHR 0xA0])"

text \<open>\<^verbatim>\<open>s.strip()\<close>\<close>

definition strip :: "string \<Rightarrow> string" where
  "strip s = rev (dropWhile is_space (rev (dropWhile is_space s)))"

text \<open>\<^verbatim>\<open>s.partition("=")\<close>: the text before the first \<open>=\<close>, the separator, the text
  after it; without a separator, the whole string and two empty strings.\<close>

definition partition_eq :: "string \<Rightarrow> string \<times> string \<times> string" where
  "partition_eq s =
     (case dropWhile (\<lambda>c. c \<noteq> CHR ''='') s of
        [] \<Rightarrow> (s, [], [])
      | _ # t \<Rightarrow> (takeWhile (\<lambda>c. c \<noteq> CHR ''='') s, ''='', t))"

text \<open>The translation of the reader: a carriage return with the line feed after it, and a
  carriage return alone, become one line feed.\<close>

fun universal_newlines :: "string \<Rightarrow> string" where
  "universal_newlines [] = []"
| "universal_newlines [c] = [if c = carriage_return then newline else c]"
| "universal_newlines (c # d # cs) =
     (if c = carriage_return
      then (if d = newline then newline # universal_newlines cs
            else newline # universal_newlines (d # cs))
      else c # universal_newlines (d # cs))"

text \<open>The lines of a translated text, each with its line feed; the last line has none when
  the text does not end with one.\<close>

fun split_lines :: "string \<Rightarrow> string list" where
  "split_lines [] = []"
| "split_lines (c # cs) =
     (if c = newline then [c] # split_lines cs
      else (case split_lines cs of [] \<Rightarrow> [[c]] | l # ls \<Rightarrow> (c # l) # ls))"

text \<open>\<^verbatim>\<open>for l in f\<close>: the lines that the reader delivers of the text of a file.\<close>

definition file_lines :: "string \<Rightarrow> string list" where
  "file_lines s = split_lines (universal_newlines s)"

section \<open>The file system\<close>

text \<open>
  A tree of directories and text files. A file carries its text and, when reading it
  fails part-way (a decoding error, say), the number of lines the reader yields before
  it raises; \<open>None\<close> is a file that reads to its end.
\<close>

type_synonym fpath = "string list"

datatype node = File string "nat option" | Dir "(string \<times> node) list"

datatype error =
    FileNotFoundError
  | IsADirectoryError
  | NotADirectoryError
  | FileExistsError
  | DirectoryNotEmpty
  | InvalidArgument
  | ReadError
  | UnboundLocalError
  | SystemExit
  | ExternalError

fun lookup :: "node \<Rightarrow> fpath \<Rightarrow> node option" where
  "lookup n [] = Some n"
| "lookup (File c f) (x # xs) = None"
| "lookup (Dir es) (x # xs) = (case map_of es x of None \<Rightarrow> None | Some m \<Rightarrow> lookup m xs)"

text \<open>Binding a name to a node: the parent has to be an existing directory (the empty
  path is the root itself).\<close>

fun put :: "fpath \<Rightarrow> node \<Rightarrow> node \<Rightarrow> node option" where
  "put [] new n = Some new"
| "put (x # xs) new (File c f) = None"
| "put (x # xs) new (Dir es) =
     (if xs = [] then Some (Dir (AList.update x new es))
      else (case map_of es x of
              None \<Rightarrow> None
            | Some m \<Rightarrow> (case put xs new m of
                           None \<Rightarrow> None
                         | Some m' \<Rightarrow> Some (Dir (AList.update x m' es)))))"

fun remove :: "fpath \<Rightarrow> node \<Rightarrow> node option" where
  "remove [] n = None"
| "remove (x # xs) (File c f) = None"
| "remove (x # xs) (Dir es) =
     (case map_of es x of
        None \<Rightarrow> None
      | Some m \<Rightarrow> (if xs = [] then Some (Dir (AList.delete x es))
                   else (case remove xs m of
                           None \<Rightarrow> None
                         | Some m' \<Rightarrow> Some (Dir (AList.update x m' es)))))"

subsection \<open>Path strings\<close>

text \<open>Path strings are POSIX ones: components separated by \<open>/\<close>, a leading \<open>/\<close> for an
  absolute path, any other path relative to the working directory. A path is resolved by
  its text, as \<^verbatim>\<open>os.path.normpath\<close> reads it; the system resolves it to the same place
  wherever no \<open>..\<close> follows a name that is missing or is not a directory.\<close>

fun split_sep :: "string \<Rightarrow> string list" where
  "split_sep [] = [[]]"
| "split_sep (c # cs) =
     (if c = CHR ''/'' then [] # split_sep cs
      else (case split_sep cs of [] \<Rightarrow> [[c]] | x # xs \<Rightarrow> (c # x) # xs))"

fun normpath :: "string list \<Rightarrow> fpath \<Rightarrow> fpath" where
  "normpath [] acc = acc"
| "normpath (c # cs) acc =
     (if c = [] \<or> c = ''.'' then normpath cs acc
      else if c = ''..'' then normpath cs (butlast acc)
      else normpath cs (acc @ [c]))"

definition resolve :: "fpath \<Rightarrow> string \<Rightarrow> fpath" where
  "resolve wd s = normpath (split_sep s) (if take 1 s = ''/'' then [] else wd)"

text \<open>\<^verbatim>\<open>os.path.join(a, b)\<close>\<close>

definition path_join :: "string \<Rightarrow> string \<Rightarrow> string" where
  "path_join a b =
     (if take 1 b = ''/'' then b
      else if a = [] \<or> last a = CHR ''/'' then a @ b
      else a @ ''/'' @ b)"

section \<open>The world the provisioner runs in\<close>

text \<open>The messages the provisioner shows, one constructor per message of the source.\<close>

datatype msg =
    Compiling_test_program
  | Unable_to_use_javac
  | Not_JDK8
  | JDK_present
  | SDK_already_unpacked
  | Accept_terms
  | Downloading_SDK
  | Extracting_SDK
  | Finished_unpacking
  | About_to_install_packages
  | Unable_to_accept_licenses
  | Unable_to_install_packages
  | Finished_installing_packages
  | Keystore_set_yourself
  | Keystore_already_created
  | Want_to_create_key
  | Will_you_backup
  | Enter_name
  | Could_not_create_android_keystore
  | Finished_creating_keystore
  | Could_not_create_bundle_keystore
  | Ready_to_package

text \<open>The keyword arguments of \<^verbatim>\<open>interface.call\<close> that the source passes.\<close>

record kwargs =
  cancel :: bool
  use_path :: bool
  yes :: bool

definition no_kwargs :: kwargs where
  "no_kwargs = \<lparr> cancel = False, use_path = False, yes = False \<rparr>"

datatype event =
    Info msg
  | Success msg
  | Final_success msg
  | Fail msg
  | Yesno msg bool
  | Input msg string
  | Terms string msg
  | Download string string
  | Call "string list" kwargs

record world =
  fs :: node
  cwd :: fpath
  environ :: "string list"
  trace :: "event list"

type_synonym 'a result = "error + 'a"

type_synonym 'a io = "world \<Rightarrow> 'a result \<times> world"

definition return :: "'a \<Rightarrow> 'a io" where
  "return x w = (Inr x, w)"

definition raise :: "error \<Rightarrow> 'a io" where
  "raise e w = (Inl e, w)"

definition bind :: "'a io \<Rightarrow> ('a \<Rightarrow> 'b io) \<Rightarrow> 'b io" where
  "bind m f w = (case m w of (Inl e, w') \<Rightarrow> (Inl e, w') | (Inr x, w') \<Rightarrow> f x w')"

definition seq :: "unit io \<Rightarrow> 'b io \<Rightarrow> 'b io" where
  "seq m k = bind m (\<lambda>_. k)"

definition emit :: "event \<Rightarrow> unit io" where
  "emit ev w = (Inr (), w\<lparr> trace := trace w @ [ev] \<rparr>)"

text \<open>\<^verbatim>\<open>os.path.exists\<close>\<close>

definition os_path_exists :: "world \<Rightarrow> string \<Rightarrow> bool" where
  "os_path_exists w s = (lookup (fs w) (resolve (cwd w) s) \<noteq> None)"

text \<open>Why a path at which there is nothing cannot be opened: a name on the way is a
  regular file (\<^verbatim>\<open>ENOTDIR\<close>) or is missing (\<^verbatim>\<open>ENOENT\<close>).\<close>

fun open_failure :: "node \<Rightarrow> fpath \<Rightarrow> error" where
  "open_failure (File c f) p = NotADirectoryError"
| "open_failure (Dir es) [] = FileNotFoundError"
| "open_failure (Dir es) (x # xs) =
     (case map_of es x of None \<Rightarrow> FileNotFoundError | Some m \<Rightarrow> open_failure m xs)"

text \<open>\<^verbatim>\<open>open(p, "r")\<close> and the iteration over the lines: the failure of the open, or the
  lines that the reader yields and whether it raises after them.\<close>

definition open_read :: "world \<Rightarrow> string \<Rightarrow> (string list \<times> bool) result" where
  "open_read w s =
     (case lookup (fs w) (resolve (cwd w) s) of
        None \<Rightarrow> Inl (open_failure (fs w) (resolve (cwd w) s))
      | Some (Dir es) \<Rightarrow> Inl IsADirectoryError
      | Some (File c None) \<Rightarrow> Inr (file_lines c, False)
      | Some (File c (Some n)) \<Rightarrow> Inr (take n (file_lines c), True))"

text \<open>\<^verbatim>\<open>open(p, "w")\<close>, the writes and the close: the file holds the text written. The
  file is created in a directory that exists.\<close>

definition open_write :: "string \<Rightarrow> string \<Rightarrow> unit io" where
  "open_write s text w =
     (case lookup (fs w) (resolve (cwd w) s) of
        Some (Dir es) \<Rightarrow> (Inl IsADirectoryError, w)
      | _ \<Rightarrow> (case put (resolve (cwd w) s) (File text None) (fs w) of
                None \<Rightarrow> (Inl (open_failure (fs w) (resolve (cwd w) s)), w)
              | Some t \<Rightarrow> (Inr (), w\<lparr> fs := t \<rparr>)))"

section \<open>The property store\<close>

definition line_key :: "string \<Rightarrow> string" where
  "line_key l = strip (fst (partition_eq l))"

definition line_value :: "string \<Rightarrow> string" where
  "line_value l = strip (snd (snd (partition_eq l)))"

text \<open>The loop of \<^verbatim>\<open>set_property\<close> over the lines read: \<open>None\<close> when it returns from the
  function (the key is there and is not to be replaced), else the lines it keeps.\<close>

fun keep_lines :: "string \<Rightarrow> bool \<Rightarrow> string list \<Rightarrow> string list option" where
  "keep_lines key replace [] = Some []"
| "keep_lines key replace (l # ls) =
     (if line_key l = key then (if \<not> replace then None else keep_lines key replace ls)
      else map_option ((#) l) (keep_lines key replace ls))"

text \<open>The \<^verbatim>\<open>try\<close> block of \<^verbatim>\<open>set_property\<close>: the bare \<^verbatim>\<open>except\<close> swallows the failure of
  the open and of the read, and the lines read until then stay in the list.\<close>

definition lines_read :: "world \<Rightarrow> string \<Rightarrow> string list" where
  "lines_read w s = (case open_read w s of Inl e \<Rightarrow> [] | Inr (ls, raised) \<Rightarrow> ls)"

definition set_property :: "string \<Rightarrow> string \<Rightarrow> string \<Rightarrow> bool \<Rightarrow> unit io" where
  "set_property properties key val replace w =
     (case keep_lines key replace (lines_read w properties) of
        None \<Rightarrow> (Inr (), w)
      | Some lines \<Rightarrow> open_write properties (concat lines @ key @ ''='' @ val @ [newline]) w)"

text \<open>The loop of \<^verbatim>\<open>get_property\<close>: the stripped value of the first line with the key.\<close>

fun first_value :: "string \<Rightarrow> string list \<Rightarrow> string option" where
  "first_value key [] = None"
| "first_value key (l # ls) = (if line_key l = key then Some (line_value l) else first_value key ls)"

definition get_property :: "string \<Rightarrow> string \<Rightarrow> world \<Rightarrow> string option result" where
  "get_property properties key w =
     (case open_read w properties of
        Inl e \<Rightarrow> Inl e
      | Inr (ls, raised) \<Rightarrow>
          (case first_value key ls of
             Some v \<Rightarrow> Inr (Some v)
           | None \<Rightarrow> if raised then Inl ReadError else Inr None))"


section \<open>The platform module and the interface\<close>

text \<open>The module \<^verbatim>\<open>plat\<close> is not part of the sources: its attributes are the fields of a
  record that every function takes.\<close>

record plat =
  windows :: bool
  macintosh :: bool
  linux :: bool
  sdk_version :: string
  javac :: string
  java :: string
  keytool :: string
  sdkmanager :: string
  sdk :: string
  path :: "string \<Rightarrow> string"

text \<open>How \<^verbatim>\<open>interface.call\<close> ends: it returns, or raises one of the two exceptions that
  \<^verbatim>\<open>run\<close> and \<^verbatim>\<open>run_slow\<close> catch, or raises something else.\<close>

datatype call_result =
    Returned
  | Raised_CalledProcessError
  | Raised_OSError
  | Raised_other

text \<open>
  What the provisioner does not decide itself: the external processes, the user's
  answers, the download, the zip library and \<^verbatim>\<open>rapt.build.copy_project\<close>. A process,
  the download, the library and \<^verbatim>\<open>copy_project\<close> may depend on the world they run in and
  leave a file system behind. Each prompt is shown at most once in a run, so the user's
  answers are a function of the prompt.
\<close>

record env =
  call :: "string list \<Rightarrow> kwargs \<Rightarrow> world \<Rightarrow> call_result \<times> node"
  yesno :: "msg \<Rightarrow> bool"
  input :: "msg \<Rightarrow> string"
  terms :: "string \<Rightarrow> msg \<Rightarrow> bool"
  download :: "string \<Rightarrow> string \<Rightarrow> world \<Rightarrow> node result"
  zipfile_open :: "string \<Rightarrow> world \<Rightarrow> unit result"
  extractall :: "string \<Rightarrow> string \<Rightarrow> world \<Rightarrow> node result"
  copy_project :: "bool \<Rightarrow> world \<Rightarrow> node result"

text \<open>Modelled from the spec: the interface object, whose class is not part of the
  sources. \<^verbatim>\<open>info\<close>, \<^verbatim>\<open>success\<close> and \<^verbatim>\<open>final_success\<close> report; \<^verbatim>\<open>fail\<close> reports and
  aborts the run; \<^verbatim>\<open>yesno\<close> and \<^verbatim>\<open>input\<close> return the user's answer; \<^verbatim>\<open>terms\<close> obtains
  consent or aborts; \<^verbatim>\<open>download\<close> fetches a file or raises; \<^verbatim>\<open>background\<close> runs its
  argument; \<^verbatim>\<open>call\<close> runs an external process and raises when it exits with a non-zero
  status or when the executable is missing.\<close>

definition interface_info :: "msg \<Rightarrow> unit io" where
  "interface_info m = emit (Info m)"

definition interface_success :: "msg \<Rightarrow> unit io" where
  "interface_success m = emit (Success m)"

definition interface_final_success :: "msg \<Rightarrow> unit io" where
  "interface_final_success m = emit (Final_success m)"

definition interface_fail :: "msg \<Rightarrow> unit io" where
  "interface_fail m = seq (emit (Fail m)) (raise SystemExit)"

definition interface_yesno :: "env \<Rightarrow> msg \<Rightarrow> bool io" where
  "interface_yesno E m w = (Inr (yesno E m), w\<lparr> trace := trace w @ [Yesno m (yesno E m)] \<rparr>)"

definition interface_input :: "env \<Rightarrow> msg \<Rightarrow> string io" where
  "interface_input E m w = (Inr (input E m), w\<lparr> trace := trace w @ [Input m (input E m)] \<rparr>)"

definition interface_terms :: "env \<Rightarrow> string \<Rightarrow> msg \<Rightarrow> unit io" where
  "interface_terms E url m w =
     (if terms E url m then Inr () else Inl SystemExit, w\<lparr> trace := trace w @ [Terms url m] \<rparr>)"

definition interface_download :: "env \<Rightarrow> string \<Rightarrow> string \<Rightarrow> unit io" where
  "interface_download E url dest w =
     (case download E url dest w of
        Inl e \<Rightarrow> (Inl e, w\<lparr> trace := trace w @ [Download url dest] \<rparr>)
      | Inr t \<Rightarrow> (Inr (), w\<lparr> fs := t, trace := trace w @ [Download url dest] \<rparr>))"

definition interface_background :: "unit io \<Rightarrow> unit io" where
  "interface_background fn = fn"

definition interface_call :: "env \<Rightarrow> string list \<Rightarrow> kwargs \<Rightarrow> world \<Rightarrow> call_result \<times> world" where
  "interface_call E args kw w =
     (fst (call E args kw w), w\<lparr> fs := snd (call E args kw w), trace := trace w @ [Call args kw] \<rparr>)"

section \<open>install\_sdk.py\<close>

definition run :: "env \<Rightarrow> string list \<Rightarrow> kwargs \<Rightarrow> bool io" where
  "run E args kw w =
     (case interface_call E args kw w of
        (Returned, w') \<Rightarrow> (Inr True, w')
      | (Raised_CalledProcessError, w') \<Rightarrow> (Inr False, w')
      | (Raised_OSError, w') \<Rightarrow> (Inr False, w')
      | (Raised_other, w') \<Rightarrow> (Inl ExternalError, w'))"

definition run_slow :: "env \<Rightarrow> string list \<Rightarrow> kwargs \<Rightarrow> bool io" where
  "run_slow E args kw w =
     (case interface_call E args (kw\<lparr> cancel := True \<rparr>) w of
        (Raised_CalledProcessError, w') \<Rightarrow> (Inr False, w')
      | (Raised_OSError, w') \<Rightarrow> (Inr False, w')
      | (Raised_other, w') \<Rightarrow> (Inl ExternalError, w')
      | (Returned, w') \<Rightarrow> (Inr True, w'))"

definition check_java :: "env \<Rightarrow> plat \<Rightarrow> unit io" where
  "check_java E P =
     seq (interface_info Compiling_test_program)
    (bind (run_slow E [javac P, path P ''buildlib/CheckJDK8.java''] (no_kwargs\<lparr> use_path := True \<rparr>)) (\<lambda>ok1.
     seq (if \<not> ok1 then interface_fail Unable_to_use_javac else return ())
    (bind (run_slow E [java P, ''-classpath'', path P ''buildlib'', ''CheckJDK8'']
             (no_kwargs\<lparr> use_path := True \<rparr>)) (\<lambda>ok2.
     seq (if \<not> ok2 then interface_fail Not_JDK8 else return ())
         (interface_success JDK_present)))))"

subsection \<open>Unpacking the SDK\<close>

definition chdir_to :: "fpath \<Rightarrow> unit io" where
  "chdir_to p w =
     (case lookup (fs w) p of
        None \<Rightarrow> (Inl FileNotFoundError, w)
      | Some (File c f) \<Rightarrow> (Inl NotADirectoryError, w)
      | Some (Dir es) \<Rightarrow> (Inr (), w\<lparr> cwd := p \<rparr>))"

definition os_chdir :: "string \<Rightarrow> unit io" where
  "os_chdir s w = chdir_to (resolve (cwd w) s) w"

text \<open>\<^verbatim>\<open>os.mkdir\<close>\<close>

definition os_mkdir :: "string \<Rightarrow> unit io" where
  "os_mkdir s w =
     (if lookup (fs w) (resolve (cwd w) s) \<noteq> None then (Inl FileExistsError, w)
      else (case put (resolve (cwd w) s) (Dir []) (fs w) of
              None \<Rightarrow> (Inl FileNotFoundError, w)
            | Some t \<Rightarrow> (Inr (), w\<lparr> fs := t \<rparr>)))"

text \<open>\<^verbatim>\<open>os.rename\<close>, as POSIX has it: the source has to exist; a directory replaces only
  an empty directory, a file only a file; nothing moves below itself.\<close>

definition move :: "fpath \<Rightarrow> fpath \<Rightarrow> node \<Rightarrow> unit io" where
  "move src dst n w =
     (case remove src (fs w) of
        None \<Rightarrow> (Inl InvalidArgument, w)
      | Some t \<Rightarrow> (case put dst n t of
                     None \<Rightarrow> (Inl FileNotFoundError, w)
                   | Some t' \<Rightarrow> (Inr (), w\<lparr> fs := t' \<rparr>)))"

definition rename_paths :: "fpath \<Rightarrow> fpath \<Rightarrow> unit io" where
  "rename_paths src dst w =
     (case lookup (fs w) src of
        None \<Rightarrow> (Inl FileNotFoundError, w)
      | Some n \<Rightarrow>
          if src = dst then (Inr (), w)
          else if prefix src dst then (Inl InvalidArgument, w)
          else (case (n, lookup (fs w) dst) of
                  (_, None) \<Rightarrow> move src dst n w
                | (File c f, Some (File c' f')) \<Rightarrow> move src dst n w
                | (File c f, Some (Dir es)) \<Rightarrow> (Inl IsADirectoryError, w)
                | (Dir es, Some (File c' f')) \<Rightarrow> (Inl NotADirectoryError, w)
                | (Dir es, Some (Dir es')) \<Rightarrow>
                    if es' = [] then move src dst n w else (Inl DirectoryNotEmpty, w)))"

definition os_rename :: "string \<Rightarrow> string \<Rightarrow> unit io" where
  "os_rename a b w = rename_paths (resolve (cwd w) a) (resolve (cwd w) b) w"

text \<open>The two steps of the zip library inside \<^verbatim>\<open>extract\<close>.\<close>

definition FixedZipFile :: "env \<Rightarrow> string \<Rightarrow> unit io" where
  "FixedZipFile E archive w = (zipfile_open E archive w, w)"

definition zf_extractall :: "env \<Rightarrow> string \<Rightarrow> string \<Rightarrow> unit io" where
  "zf_extractall E archive dest w =
     (case extractall E archive dest w of
        Inl e \<Rightarrow> (Inl e, w)
      | Inr t \<Rightarrow> (Inr (), w\<lparr> fs := t \<rparr>))"

text \<open>The three steps of \<^verbatim>\<open>extract\<close> that reorganise the unpacked directory.\<close>

definition reorganize :: "unit io" where
  "reorganize =
     seq (os_rename ''Sdk/cmdline-tools'' ''Sdk/latest'')
    (seq (os_mkdir ''Sdk/cmdline-tools'')
         (os_rename ''Sdk/latest'' ''Sdk/cmdline-tools/latest''))"

text \<open>The local function \<^verbatim>\<open>extract\<close> of \<^verbatim>\<open>unpack_sdk\<close>.\<close>

definition unpack_sdk_extract :: "env \<Rightarrow> plat \<Rightarrow> string \<Rightarrow> unit io" where
  "unpack_sdk_extract E P archive w =
     seq (FixedZipFile E (path P archive))
    (seq (os_chdir (path P ''.''))
    (seq (zf_extractall E (path P archive) ''Sdk'')
    (seq reorganize
         (chdir_to (cwd w))))) w"

definition archive_name :: "plat \<Rightarrow> string option" where
  "archive_name P =
     (if windows P then Some (''commandlinetools-windows-'' @ sdk_version P @ ''.zip'')
      else if macintosh P then Some (''commandlinetools-darwin-'' @ sdk_version P @ ''.zip'')
      else if linux P then Some (''commandlinetools-linux-'' @ sdk_version P @ ''.zip'')
      else None)"

definition unpack_sdk :: "env \<Rightarrow> plat \<Rightarrow> unit io" where
  "unpack_sdk E P w =
     (if os_path_exists w (sdkmanager P) then interface_success SDK_already_unpacked w
      else
        seq (if ''RAPT_NO_TERMS'' \<notin> set (environ w)
             then interface_terms E ''https://developer.android.com/studio/terms'' Accept_terms
             else return ())
       (case archive_name P of
          None \<Rightarrow> raise UnboundLocalError
        | Some archive \<Rightarrow>
            seq (interface_info Downloading_SDK)
           (seq (interface_download E (''https://dl.google.com/android/repository/'' @ archive)
                   (path P archive))
           (seq (interface_info Extracting_SDK)
           (seq (interface_background (unpack_sdk_extract E P archive))
                (interface_success Finished_unpacking))))) w)"

subsection \<open>The packages\<close>

definition wanted_packages :: "(string \<times> string) list" where
  "wanted_packages =
     [(''platform-tools'', ''platform-tools''),
      (''platforms;android-30'', ''platforms/android-30'')]"

definition get_packages :: "env \<Rightarrow> plat \<Rightarrow> unit io" where
  "get_packages E P w =
     (let packages = map fst (filter (\<lambda>(i, j). \<not> os_path_exists w (path_join (sdk P) j))
                                wanted_packages)
      in seq (if packages \<noteq> [] then
                seq (interface_info About_to_install_packages)
               (bind (run_slow E [sdkmanager P, ''--update''] (no_kwargs\<lparr> yes := True \<rparr>)) (\<lambda>ok1.
                seq (if \<not> ok1 then interface_fail Unable_to_accept_licenses else return ())
               (bind (run_slow E [sdkmanager P, ''--licenses''] (no_kwargs\<lparr> yes := True \<rparr>)) (\<lambda>ok2.
                seq (if \<not> ok2 then interface_fail Unable_to_accept_licenses else return ())
               (bind (run_slow E (sdkmanager P # packages) (no_kwargs\<lparr> yes := True \<rparr>)) (\<lambda>ok3.
                     if \<not> ok3 then interface_fail Unable_to_install_packages else return ()))))))
              else return ())
             (interface_success Finished_installing_packages) w)"

subsection \<open>The keys\<close>

definition local_properties :: "plat \<Rightarrow> string" where
  "local_properties P = path P ''project/local.properties''"

definition bundle_properties :: "plat \<Rightarrow> string" where
  "bundle_properties P = path P ''project/bundle.properties''"

text \<open>\<^verbatim>\<open>s.replace("\\", "/")\<close>\<close>

definition replace_backslash :: "string \<Rightarrow> string" where
  "replace_backslash s = map (\<lambda>c. if c = CHR 0x5C then CHR ''/'' else c) s"

text \<open>A call of \<^verbatim>\<open>get_property\<close> inside a function: its exception leaves the function.\<close>

definition get_property_io :: "string \<Rightarrow> string \<Rightarrow> string option io" where
  "get_property_io properties key w = (get_property properties key w, w)"

definition keytool_args :: "plat \<Rightarrow> string \<Rightarrow> string \<Rightarrow> string list" where
  "keytool_args P keystore dname =
     [keytool P, ''-genkey'', ''-keystore'', keystore, ''-alias'', ''android'', ''-keyalg'', ''RSA'',
      ''-keysize'', ''2048'', ''-keypass'', ''android'', ''-storepass'', ''android'',
      ''-dname'', dname, ''-validity'', ''20000'']"

text \<open>The first four statements of both key functions: the defaults, first write wins.\<close>

definition seed_defaults :: "string \<Rightarrow> string \<Rightarrow> unit io" where
  "seed_defaults properties default_keystore =
     seq (set_property properties ''key.alias'' ''android'' False)
    (seq (set_property properties ''key.store.password'' ''android'' False)
    (seq (set_property properties ''key.alias.password'' ''android'' False)
         (set_property properties ''key.store'' default_keystore False)))"

text \<open>The statements of \<^verbatim>\<open>generate_keys\<close> after its two early returns: the two
  prompts, the name, the key-generation tool.\<close>

definition create_android_key :: "env \<Rightarrow> plat \<Rightarrow> unit io" where
  "create_android_key E P =
     bind (interface_yesno E Want_to_create_key) (\<lambda>create.
     if \<not> create then return ()
     else bind (interface_yesno E Will_you_backup) (\<lambda>backup.
     if \<not> backup then return ()
     else bind (interface_input E Enter_name) (\<lambda>org.
          bind (run E (keytool_args P ''android.keystore'' (''CN='' @ org))
                  (no_kwargs\<lparr> use_path := True \<rparr>)) (\<lambda>ok.
          seq (if \<not> ok then interface_fail Could_not_create_android_keystore else return ())
              (interface_success Finished_creating_keystore)))))"

definition generate_keys :: "env \<Rightarrow> plat \<Rightarrow> unit io" where
  "generate_keys E P =
     (let properties = local_properties P;
          default_keystore = replace_backslash (path P ''android.keystore'')
      in seq (seed_defaults properties default_keystore)
        (bind (get_property_io properties ''key.store'') (\<lambda>stored.
         if stored \<noteq> Some default_keystore then interface_info Keystore_set_yourself
         else (\<lambda>w.
           if os_path_exists w (path P ''android.keystore'')
           then interface_info Keystore_already_created w
           else create_android_key E P w))))"

text \<open>The last statements of \<^verbatim>\<open>generate_bundle_keys\<close>: the key-generation tool.\<close>

definition create_bundle_key :: "env \<Rightarrow> plat \<Rightarrow> unit io" where
  "create_bundle_key E P =
     bind (run E (keytool_args P ''bundle.keystore'' (''CN=Ren'' @ [CHR 0x27] @ ''Py Creator''))
             (no_kwargs\<lparr> use_path := True \<rparr>)) (\<lambda>ok.
     if \<not> ok then interface_fail Could_not_create_bundle_keystore else return ())"

definition generate_bundle_keys :: "env \<Rightarrow> plat \<Rightarrow> unit io" where
  "generate_bundle_keys E P =
     (let properties = bundle_properties P;
          default_keystore = replace_backslash (path P ''bundle.keystore'')
      in seq (seed_defaults properties default_keystore)
        (bind (get_property_io properties ''key.store'') (\<lambda>stored.
         if stored \<noteq> Some default_keystore then return ()
         else (\<lambda>w.
           if os_path_exists w (path P ''bundle.keystore'') then return () w
           else create_bundle_key E P w))))"

subsection \<open>The whole workflow\<close>

definition rapt_build_copy_project :: "env \<Rightarrow> bool \<Rightarrow> unit io" where
  "rapt_build_copy_project E update_always w =
     (case copy_project E update_always w of
        Inl e \<Rightarrow> (Inl e, w)
      | Inr t \<Rightarrow> (Inr (), w\<lparr> fs := t \<rparr>))"

text \<open>The last three statements of \<^verbatim>\<open>install_sdk\<close>.\<close>

definition persist_sdk_dir :: "plat \<Rightarrow> unit io" where
  "persist_sdk_dir P =
     seq (set_property (local_properties P) ''sdk.dir'' (replace_backslash (sdk P)) True)
    (seq (set_property (bundle_properties P) ''sdk.dir'' (replace_backslash (sdk P)) True)
         (interface_final_success Ready_to_package))"

definition install_sdk :: "env \<Rightarrow> plat \<Rightarrow> unit io" where
  "install_sdk E P =
     seq (rapt_build_copy_project E False)
    (seq (check_java E P)
    (seq (unpack_sdk E P)
    (seq (get_packages E P)
    (seq (generate_keys E P)
    (seq (generate_bundle_keys E P)
         (persist_sdk_dir P))))))"

section \<open>Vocabulary of the statements\<close>

text \<open>A text that is empty or ends with a line feed, and a complete line as the reader
  delivers it: it ends with its line feed and has no other one, and no carriage return.\<close>

definition terminated :: "string \<Rightarrow> bool" where
  "terminated s = (s = [] \<or> last s = newline)"

definition is_line :: "string \<Rightarrow> bool" where
  "is_line l = (l \<noteq> [] \<and> last l = newline \<and> newline \<notin> set (butlast l)
                \<and> carriage_return \<notin> set l)"

text \<open>A text that the reader delivers as it was written, when it is part of a line: it has
  neither a line feed nor a carriage return.\<close>

definition unbroken :: "string \<Rightarrow> bool" where
  "unbroken s = (newline \<notin> set s \<and> carriage_return \<notin> set s)"

text \<open>Two paths, neither of which is the other or lies below it.\<close>

definition apart :: "fpath \<Rightarrow> fpath \<Rightarrow> bool" where
  "apart p q = (\<not> prefix p q \<and> \<not> prefix q p)"

text \<open>What a step that only writes the file at \<open>p\<close> does to the world: it shows nothing,
  stays in the working directory, removes nothing, and leaves every path apart from \<open>p\<close>
  as it is.\<close>

definition only_writes :: "fpath \<Rightarrow> world \<Rightarrow> world \<Rightarrow> bool" where
  "only_writes p w w' =
     (trace w' = trace w \<and> cwd w' = cwd w \<and> environ w' = environ w
      \<and> (\<forall>q. lookup (fs w) q \<noteq> None \<longrightarrow> lookup (fs w') q \<noteq> None)
      \<and> (\<forall>q. apart p q \<longrightarrow> lookup (fs w') q = lookup (fs w) q))"


text \<open>The line that \<^verbatim>\<open>set_property\<close> writes for a key and a value.\<close>

definition property_line :: "string \<Rightarrow> string \<Rightarrow> string" where
  "property_line k v = k @ ''='' @ v @ [newline]"

text \<open>The arguments of the external processes started in a stretch of the trace.\<close>

fun calls :: "event list \<Rightarrow> string list list" where
  "calls [] = []"
| "calls (Call args kw # evs) = args # calls evs"
| "calls (ev # evs) = calls evs"

text \<open>The downloads in a stretch of the trace.\<close>

fun downloads :: "event list \<Rightarrow> string list" where
  "downloads [] = []"
| "downloads (Download url dest # evs) = url # downloads evs"
| "downloads (ev # evs) = downloads evs"

text \<open>The first four steps of \<^verbatim>\<open>install_sdk\<close>, and the text of a property file that
  the defaults were written to when it did not exist.\<close>

definition provision_sdk :: "env \<Rightarrow> plat \<Rightarrow> unit io" where
  "provision_sdk E P =
     seq (rapt_build_copy_project E False)
    (seq (check_java E P)
    (seq (unpack_sdk E P)
         (get_packages E P)))"

definition seeded_lines :: "string \<Rightarrow> string" where
  "seeded_lines default_keystore =
     property_line ''key.alias'' ''android'' @ property_line ''key.store.password'' ''android''
     @ property_line ''key.alias.password'' ''android'' @ property_line ''key.store'' default_keystore"


text \<open>The keystore path that a key function goes by: the \<open>key.store\<close> value that it
  reads back from the property file once it has written its defaults. The first write
  wins, so a path that the file had configured stays.\<close>

definition stored_keystore :: "string \<Rightarrow> string \<Rightarrow> world \<Rightarrow> string option result" where
  "stored_keystore properties default_keystore w =
     get_property properties ''key.store'' (snd (seed_defaults properties default_keystore w))"

text \<open>The four defaults that the key functions write, and what is said of a property
  file in the statements: it is a regular file, and its text ends with a given line.\<close>

definition default_pairs :: "string \<Rightarrow> (string \<times> string) list" where
  "default_pairs default_keystore =
     [(''key.alias'', ''android''), (''key.store.password'', ''android''),
      (''key.alias.password'', ''android''), (''key.store'', default_keystore)]"

definition is_file :: "world \<Rightarrow> string \<Rightarrow> bool" where
  "is_file w f = (case lookup (fs w) (resolve (cwd w) f) of Some (File c r) \<Rightarrow> True | _ \<Rightarrow> False)"

definition ends_with :: "world \<Rightarrow> string \<Rightarrow> string \<Rightarrow> bool" where
  "ends_with w f l =
     (case lookup (fs w) (resolve (cwd w) f) of Some (File c None) \<Rightarrow> suffix l c | _ \<Rightarrow> False)"

section \<open>Vocabulary of the two runs\<close>

text \<open>A call of the key-generation tool, as \<^verbatim>\<open>generate_keys\<close> and \<^verbatim>\<open>generate_bundle_keys\<close>
  make it.\<close>

definition is_keytool_call :: "plat \<Rightarrow> string list \<Rightarrow> bool" where
  "is_keytool_call P args = (args = keytool_args P (args ! 3) (args ! 15))"

text \<open>The events of a run that neither downloads nor generates a key.\<close>

definition quiet_event :: "plat \<Rightarrow> event \<Rightarrow> bool" where
  "quiet_event P ev =
     (case ev of Download url dest \<Rightarrow> False | Call args kw \<Rightarrow> \<not> is_keytool_call P args | _ \<Rightarrow> True)"

text \<open>Every event.\<close>

definition any_event :: "event \<Rightarrow> bool" where
  "any_event ev = True"

text \<open>A set of events that holds every report and prompt and every call of at most four
  arguments (the compiler, the runtime and the package manager are called so).\<close>

definition permits :: "(event \<Rightarrow> bool) \<Rightarrow> bool" where
  "permits A = (\<forall>ev. (case ev of Download url dest \<Rightarrow> True
                            | Call args kw \<Rightarrow> 4 < length args
                            | _ \<Rightarrow> False) \<or> A ev)"

text \<open>The external processes whose call is among the events \<open>A\<close>, and \<^verbatim>\<open>copy_project\<close>,
  leave what is at the path \<open>q\<close> as it is.\<close>

definition keeps :: "env \<Rightarrow> (event \<Rightarrow> bool) \<Rightarrow> fpath \<Rightarrow> bool" where
  "keeps E A q =
     ((\<forall>args kw w. A (Call args kw) \<longrightarrow> lookup (snd (call E args kw w)) q = lookup (fs w) q)
      \<and> (\<forall>b w t. copy_project E b w = Inr t \<longrightarrow> lookup t q = lookup (fs w) q))"

text \<open>The download and the zip library leave what is at the path \<open>q\<close> as it is.\<close>

definition unpack_keeps :: "env \<Rightarrow> fpath \<Rightarrow> bool" where
  "unpack_keeps E q =
     ((\<forall>url dest w t. download E url dest w = Inr t \<longrightarrow> lookup t q = lookup (fs w) q)
      \<and> (\<forall>a d w t. extractall E a d w = Inr t \<longrightarrow> lookup t q = lookup (fs w) q))"

text \<open>A stretch of a run that stays in the working directory and the environment, leaves
  the paths \<open>Q\<close> as they are and shows only events of \<open>A\<close>.\<close>

definition steady :: "(event \<Rightarrow> bool) \<Rightarrow> fpath list \<Rightarrow> world \<Rightarrow> world \<Rightarrow> bool" where
  "steady A Q w w' =
     (cwd w' = cwd w \<and> environ w' = environ w
      \<and> (\<forall>q\<in>set Q. lookup (fs w') q = lookup (fs w) q)
      \<and> (\<exists>evs. trace w' = trace w @ evs \<and> (\<forall>ev\<in>set evs. A ev)))"

text \<open>A step that is steady from every world and however it ends.\<close>

definition steadily :: "(event \<Rightarrow> bool) \<Rightarrow> fpath list \<Rightarrow> 'a io \<Rightarrow> bool" where
  "steadily A Q m = (\<forall>w r w'. m w = (r, w') \<longrightarrow> steady A Q w w')"

text \<open>Every line read from the property file ends with its line feed.\<close>

definition complete_lines :: "world \<Rightarrow> string \<Rightarrow> bool" where
  "complete_lines w f = (\<forall>l\<in>set (lines_read w f). is_line l)"

text \<open>The four keys that the key functions write defaults for.\<close>

definition default_keys :: "string list" where
  "default_keys = [''key.alias'', ''key.store.password'', ''key.alias.password'', ''key.store'']"

text \<open>The property file has a line for each of the four keys.\<close>

definition has_defaults :: "world \<Rightarrow> string \<Rightarrow> bool" where
  "has_defaults w f = (set default_keys \<subseteq> line_key ` set (lines_read w f))"

text \<open>A property file as a completed run leaves it: complete lines that hold the four keys,
  none of them for \<open>sdk.dir\<close>, and the \<open>sdk.dir\<close> line last.\<close>

definition settled :: "world \<Rightarrow> string \<Rightarrow> string \<Rightarrow> bool" where
  "settled w f X =
     (\<exists>L. lookup (fs w) (resolve (cwd w) f) = Some (File (concat L @ property_line ''sdk.dir'' X) None)
          \<and> (\<forall>l\<in>set L. is_line l)
          \<and> ''sdk.dir'' \<notin> line_key ` set L
          \<and> set default_keys \<subseteq> line_key ` set L)"

text \<open>The paths of the two property files, of the SDK directory, of the two keystores and of
  the package manager, seen from the working directory of a world.\<close>

definition local_file :: "plat \<Rightarrow> world \<Rightarrow> fpath" where
  "local_file P w = resolve (cwd w) (local_properties P)"

definition bundle_file :: "plat \<Rightarrow> world \<Rightarrow> fpath" where
  "bundle_file P w = resolve (cwd w) (bundle_properties P)"

definition sdk_directory :: "plat \<Rightarrow> world \<Rightarrow> fpath" where
  "sdk_directory P w = resolve (cwd w) (path P ''.'') @ [''Sdk'']"

definition android_keystore_file :: "plat \<Rightarrow> world \<Rightarrow> fpath" where
  "android_keystore_file P w = resolve (cwd w) (path P ''android.keystore'')"

definition bundle_keystore_file :: "plat \<Rightarrow> world \<Rightarrow> fpath" where
  "bundle_keystore_file P w = resolve (cwd w) (path P ''bundle.keystore'')"

definition sdkmanager_file :: "plat \<Rightarrow> world \<Rightarrow> fpath" where
  "sdkmanager_file P w = resolve (cwd w) (sdkmanager P)"

text \<open>The paths that the second run depends on.\<close>

definition watched :: "plat \<Rightarrow> world \<Rightarrow> fpath list" where
  "watched P w = [local_file P w, bundle_file P w, android_keystore_file P w,
                  bundle_keystore_file P w, sdkmanager_file P w]"

text \<open>The user of an interface declines one of the two prompts of \<^verbatim>\<open>generate_keys\<close>.\<close>

definition declines :: "env \<Rightarrow> bool" where
  "declines E = (\<not> yesno E Want_to_create_key \<or> \<not> yesno E Will_you_backup)"

text \<open>What a run with the interface \<open>E\<close> needs to find for it to start neither the download
  nor the key generation: the package manager exists; each of the two keystores exists or
  its stored path is not the default one; for \<open>android.keystore\<close> it is enough that the
  user declines.\<close>

definition provisioned :: "env \<Rightarrow> plat \<Rightarrow> world \<Rightarrow> bool" where
  "provisioned E P w =
     (os_path_exists w (sdkmanager P)
      \<and> (os_path_exists w (path P ''android.keystore'')
           \<or> get_property (local_properties P) ''key.store'' w
               \<noteq> Inr (Some (replace_backslash (path P ''android.keystore'')))
           \<or> declines E)
      \<and> (os_path_exists w (path P ''bundle.keystore'')
           \<or> get_property (bundle_properties P) ''key.store'' w
               \<noteq> Inr (Some (replace_backslash (path P ''bundle.keystore'')))))"

text \<open>What is asked of the collaborators of the first run: they leave the two property
  files as they are.\<close>

definition first_run_keeps :: "env \<Rightarrow> plat \<Rightarrow> world \<Rightarrow> bool" where
  "first_run_keeps E P w =
     (\<forall>q\<in>set [local_file P w, bundle_file P w]. keeps E any_event q \<and> unpack_keeps E q)"

text \<open>What is asked of the collaborators of the second run: \<^verbatim>\<open>copy_project\<close> and the
  processes other than the key generation leave the property files, the keystores and the
  package manager as they are.\<close>

definition second_run_keeps :: "env \<Rightarrow> plat \<Rightarrow> world \<Rightarrow> bool" where
  "second_run_keeps E P w = (\<forall>q\<in>set (watched P w). keeps E (quiet_event P) q)"

text \<open>The property files are apart from each other and from the SDK directory, and the
  paths written into them have neither a line feed nor a carriage return.\<close>

definition well_placed :: "plat \<Rightarrow> world \<Rightarrow> bool" where
  "well_placed P w =
     (apart (local_file P w) (bundle_file P w)
      \<and> apart (local_file P w) (sdk_directory P w)
      \<and> apart (bundle_file P w) (sdk_directory P w)
      \<and> unbroken (path P ''android.keystore'')
      \<and> unbroken (path P ''bundle.keystore'')
      \<and> unbroken (sdk P))"

section \<open>A concrete platform, interface and world\<close>

definition demo_plat :: plat where
  "demo_plat = \<lparr> windows = False, macintosh = False, linux = True,
     sdk_version = ''7583922_latest'', javac = ''javac'', java = ''java'', keytool = ''keytool'',
     sdkmanager = ''/rapt/Sdk/cmdline-tools/latest/bin/sdkmanager'', sdk = ''/rapt/Sdk'',
     path = path_join ''/rapt'' \<rparr>"

definition demo_env :: env where
  "demo_env = \<lparr> call = (\<lambda>args kw w. (Returned, fs w)),
     yesno = (\<lambda>m. False), input = (\<lambda>m. ''Me''), terms = (\<lambda>url m. True),
     download = (\<lambda>url dest w. Inr (fs w)), zipfile_open = (\<lambda>archive w. Inr ()),
     extractall = (\<lambda>archive dest w. Inr (fs w)), copy_project = (\<lambda>b w. Inr (fs w)) \<rparr>"

text \<open>An interface whose processes end in each of the three ways.\<close>

definition flaky_env :: env where
  "flaky_env = demo_env\<lparr> call := (\<lambda>args kw w.
       (if args = [''javac''] then Returned
        else if args = [''java''] then Raised_CalledProcessError
        else Raised_OSError, fs w)) \<rparr>"

text \<open>A world in which the SDK is unpacked.\<close>

definition unpacked_world :: world where
  "unpacked_world = \<lparr> fs = Dir [(''rapt'', Dir [(''Sdk'', Dir [(''cmdline-tools'',
       Dir [(''latest'', Dir [(''bin'', Dir [(''sdkmanager'', File [] None)])])])]),
       (''project'', Dir [])])], cwd = [], environ = [], trace = [] \<rparr>"

text \<open>A world that holds the project directory with the given files.\<close>

definition project_world :: "(string \<times> node) list \<Rightarrow> world" where
  "project_world files =
     \<lparr> fs = Dir [(''rapt'', Dir [(''project'', Dir files)])], cwd = [], environ = [], trace = [] \<rparr>"

text \<open>Worlds around the unpacking: before it, and with the SDK directory holding the
  given entries while \<^verbatim>\<open>extract\<close> works in the directory of the tool; an interface whose
  zip library unpacks the command-line tools.\<close>

definition tools :: node where
  "tools = Dir [(''bin'', Dir [(''sdkmanager'', File [] None)])]"

definition sdk_tree :: "(string \<times> node) list \<Rightarrow> world" where
  "sdk_tree es = \<lparr> fs = Dir [(''rapt'', Dir [(''Sdk'', Dir es), (''project'', Dir [])])],
                   cwd = [''rapt''], environ = [], trace = [] \<rparr>"

definition fresh_world :: world where
  "fresh_world = \<lparr> fs = Dir [(''rapt'', Dir [(''project'', Dir [])])], cwd = [], environ = [], trace = [] \<rparr>"

definition zip_env :: env where
  "zip_env = demo_env\<lparr> extractall := (\<lambda>archive dest w. Inr (fs (sdk_tree [(''cmdline-tools'', tools)]))) \<rparr>"



text \<open>A world with the SDK unpacked, the given files in the project directory, the
  given further entries beside it, and the given trace.\<close>

definition rapt_world :: "(string \<times> node) list \<Rightarrow> (string \<times> node) list \<Rightarrow> event list \<Rightarrow> world" where
  "rapt_world proj ks T =
     \<lparr> fs = Dir [(''rapt'', Dir ((''Sdk'', Dir [(''cmdline-tools'', Dir [(''latest'', tools)])])
                                  # (''project'', Dir proj) # ks))],
       cwd = [], environ = [], trace = T \<rparr>"

subsection \<open>An interface whose key-generation tool writes the keystore\<close>

text \<open>What a started process does to the file system: the key-generation tool, called for
  one of the two keystores, writes it beside the project directory; every other process
  leaves the file system as it is.\<close>

definition keytool_effect :: "string list \<Rightarrow> node \<Rightarrow> node" where
  "keytool_effect args t =
     (if is_keytool_call demo_plat args \<and> args ! 3 \<in> set [''android.keystore'', ''bundle.keystore'']
      then (case put [''rapt'', args ! 3] (File ''key'' None) t of Some t' \<Rightarrow> t' | None \<Rightarrow> t)
      else t)"

text \<open>An interface whose every process returns normally, with that effect, and whose user
  gives the same answer to every yes/no prompt.\<close>

definition keytool_env :: "bool \<Rightarrow> env" where
  "keytool_env answer =
     demo_env\<lparr> call := (\<lambda>args kw w. (Returned, keytool_effect args (fs w))),
               yesno := (\<lambda>m. answer) \<rparr>"

text \<open>The events that the first four steps of \<^verbatim>\<open>install_sdk\<close> show in a world with the
  SDK unpacked, and those of the creation of each key.\<close>

definition java_events :: "event list" where
  "java_events =
     [Info Compiling_test_program,
      Call [''javac'', ''/rapt/buildlib/CheckJDK8.java''] \<lparr> cancel = True, use_path = True, yes = False \<rparr>,
      Call [''java'', ''-classpath'', ''/rapt/buildlib'', ''CheckJDK8'']
           \<lparr> cancel = True, use_path = True, yes = False \<rparr>,
      Success JDK_present]"

definition package_events :: "event list" where
  "package_events =
     [Info About_to_install_packages,
      Call [''/rapt/Sdk/cmdline-tools/latest/bin/sdkmanager'', ''--update'']
           \<lparr> cancel = True, use_path = False, yes = True \<rparr>,
      Call [''/rapt/Sdk/cmdline-tools/latest/bin/sdkmanager'', ''--licenses'']
           \<lparr> cancel = True, use_path = False, yes = True \<rparr>,
      Call [''/rapt/Sdk/cmdline-tools/latest/bin/sdkmanager'', ''platform-tools'', ''platforms;android-30'']
           \<lparr> cancel = True, use_path = False, yes = True \<rparr>,
      Success Finished_installing_packages]"

definition provision_events :: "event list" where
  "provision_events = java_events @ [Success SDK_already_unpacked] @ package_events"

definition android_key_events :: "event list" where
  "android_key_events =
     [Yesno Want_to_create_key True, Yesno Will_you_backup True, Input Enter_name ''Me'',
      Call (keytool_args demo_plat ''android.keystore'' ''CN=Me'')
           \<lparr> cancel = False, use_path = True, yes = False \<rparr>,
      Success Finished_creating_keystore]"

definition bundle_key_events :: "event list" where
  "bundle_key_events =
     [Call (keytool_args demo_plat ''bundle.keystore'' (''CN=Ren'' @ [CHR 0x27] @ ''Py Creator''))
           \<lparr> cancel = False, use_path = True, yes = False \<rparr>]"

text \<open>The project directory with the two property files as the key functions first write
  them, and as a completed run leaves them.\<close>

definition seeded_project :: "(string \<times> node) list" where
  "seeded_project =
     [(''local.properties'', File (seeded_lines ''/rapt/android.keystore'') None),
      (''bundle.properties'', File (seeded_lines ''/rapt/bundle.keystore'') None)]"

definition settled_project :: "(string \<times> node) list" where
  "settled_project =
     [(''local.properties'',
         File (seeded_lines ''/rapt/android.keystore'' @ property_line ''sdk.dir'' ''/rapt/Sdk'') None),
      (''bundle.properties'',
         File (seeded_lines ''/rapt/bundle.keystore'' @ property_line ''sdk.dir'' ''/rapt/Sdk'') None)]"

text \<open>A first run whose user declines the key, and the second run, whose user accepts
  it.\<close>

definition declined_events :: "event list" where
  "declined_events = provision_events @ [Yesno Want_to_create_key False] @ bundle_key_events
                       @ [Final_success Ready_to_package]"

definition declined_world :: world where
  "declined_world = rapt_world settled_project [(''bundle.keystore'', File ''key'' None)] declined_events"

definition late_key_events :: "event list" where
  "late_key_events = provision_events @ android_key_events @ [Final_success Ready_to_package]"

definition late_key_world :: world where
  "late_key_world = rapt_world settled_project
      [(''bundle.keystore'', File ''key'' None), (''android.keystore'', File ''key'' None)]
      (declined_events @ late_key_events)"

text \<open>A first run whose user accepts the key, and the second run.\<close>

definition accepted_events :: "event list" where
  "accepted_events = provision_events @ android_key_events @ bundle_key_events
                       @ [Final_success Ready_to_package]"

definition accepted_world :: world where
  "accepted_world = rapt_world settled_project
      [(''android.keystore'', File ''key'' None), (''bundle.keystore'', File ''key'' None)]
      accepted_events"

definition idle_events :: "event list" where
  "idle_events = provision_events @ [Info Keystore_already_created, Final_success Ready_to_package]"

definition idle_world :: world where
  "idle_world = rapt_world settled_project
      [(''android.keystore'', File ''key'' None), (''bundle.keystore'', File ''key'' None)]
      (accepted_events @ idle_events)"

text \<open>A text whose last line has no line feed; the line that the first default written
  after it makes of it; and the project directory that the first and the second run leave
  when \<^verbatim>\<open>local.properties\<close> started as that text.\<close>

definition loose_text :: string where
  "loose_text = ''foo''"

definition glued_line :: string where
  "glued_line = loose_text @ property_line ''key.alias'' ''android''"

definition glued_project :: "(string \<times> node) list" where
  "glued_project =
     [(''local.properties'',
         File (loose_text @ seeded_lines ''/rapt/android.keystore''
               @ property_line ''sdk.dir'' ''/rapt/Sdk'') None),
      (''bundle.properties'',
         File (seeded_lines ''/rapt/bundle.keystore'' @ property_line ''sdk.dir'' ''/rapt/Sdk'') None)]"

definition reglued_project :: "(string \<times> node) list" where
  "reglued_project =
     [(''local.properties'',
         File (loose_text @ seeded_lines ''/rapt/android.keystore''
               @ property_line ''key.alias'' ''android''
               @ property_line ''sdk.dir'' ''/rapt/Sdk'') None),
      (''bundle.properties'',
         File (seeded_lines ''/rapt/bundle.keystore'' @ property_line ''sdk.dir'' ''/rapt/Sdk'') None)]"

text \<open>The two keystores beside the project directory.\<close>

definition both_keystores :: "(string \<times> node) list" where
  "both_keystores = [(''android.keystore'', File ''key'' None), (''bundle.keystore'', File ''key'' None)]"

text \<open>A world whose \<^verbatim>\<open>local.properties\<close> configures a keystore of the user's, which
  exists, and the text of the file once the defaults are written.\<close>

definition configured_project :: "(string \<times> node) list" where
  "configured_project =
     [(''local.properties'', File (property_line ''key.store'' ''/rapt/my.keystore'') None)]"

definition configured_world :: world where
  "configured_world = rapt_world configured_project [(''my.keystore'', File ''key'' None)] []"

definition configured_seeded :: string where
  "configured_seeded = property_line ''key.store'' ''/rapt/my.keystore''
          @ property_line ''key.alias'' ''android'' @ property_line ''key.store.password'' ''android''
          @ property_line ''key.alias.password'' ''android''"

text \<open>An interface whose user declines and whose key-generation tool is not found, and
  the events of its run.\<close>

definition broken_env :: env where
  "broken_env = demo_env\<lparr> call := (\<lambda>args kw w.
       (if is_keytool_call demo_plat args then Raised_OSError else Returned, fs w)) \<rparr>"

definition broken_events :: "event list" where
  "broken_events = provision_events @ [Yesno Want_to_create_key False,
      Call (keytool_args demo_plat ''bundle.keystore'' (''CN=Ren'' @ [CHR 0x27] @ ''Py Creator''))
           \<lparr> cancel = False, use_path = True, yes = False \<rparr>,
      Fail Could_not_create_bundle_keystore]"

section \<open>Lines\<close>

lemma universal_newlines_id: "carriage_return \<notin> set s \<Longrightarrow> universal_newlines s = s"
  by (induction s rule: universal_newlines.induct) auto

lemma universal_newlines_clean: "carriage_return \<notin> set (universal_newlines s)"
  by (induction s rule: universal_newlines.induct) (auto simp: newline_def carriage_return_def)

lemma universal_newlines_Nil_iff: "universal_newlines s = [] \<longleftrightarrow> s = []"
  by (induction s rule: universal_newlines.induct) auto

lemma universal_newlines_Cons:
  "c \<noteq> carriage_return \<Longrightarrow> universal_newlines (c # cs) = c # universal_newlines cs"
  by (cases cs) auto

lemma universal_newlines_append:
  "s = [] \<or> last s \<noteq> carriage_return \<Longrightarrow>
     universal_newlines (s @ t) = universal_newlines s @ universal_newlines t"
proof (induction s rule: universal_newlines.induct)
  case 1
  then show ?case by simp
next
  case (2 c)
  then show ?case by (simp add: universal_newlines_Cons)
next
  case (3 c d cs)
  show ?case
  proof (cases "c = carriage_return \<and> d = newline")
    case True
    have "cs = [] \<or> last cs \<noteq> carriage_return" using "3.prems" by (auto split: if_splits)
    then show ?thesis using True "3.IH"(1) by simp
  next
    case False
    have "universal_newlines ((d # cs) @ t) = universal_newlines (d # cs) @ universal_newlines t"
      using False "3.IH"(2,3) "3.prems" by (cases "c = carriage_return") auto
    then show ?thesis using False by auto
  qed
qed

lemma concat_split_lines: "concat (split_lines s) = s"
  by (induction s) (auto split: list.splits)

lemma split_lines_Nil_iff: "split_lines s = [] \<longleftrightarrow> s = []"
  by (cases s) (auto split: list.splits)

lemma terminated_Cons: "terminated (c # cs) \<Longrightarrow> terminated cs"
  by (auto simp: terminated_def split: if_splits)

lemma terminated_Cons_nonl: "terminated (c # cs) \<Longrightarrow> c \<noteq> newline \<Longrightarrow> cs \<noteq> []"
  by (auto simp: terminated_def split: if_splits)

lemma split_lines_append: "terminated s \<Longrightarrow> split_lines (s @ t) = split_lines s @ split_lines t"
proof (induction s)
  case Nil
  then show ?case by simp
next
  case (Cons c cs)
  have ih: "split_lines (cs @ t) = split_lines cs @ split_lines t"
    using Cons terminated_Cons by blast
  show ?case
  proof (cases "c = newline")
    case True
    then show ?thesis using ih by simp
  next
    case False
    then have "cs \<noteq> []" using Cons.prems terminated_Cons_nonl by blast
    then obtain l ls where "split_lines cs = l # ls"
      by (meson split_lines_Nil_iff list.exhaust)
    then show ?thesis using ih False by simp
  qed
qed

lemma split_lines_line: "is_line l \<Longrightarrow> split_lines l = [l]"
proof (induction l)
  case Nil
  then show ?case by (simp add: is_line_def)
next
  case (Cons c cs)
  show ?case
  proof (cases "cs = []")
    case True
    then show ?thesis using Cons.prems by (simp add: is_line_def)
  next
    case False
    then have "is_line cs" and "c \<noteq> newline"
      using Cons.prems by (auto simp: is_line_def)
    then show ?thesis using Cons.IH by simp
  qed
qed

lemma split_lines_clean:
  assumes "carriage_return \<notin> set s" and "l \<in> set (split_lines s)"
  shows "carriage_return \<notin> set l"
proof -
  have "set l \<subseteq> set (concat (split_lines s))" using assms(2) by auto
  then show ?thesis using assms(1) by (auto simp: concat_split_lines)
qed

lemma split_lines_ends:
  "terminated s \<Longrightarrow> l \<in> set (split_lines s) \<Longrightarrow>
     l \<noteq> [] \<and> last l = newline \<and> newline \<notin> set (butlast l)"
proof (induction s arbitrary: l)
  case Nil
  then show ?case by simp
next
  case (Cons c cs)
  have t: "terminated cs" using Cons.prems(1) terminated_Cons by blast
  show ?case
  proof (cases "c = newline")
    case True
    then have "l = [c] \<or> l \<in> set (split_lines cs)" using Cons.prems(2) by simp
    then show ?thesis using True Cons.IH t by auto
  next
    case False
    then have "cs \<noteq> []" using Cons.prems terminated_Cons_nonl by blast
    then obtain m ms where m: "split_lines cs = m # ms"
      by (meson split_lines_Nil_iff list.exhaust)
    then have "l = c # m \<or> l \<in> set ms" using Cons.prems(2) False by simp
    moreover have "m \<noteq> [] \<and> last m = newline \<and> newline \<notin> set (butlast m)"
      using Cons.IH t m by simp
    moreover have "\<And>x. x \<in> set ms \<Longrightarrow> x \<noteq> [] \<and> last x = newline \<and> newline \<notin> set (butlast x)"
      using Cons.IH t m by simp
    ultimately show ?thesis using False by auto
  qed
qed

lemma concat_file_lines: "concat (file_lines s) = universal_newlines s"
  by (simp add: file_lines_def concat_split_lines)

lemma file_lines_plain: "carriage_return \<notin> set s \<Longrightarrow> file_lines s = split_lines s"
  by (simp add: file_lines_def universal_newlines_id)

lemma file_lines_clean: "l \<in> set (file_lines s) \<Longrightarrow> carriage_return \<notin> set l"
  unfolding file_lines_def using split_lines_clean universal_newlines_clean by blast

lemma file_lines_Nil_iff: "file_lines s = [] \<longleftrightarrow> s = []"
  by (simp add: file_lines_def split_lines_Nil_iff universal_newlines_Nil_iff)

lemma terminated_universal: "terminated s \<Longrightarrow> terminated (universal_newlines s)"
proof (induction s rule: universal_newlines.induct)
  case 1
  then show ?case by simp
next
  case (2 c)
  then show ?case by (simp add: terminated_def)
next
  case (3 c d cs)
  have t: "terminated (d # cs)" using "3.prems" terminated_Cons by blast
  show ?case
  proof (cases "c = carriage_return \<and> d = newline")
    case True
    have "terminated cs" using t terminated_Cons by blast
    then have "terminated (universal_newlines cs)" using True "3.IH"(1) by simp
    then show ?thesis using True by (auto simp: terminated_def)
  next
    case False
    have "terminated (universal_newlines (d # cs))"
      using False "3.IH"(2,3) t by (cases "c = carriage_return") auto
    moreover have "universal_newlines (d # cs) \<noteq> []" by (simp add: universal_newlines_Nil_iff)
    ultimately show ?thesis using False by (auto simp: terminated_def)
  qed
qed

lemma file_lines_append: "terminated s \<Longrightarrow> file_lines (s @ t) = file_lines s @ file_lines t"
proof -
  assume t: "terminated s"
  then have "s = [] \<or> last s \<noteq> carriage_return"
    by (auto simp: terminated_def newline_def carriage_return_def)
  then have "universal_newlines (s @ t) = universal_newlines s @ universal_newlines t"
    by (rule universal_newlines_append)
  then show ?thesis
    using terminated_universal [OF t] by (simp add: file_lines_def split_lines_append)
qed

lemma file_lines_line: "is_line l \<Longrightarrow> file_lines l = [l]"
  by (simp add: file_lines_plain split_lines_line is_line_def)

lemma file_lines_is_line: "terminated s \<Longrightarrow> l \<in> set (file_lines s) \<Longrightarrow> is_line l"
  unfolding file_lines_def is_line_def
  using split_lines_ends [OF terminated_universal] split_lines_clean [OF universal_newlines_clean]
  by blast

lemma is_line_terminated: "is_line l \<Longrightarrow> terminated l"
  by (simp add: is_line_def terminated_def)

lemma terminated_concat: "\<forall>l\<in>set ls. is_line l \<Longrightarrow> terminated (concat ls)"
proof (induction ls rule: rev_induct)
  case Nil
  then show ?case by (simp add: terminated_def)
next
  case (snoc x xs)
  then have "is_line x" by simp
  then show ?case by (simp add: terminated_def is_line_def)
qed

lemma file_lines_concat: "\<forall>l\<in>set ls. is_line l \<Longrightarrow> file_lines (concat ls) = ls"
proof (induction ls)
  case Nil
  then show ?case by (simp add: file_lines_def)
next
  case (Cons a ls)
  then show ?case
    by (simp add: file_lines_append is_line_terminated file_lines_line)
qed

lemma unbroken_append: "unbroken (a @ b) \<longleftrightarrow> unbroken a \<and> unbroken b"
  by (auto simp: unbroken_def)

lemma plain_property_line:
  "unbroken k \<Longrightarrow> unbroken v \<Longrightarrow> carriage_return \<notin> set (property_line k v)"
  by (simp add: property_line_def unbroken_def carriage_return_def newline_def)

lemma plain_seeded_lines: "unbroken dk \<Longrightarrow> carriage_return \<notin> set (seeded_lines dk)"
  by (simp add: seeded_lines_def property_line_def unbroken_def carriage_return_def newline_def)

lemma concat_file_lines_plain: "carriage_return \<notin> set s \<Longrightarrow> concat (file_lines s) = s"
  by (simp add: concat_file_lines universal_newlines_id)

section \<open>Keys and values\<close>

lemma strip_fix_dropWhile:
  assumes "strip v = v"
  shows "dropWhile is_space v = v" and "dropWhile is_space (rev v) = rev v"
proof -
  let ?a = "dropWhile is_space v"
  let ?b = "dropWhile is_space (rev ?a)"
  have e: "rev ?b = v" using assms by (simp add: strip_def)
  have "length v = length ?b" using e by (metis length_rev)
  moreover have "length ?b \<le> length ?a" by (metis length_dropWhile_le length_rev)
  moreover have "length ?a \<le> length v" by (rule length_dropWhile_le)
  ultimately have "length ?a = length v" by simp
  then show a: "?a = v"
    by (metis append_eq_conv_conj takeWhile_dropWhile_id append_self_conv2 length_append
        add_cancel_right_left length_0_conv)
  from e a show "dropWhile is_space (rev v) = rev v"
    by (metis rev_rev_ident)
qed

lemma strip_snoc_newline:
  assumes "strip v = v"
  shows "strip (v @ [newline]) = v"
proof (cases "v = []")
  case True
  then show ?thesis by (simp add: strip_def is_space_def newline_def)
next
  case False
  have a: "dropWhile is_space v = v" and b: "dropWhile is_space (rev v) = rev v"
    using strip_fix_dropWhile [OF assms] by simp_all
  have h: "\<not> is_space (hd v)" using a False by (simp add: dropWhile_eq_self_iff)
  have "dropWhile is_space (v @ [newline]) = v @ [newline]"
    using h False by (simp add: dropWhile_eq_self_iff)
  moreover have "is_space newline" by (simp add: is_space_def newline_def)
  ultimately show ?thesis using b by (simp add: strip_def)
qed

lemma takeWhile_noeq:
  "CHR ''='' \<notin> set k \<Longrightarrow> takeWhile (\<lambda>c. c \<noteq> CHR ''='') (k @ CHR ''='' # r) = k"
  by (induction k) auto

lemma dropWhile_noeq:
  "CHR ''='' \<notin> set k \<Longrightarrow> dropWhile (\<lambda>c. c \<noteq> CHR ''='') (k @ CHR ''='' # r) = CHR ''='' # r"
  by (induction k) auto

lemma partition_eq_new: "CHR ''='' \<notin> set k \<Longrightarrow> partition_eq (k @ CHR ''='' # r) = (k, ''='', r)"
  by (simp add: partition_eq_def takeWhile_noeq dropWhile_noeq)

lemma partition_eq_bare: "CHR ''='' \<notin> set l \<Longrightarrow> partition_eq l = (l, [], [])"
proof -
  assume "CHR ''='' \<notin> set l"
  then have "dropWhile (\<lambda>c. c \<noteq> CHR ''='') l = []" by auto
  then show ?thesis unfolding partition_eq_def by (simp only: list.case)
qed

lemma keep_lines_replace: "keep_lines k True ls = Some (filter (\<lambda>l. line_key l \<noteq> k) ls)"
  by (induction ls) auto

lemma keep_lines_keep:
  "keep_lines k False ls = (if k \<in> line_key ` set ls then None else Some ls)"
  by (induction ls) auto

lemma first_value_None: "first_value k ls = None \<longleftrightarrow> k \<notin> line_key ` set ls"
  by (induction ls) auto

lemma first_value_append:
  "first_value k (ls @ ms) =
     (case first_value k ls of Some v \<Rightarrow> Some v | None \<Rightarrow> first_value k ms)"
  by (induction ls) auto

section \<open>The file system: what a change leaves alone\<close>

lemma lookup_append:
  "lookup t (p @ q) = (case lookup t p of None \<Rightarrow> None | Some n \<Rightarrow> lookup n q)"
proof (induction t p rule: lookup.induct)
  case (1 n)
  then show ?case by simp
next
  case (2 c f x xs)
  then show ?case by simp
next
  case (3 es x xs)
  then show ?case by (simp split: option.splits)
qed

lemma lookup_put_same: "put p n t = Some t' \<Longrightarrow> lookup t' p = Some n"
proof (induction p n t arbitrary: t' rule: put.induct)
  case (1 new n)
  then show ?case by simp
next
  case (2 x xs new c f)
  then show ?case by simp
next
  case (3 x xs new es)
  show ?case
  proof (cases "xs = []")
    case True
    then show ?thesis using "3.prems" by (auto simp: update_conv')
  next
    case False
    then obtain m m' where m: "map_of es x = Some m" "put xs new m = Some m'"
        "t' = Dir (AList.update x m' es)"
      using "3.prems" by (auto split: option.splits)
    then have "lookup m' xs = Some new" using "3.IH" False by blast
    then show ?thesis using m by (simp add: update_conv')
  qed
qed

lemma lookup_put_other:
  "put p n t = Some t' \<Longrightarrow> \<not> prefix p q \<Longrightarrow> \<not> prefix q p \<Longrightarrow> lookup t' q = lookup t q"
proof (induction p n t arbitrary: t' q rule: put.induct)
  case (1 new n)
  then show ?case by simp
next
  case (2 x xs new c f)
  then show ?case by simp
next
  case (3 x xs new es)
  from "3.prems" obtain y ys where q: "q = y # ys" by (cases q) auto
  show ?case
  proof (cases "xs = []")
    case True
    then have "t' = Dir (AList.update x new es)" and "y \<noteq> x"
      using "3.prems" q by auto
    then show ?thesis using q by (simp add: update_conv')
  next
    case False
    then obtain m m' where m: "map_of es x = Some m" "put xs new m = Some m'"
        "t' = Dir (AList.update x m' es)"
      using "3.prems" by (auto split: option.splits)
    show ?thesis
    proof (cases "y = x")
      case True
      then have "\<not> prefix xs ys" and "\<not> prefix ys xs" using "3.prems" q by auto
      then have "lookup m' ys = lookup m ys" using "3.IH" False m by blast
      then show ?thesis using m q True by (simp add: update_conv')
    next
      case False
      then show ?thesis using m q by (simp add: update_conv')
    qed
  qed
qed

lemma put_existing: "lookup t p \<noteq> None \<Longrightarrow> \<exists>t'. put p n t = Some t'"
proof (induction p n t rule: put.induct)
  case (1 new n)
  then show ?case by simp
next
  case (2 x xs new c f)
  then show ?case by simp
next
  case (3 x xs new es)
  show ?case
  proof (cases "xs = []")
    case True
    then show ?thesis by simp
  next
    case False
    from "3.prems" obtain m where m: "map_of es x = Some m" "lookup m xs \<noteq> None"
      by (auto split: option.splits)
    then obtain m' where "put xs new m = Some m'" using "3.IH" False by blast
    then show ?thesis using m False by simp
  qed
qed

lemma lookup_remove_other:
  "remove p t = Some t' \<Longrightarrow> \<not> prefix p q \<Longrightarrow> \<not> prefix q p \<Longrightarrow> lookup t' q = lookup t q"
proof (induction p t arbitrary: t' q rule: remove.induct)
  case (1 n)
  then show ?case by simp
next
  case (2 x xs c f)
  then show ?case by simp
next
  case (3 x xs es)
  from "3.prems" obtain y ys where q: "q = y # ys" by (cases q) auto
  from "3.prems" obtain m where m: "map_of es x = Some m" by (auto split: option.splits)
  show ?case
  proof (cases "xs = []")
    case True
    then have "t' = Dir (AList.delete x es)" and "y \<noteq> x"
      using "3.prems" q m by auto
    then show ?thesis using q by (simp add: delete_conv')
  next
    case False
    then obtain m' where m': "remove xs m = Some m'" "t' = Dir (AList.update x m' es)"
      using "3.prems" m by (auto split: option.splits)
    show ?thesis
    proof (cases "y = x")
      case True
      then have "\<not> prefix xs ys" and "\<not> prefix ys xs" using "3.prems" q by auto
      then have "lookup m' ys = lookup m ys" using "3.IH" False m m' by blast
      then show ?thesis using m m' q True by (simp add: update_conv')
    next
      case False
      then show ?thesis using m m' q by (simp add: update_conv')
    qed
  qed
qed

lemma remove_Some: "lookup t p \<noteq> None \<Longrightarrow> p \<noteq> [] \<Longrightarrow> \<exists>t'. remove p t = Some t'"
proof (induction p t rule: remove.induct)
  case (1 n)
  then show ?case by simp
next
  case (2 x xs c f)
  then show ?case by simp
next
  case (3 x xs es)
  from "3.prems" obtain m where m: "map_of es x = Some m" "lookup m xs \<noteq> None"
    by (auto split: option.splits)
  show ?case
  proof (cases "xs = []")
    case True
    then show ?thesis using m by simp
  next
    case False
    then obtain m' where "remove xs m = Some m'" using "3.IH" m by blast
    then show ?thesis using m False by simp
  qed
qed

lemma lookup_remove_same: "remove p t = Some t' \<Longrightarrow> lookup t' p = None"
proof (induction p t arbitrary: t' rule: remove.induct)
  case (1 n)
  then show ?case by simp
next
  case (2 x xs c f)
  then show ?case by simp
next
  case (3 x xs es)
  from "3.prems" obtain m where m: "map_of es x = Some m" by (auto split: option.splits)
  show ?case
  proof (cases "xs = []")
    case True
    then have "t' = Dir (AList.delete x es)" using "3.prems" m by auto
    then show ?thesis using True by (simp add: delete_conv')
  next
    case False
    then obtain m' where m': "remove xs m = Some m'" "t' = Dir (AList.update x m' es)"
      using "3.prems" m by (auto split: option.splits)
    then have "lookup m' xs = None" using "3.IH" False m by blast
    then show ?thesis using m' by (simp add: update_conv')
  qed
qed

section \<open>The property store\<close>

lemma open_failure_cases:
  "open_failure t p = FileNotFoundError \<or> open_failure t p = NotADirectoryError"
  by (induction t p rule: open_failure.induct) (auto split: option.splits)

text \<open>
  C3. The claim: \<^verbatim>\<open>get_property\<close> on a path where no file exists returns \<open>None\<close> and
  does not raise. The code does not do so: \<^verbatim>\<open>get_property\<close> opens the file outside any
  \<^verbatim>\<open>try\<close> (unlike \<^verbatim>\<open>set_property\<close>, whose \<^verbatim>\<open>try\<close> takes a file that cannot be read
  for an empty one), so where nothing exists at the path the failure of the open leaves
  the function, for every key: it is \<open>FileNotFoundError\<close>, or \<open>NotADirectoryError\<close> when
  a name on the way is a regular file.
\<close>

theorem get_property_missing_file_raises:
  "lookup (fs w) (resolve (cwd w) properties) = None \<Longrightarrow>
     get_property properties key w \<in> {Inl FileNotFoundError, Inl NotADirectoryError}"
  using open_failure_cases [of "fs w" "resolve (cwd w) properties"]
  by (auto simp: get_property_def open_read_def)

theorem get_property_missing_file_raises_witness:
  "lookup (fs (project_world [])) (resolve (cwd (project_world [])) ''/rapt/project/local.properties'')
     = None
   \<and> get_property ''/rapt/project/local.properties'' ''key.store'' (project_world [])
       = Inl FileNotFoundError
   \<and> lookup (fs (project_world [(''local.properties'', File [] None)]))
         (resolve (cwd (project_world [(''local.properties'', File [] None)]))
            ''/rapt/project/local.properties/x'') = None
   \<and> get_property ''/rapt/project/local.properties/x'' ''key.store''
         (project_world [(''local.properties'', File [] None)])
       = Inl NotADirectoryError"
proof -
  have h: "lookup (fs (project_world [])) (resolve (cwd (project_world [])) ''/rapt/project/local.properties'')
     = None"
    by (simp add: project_world_def resolve_def)
  have g: "lookup (fs (project_world [(''local.properties'', File [] None)]))
         (resolve (cwd (project_world [(''local.properties'', File [] None)]))
            ''/rapt/project/local.properties/x'') = None"
    by (simp add: project_world_def resolve_def)
  show ?thesis
    using h g get_property_missing_file_raises [OF h, of "''key.store''"]
      get_property_missing_file_raises [OF g, of "''key.store''"]
    by (simp add: project_world_def resolve_def get_property_def open_read_def)
qed

section \<open>Running external processes\<close>

text \<open>
  C7. Through \<^verbatim>\<open>run\<close> and through \<^verbatim>\<open>run_slow\<close>, a process that exits with a non-zero
  status (\<open>CalledProcessError\<close>) and an executable that is not found (\<open>OSError\<close>) both give
  \<open>False\<close>, and a call that returns gives \<open>True\<close>.
\<close>

theorem run_collapses_failures:
  "(fst (call E args kw w) = Returned \<longrightarrow> fst (run E args kw w) = Inr True)
   \<and> (fst (call E args kw w) = Raised_CalledProcessError \<longrightarrow> fst (run E args kw w) = Inr False)
   \<and> (fst (call E args kw w) = Raised_OSError \<longrightarrow> fst (run E args kw w) = Inr False)
   \<and> (fst (call E args (kw\<lparr> cancel := True \<rparr>) w) = Returned
        \<longrightarrow> fst (run_slow E args kw w) = Inr True)
   \<and> (fst (call E args (kw\<lparr> cancel := True \<rparr>) w) = Raised_CalledProcessError
        \<longrightarrow> fst (run_slow E args kw w) = Inr False)
   \<and> (fst (call E args (kw\<lparr> cancel := True \<rparr>) w) = Raised_OSError
        \<longrightarrow> fst (run_slow E args kw w) = Inr False)"
  by (simp add: run_def run_slow_def interface_call_def)

theorem run_collapses_failures_witness:
  "fst (run flaky_env [''javac''] no_kwargs unpacked_world) = Inr True
   \<and> fst (run flaky_env [''java''] no_kwargs unpacked_world) = Inr False
   \<and> fst (run flaky_env [''keytool''] no_kwargs unpacked_world) = Inr False
   \<and> fst (run_slow flaky_env [''javac''] no_kwargs unpacked_world) = Inr True
   \<and> fst (run_slow flaky_env [''java''] no_kwargs unpacked_world) = Inr False
   \<and> fst (run_slow flaky_env [''keytool''] no_kwargs unpacked_world) = Inr False"
  using run_collapses_failures [of flaky_env "[''javac'']" no_kwargs unpacked_world]
        run_collapses_failures [of flaky_env "[''java'']" no_kwargs unpacked_world]
        run_collapses_failures [of flaky_env "[''keytool'']" no_kwargs unpacked_world]
  by (simp add: flaky_env_def demo_env_def)

section \<open>Unpacking the SDK\<close>

text \<open>
  C5. When the SDK manager exists at its path, \<^verbatim>\<open>unpack_sdk\<close> reports that the SDK is
  already unpacked and returns: that report is the only event, so there is no terms
  prompt and no download, and the file system and the working directory are as before,
  so nothing is extracted.
\<close>

theorem unpack_sdk_already_unpacked:
  "os_path_exists w (sdkmanager P) \<Longrightarrow>
     unpack_sdk E P w = (Inr (), w\<lparr> trace := trace w @ [Success SDK_already_unpacked] \<rparr>)"
  by (simp add: unpack_sdk_def interface_success_def emit_def)

theorem unpack_sdk_already_unpacked_witness:
  "os_path_exists unpacked_world (sdkmanager demo_plat)
   \<and> unpack_sdk demo_env demo_plat unpacked_world
       = (Inr (), unpacked_world\<lparr> trace := [Success SDK_already_unpacked] \<rparr>)"
proof -
  have h: "os_path_exists unpacked_world (sdkmanager demo_plat)"
    by (simp add: os_path_exists_def unpacked_world_def demo_plat_def resolve_def)
  have "trace unpacked_world = []" by (simp add: unpacked_world_def)
  then show ?thesis using h unpack_sdk_already_unpacked [OF h, of demo_env] by simp
qed

section \<open>Writing and reading back\<close>

lemma line_key_property_line:
  "strip k = k \<Longrightarrow> CHR ''='' \<notin> set k \<Longrightarrow> line_key (property_line k v) = k"
  by (simp add: line_key_def property_line_def partition_eq_new)

lemma line_value_property_line:
  "strip v = v \<Longrightarrow> CHR ''='' \<notin> set k \<Longrightarrow> line_value (property_line k v) = v"
  by (simp add: line_value_def property_line_def partition_eq_new strip_snoc_newline)

lemma is_line_property_line:
  "unbroken k \<Longrightarrow> unbroken v \<Longrightarrow> is_line (property_line k v)"
  by (simp add: is_line_def unbroken_def property_line_def newline_def carriage_return_def
      butlast_append)

lemma open_write_Inr:
  assumes "open_write s text w = (Inr (), w')"
  shows "w' = w\<lparr> fs := fs w' \<rparr>"
    and "put (resolve (cwd w) s) (File text None) (fs w) = Some (fs w')"
  using assms by (auto simp: open_write_def split: option.splits node.splits)

lemma open_write_Inl: "open_write s text w = (Inl e, w') \<Longrightarrow> w' = w"
  by (auto simp: open_write_def split: option.splits node.splits)

lemma open_write_cwd: "open_write s text w = (r, w') \<Longrightarrow> cwd w' = cwd w \<and> trace w' = trace w \<and> environ w' = environ w"
  by (auto simp: open_write_def split: option.splits node.splits)

lemma open_write_lookup:
  assumes "open_write s text w = (Inr (), w')"
  shows "lookup (fs w') (resolve (cwd w) s) = Some (File text None)"
  using open_write_Inr(2) [OF assms] by (rule lookup_put_same)

lemma open_write_other:
  assumes "open_write s text w = (r, w')"
    and "\<not> prefix (resolve (cwd w) s) q" and "\<not> prefix q (resolve (cwd w) s)"
  shows "lookup (fs w') q = lookup (fs w) q"
proof (cases r)
  case (Inl e)
  then show ?thesis using assms open_write_Inl by blast
next
  case (Inr u)
  then have "open_write s text w = (Inr (), w')" using assms by simp
  then show ?thesis using open_write_Inr(2) lookup_put_other assms by blast
qed

lemma open_write_existing:
  assumes "lookup (fs w) (resolve (cwd w) s) = Some (File c f)"
  shows "\<exists>w'. open_write s text w = (Inr (), w')"
proof -
  obtain t where "put (resolve (cwd w) s) (File text None) (fs w) = Some t"
    using put_existing [of "fs w" "resolve (cwd w) s"] assms by auto
  then show ?thesis using assms by (simp add: open_write_def)
qed

lemma lines_read_written:
  assumes "open_write s text w = (Inr (), w')"
  shows "open_read w' s = Inr (file_lines text, False)" and "lines_read w' s = file_lines text"
proof -
  have "cwd w' = cwd w" using assms open_write_cwd by blast
  then have "lookup (fs w') (resolve (cwd w') s) = Some (File text None)"
    using open_write_lookup [OF assms] by simp
  then show "open_read w' s = Inr (file_lines text, False)" by (simp add: open_read_def)
  then show "lines_read w' s = file_lines text" by (simp add: lines_read_def)
qed

lemma file_lines_snoc:
  assumes "\<forall>l\<in>set ls. is_line l" and "is_line l"
  shows "file_lines (concat ls @ l) = ls @ [l]"
  using assms by (simp add: file_lines_append terminated_concat file_lines_concat file_lines_line)

lemma get_property_found:
  assumes "open_read w f = Inr (ls, raised)" and "first_value k ls = Some v"
  shows "get_property f k w = Inr (Some v)"
  using assms by (simp add: get_property_def)

lemma filter_absent: "k \<notin> line_key ` set ls \<Longrightarrow> filter (\<lambda>l. line_key l \<noteq> k) ls = ls"
  by (induction ls) auto


lemma lp_demo: "local_properties demo_plat = ''/rapt/project/local.properties''"
  by (simp add: local_properties_def demo_plat_def path_join_def)

lemma resolve_lp: "resolve [] ''/rapt/project/local.properties'' = [''rapt'', ''project'', ''local.properties'']"
  by (simp add: resolve_def)

lemmas eval_defs = set_property_def get_property_def lines_read_def open_read_def open_write_def
  project_world_def resolve_lp line_key_def line_value_def partition_eq_def strip_def is_space_def
  newline_def carriage_return_def file_lines_def property_line_def is_line_def unbroken_def




text \<open>
  C9. When the property file exists and reading it raises after \<open>n\<close> lines (\<open>n\<close> may
  be 0), and the loop has not returned before (the key is to be replaced, or none of
  those lines has it), \<^verbatim>\<open>set_property\<close> returns normally and the file holds the lines
  read before the failure that it kept, followed by the new line: the rest of the file is
  lost, and with \<open>n = 0\<close> the new line is all that is left.
\<close>

theorem set_property_swallows_read_failure:
  assumes "lookup (fs w) (resolve (cwd w) f) = Some (File c (Some n))"
    and "replace \<or> k \<notin> line_key ` set (take n (file_lines c))"
  shows "\<exists>w'. set_property f k v replace w = (Inr (), w')
          \<and> lookup (fs w') (resolve (cwd w) f)
              = Some (File (concat (filter (\<lambda>l. line_key l \<noteq> k) (take n (file_lines c)))
                            @ property_line k v) None)"
proof -
  let ?ls = "take n (file_lines c)"
  let ?kept = "filter (\<lambda>l. line_key l \<noteq> k) ?ls"
  have lr: "lines_read w f = ?ls" using assms(1) by (simp add: lines_read_def open_read_def)
  have "keep_lines k replace ?ls = Some ?kept"
  proof (cases replace)
    case True
    then show ?thesis by (simp add: keep_lines_replace)
  next
    case False
    then have "k \<notin> line_key ` set ?ls" using assms(2) by simp
    then show ?thesis using False by (simp add: keep_lines_keep filter_absent)
  qed
  then have sp: "set_property f k v replace w = open_write f (concat ?kept @ property_line k v) w"
    using lr by (simp add: set_property_def property_line_def)
  obtain w' where w': "open_write f (concat ?kept @ property_line k v) w = (Inr (), w')"
    using open_write_existing [OF assms(1)] by blast
  then show ?thesis using sp open_write_lookup [OF w'] by simp
qed

theorem set_property_swallows_read_failure_witness:
  "set_property ''/rapt/project/local.properties'' ''sdk.dir'' ''/rapt/Sdk'' True
      (project_world [(''local.properties'',
         File (''key.alias=me'' @ [newline] @ ''key.store=/home/me/my.keystore'' @ [newline]) (Some 0))])
   = (Inr (), project_world [(''local.properties'', File (''sdk.dir=/rapt/Sdk'' @ [newline]) None)])"
  using set_property_swallows_read_failure [of
      "project_world [(''local.properties'',
         File (''key.alias=me'' @ [newline] @ ''key.store=/home/me/my.keystore'' @ [newline]) (Some 0))]"
      "''/rapt/project/local.properties''"
      "''key.alias=me'' @ [newline] @ ''key.store=/home/me/my.keystore'' @ [newline]" 0 True "''sdk.dir''" "''/rapt/Sdk''"]
  by (simp add: eval_defs)

text \<open>
  C10. A line without \<open>=\<close> is a key with an empty value: when the first line whose
  stripped text is the key has no \<open>=\<close>, \<^verbatim>\<open>get_property\<close> returns the empty string,
  \<^verbatim>\<open>set_property\<close> without \<open>replace\<close> changes nothing, and with \<open>replace\<close> it writes
  the other lines and the new line, so the bare line is gone.
\<close>

theorem bare_line_is_a_key:
  assumes "open_read w f = Inr (pre @ l # post, raised)"
    and "CHR ''='' \<notin> set l" and "strip l = k" and "k \<notin> line_key ` set pre"
  shows "get_property f k w = Inr (Some [])
       \<and> set_property f k v False w = (Inr (), w)
       \<and> set_property f k v True w
           = open_write f (concat (filter (\<lambda>x. line_key x \<noteq> k) (pre @ post)) @ property_line k v) w"
proof -
  have lk: "line_key l = k" and lv: "line_value l = []"
    using assms(2,3) by (simp_all add: line_key_def line_value_def partition_eq_bare strip_def)
  have "first_value k (pre @ l # post) = Some []"
    using assms(4) lk lv by (simp add: first_value_append first_value_None [THEN iffD2])
  then have g: "get_property f k w = Inr (Some [])"
    using get_property_found [OF assms(1)] by simp
  have lr: "lines_read w f = pre @ l # post" using assms(1) by (simp add: lines_read_def)
  have s: "set_property f k v False w = (Inr (), w)"
    using lr lk by (simp add: set_property_def keep_lines_keep)
  have "filter (\<lambda>x. line_key x \<noteq> k) (pre @ l # post) = filter (\<lambda>x. line_key x \<noteq> k) (pre @ post)"
    using lk by simp
  then have r: "set_property f k v True w
           = open_write f (concat (filter (\<lambda>x. line_key x \<noteq> k) (pre @ post)) @ property_line k v) w"
    using lr by (simp add: set_property_def keep_lines_replace property_line_def)
  show ?thesis using g s r by simp
qed

theorem bare_line_is_a_key_witness:
  "get_property ''/rapt/project/local.properties'' ''k''
     (project_world [(''local.properties'', File (''a=1'' @ [newline] @ ''k'' @ [newline]) None)])
     = Inr (Some [])
   \<and> set_property ''/rapt/project/local.properties'' ''k'' ''v'' False
     (project_world [(''local.properties'', File (''a=1'' @ [newline] @ ''k'' @ [newline]) None)])
     = (Inr (), project_world [(''local.properties'', File (''a=1'' @ [newline] @ ''k'' @ [newline]) None)])
   \<and> set_property ''/rapt/project/local.properties'' ''k'' ''v'' True
     (project_world [(''local.properties'', File (''a=1'' @ [newline] @ ''k'' @ [newline]) None)])
     = (Inr (), project_world [(''local.properties'', File (''a=1'' @ [newline] @ ''k=v'' @ [newline]) None)])"
  using bare_line_is_a_key [of
     "project_world [(''local.properties'', File (''a=1'' @ [newline] @ ''k'' @ [newline]) None)]"
     "''/rapt/project/local.properties''" "[''a=1'' @ [newline]]" "''k'' @ [newline]" "[]" False "''k''" "''v''"]
  by (simp add: eval_defs)

section \<open>The monad\<close>

lemma seq_Inr:
  assumes "seq m k w = (Inr x, w')"
  shows "\<exists>w1. m w = (Inr (), w1) \<and> k w1 = (Inr x, w')"
  using assms by (auto simp: seq_def bind_def split: prod.splits sum.splits)

lemma bind_Inr:
  assumes "bind m f w = (Inr x, w')"
  shows "\<exists>y w1. m w = (Inr y, w1) \<and> f y w1 = (Inr x, w')"
  using assms by (auto simp: bind_def split: prod.splits sum.splits)

section \<open>Reorganising the unpacked SDK\<close>

lemma move_Inr:
  assumes "move src dst n w = (Inr (), w')"
  shows "\<exists>t. remove src (fs w) = Some t \<and> put dst n t = Some (fs w') \<and> w' = w\<lparr> fs := fs w' \<rparr>"
  using assms by (auto simp: move_def split: option.splits)

lemma rename_paths_Inr:
  assumes "rename_paths src dst w = (Inr (), w')" and "src \<noteq> dst"
  shows "\<exists>n t. lookup (fs w) src = Some n \<and> remove src (fs w) = Some t
            \<and> put dst n t = Some (fs w') \<and> w' = w\<lparr> fs := fs w' \<rparr>"
proof -
  obtain n where n: "lookup (fs w) src = Some n"
    using assms by (auto simp: rename_paths_def split: option.splits)
  have "move src dst n w = (Inr (), w')"
    using assms n by (auto simp: rename_paths_def split: option.splits node.splits if_splits)
  then show ?thesis using n move_Inr by blast
qed

lemma os_mkdir_Inr:
  assumes "os_mkdir s w = (Inr (), w')"
  shows "put (resolve (cwd w) s) (Dir []) (fs w) = Some (fs w') \<and> w' = w\<lparr> fs := fs w' \<rparr>"
  using assms by (auto simp: os_mkdir_def split: option.splits if_splits)

lemma resolve_names:
  "resolve wd ''Sdk/cmdline-tools'' = wd @ [''Sdk'', ''cmdline-tools'']"
  "resolve wd ''Sdk/latest'' = wd @ [''Sdk'', ''latest'']"
  "resolve wd ''Sdk/cmdline-tools/latest'' = wd @ [''Sdk'', ''cmdline-tools'', ''latest'']"
  by (simp_all add: resolve_def)

lemma moved_lookup:
  assumes "lookup t src = Some n" and "remove src t = Some t1" and "put dst n t1 = Some t2"
    and "\<not> prefix src q" and "\<not> prefix q src" and "\<not> prefix dst q" and "\<not> prefix q dst"
  shows "lookup t2 q = lookup t q"
  using assms lookup_put_other lookup_remove_other by metis

lemma reorganize_relocates:
  assumes "reorganize w = (Inr (), w')"
  shows "cwd w' = cwd w
       \<and> lookup (fs w) (cwd w @ [''Sdk'', ''cmdline-tools'']) \<noteq> None
       \<and> (\<forall>r. lookup (fs w') (cwd w @ [''Sdk'', ''cmdline-tools'', ''latest''] @ r)
              = lookup (fs w) (cwd w @ [''Sdk'', ''cmdline-tools''] @ r))"
proof -
  let ?a = "cwd w @ [''Sdk'', ''cmdline-tools'']"
  let ?b = "cwd w @ [''Sdk'', ''latest'']"
  let ?d = "cwd w @ [''Sdk'', ''cmdline-tools'', ''latest'']"
  obtain w1 w2 where s1: "os_rename ''Sdk/cmdline-tools'' ''Sdk/latest'' w = (Inr (), w1)"
    and s2: "os_mkdir ''Sdk/cmdline-tools'' w1 = (Inr (), w2)"
    and s3: "os_rename ''Sdk/latest'' ''Sdk/cmdline-tools/latest'' w2 = (Inr (), w')"
    using assms unfolding reorganize_def by (meson seq_Inr)
  have ab: "?a \<noteq> ?b" "\<not> prefix ?a ?b" "\<not> prefix ?b ?a" by simp_all
  have bd: "?b \<noteq> ?d" by simp
  have r1: "rename_paths ?a ?b w = (Inr (), w1)"
    using s1 by (simp add: os_rename_def resolve_names)
  obtain n t1 where n: "lookup (fs w) ?a = Some n" and t1: "remove ?a (fs w) = Some t1"
    and p1: "put ?b n t1 = Some (fs w1)" and w1: "w1 = w\<lparr> fs := fs w1 \<rparr>"
    using rename_paths_Inr [OF r1 ab(1)] by blast
  have c1: "cwd w1 = cwd w" using w1 by (metis world.select_convs(2) world.surjective world.update_convs(1))
  have b1: "lookup (fs w1) ?b = Some n" using p1 by (rule lookup_put_same)
  have m2: "put ?a (Dir []) (fs w1) = Some (fs w2)" and w2: "w2 = w1\<lparr> fs := fs w2 \<rparr>"
    using os_mkdir_Inr [OF s2] c1 by (simp_all add: resolve_names)
  have c2: "cwd w2 = cwd w" using w2 c1 by (metis world.select_convs(2) world.surjective world.update_convs(1))
  have b2: "lookup (fs w2) ?b = Some n"
    using lookup_put_other [OF m2 ab(2) ab(3)] b1 by simp
  have r3: "rename_paths ?b ?d w2 = (Inr (), w')"
    using s3 c2 by (simp add: os_rename_def resolve_names)
  obtain n' t3 where n': "lookup (fs w2) ?b = Some n'" and p3: "put ?d n' t3 = Some (fs w')"
    and w3: "w' = w2\<lparr> fs := fs w' \<rparr>"
    using rename_paths_Inr [OF r3 bd] by blast
  have c3: "cwd w' = cwd w" using w3 c2 by (metis world.select_convs(2) world.surjective world.update_convs(1))
  have d3: "lookup (fs w') ?d = Some n" using p3 n' b2 lookup_put_same by fastforce
  have "\<And>r. lookup (fs w') (?d @ r) = lookup (fs w) (?a @ r)"
    using d3 n by (simp only: lookup_append option.case)
  then show ?thesis using c3 n by simp
qed

lemma chdir_to_Inr: "chdir_to p w = (Inr (), w') \<Longrightarrow> w' = w\<lparr> cwd := p \<rparr>"
  by (auto simp: chdir_to_def split: option.splits node.splits)

lemma zf_extractall_Inr:
  "zf_extractall E a d w = (Inr (), w') \<Longrightarrow> \<exists>t. extractall E a d w = Inr t \<and> w' = w\<lparr> fs := t \<rparr>"
  by (auto simp: zf_extractall_def split: sum.splits)

lemma FixedZipFile_Inr: "FixedZipFile E a w = (Inr (), w') \<Longrightarrow> w' = w"
  by (simp add: FixedZipFile_def)

lemma rn1: "os_rename ''Sdk/cmdline-tools'' ''Sdk/latest'' (sdk_tree [(''cmdline-tools'', tools)])
     = (Inr (), sdk_tree [(''latest'', tools)])"
  by (simp add: os_rename_def resolve_names rename_paths_def sdk_tree_def move_def tools_def)

lemma mk2: "os_mkdir ''Sdk/cmdline-tools'' (sdk_tree [(''latest'', tools)])
     = (Inr (), sdk_tree [(''latest'', tools), (''cmdline-tools'', Dir [])])"
  by (simp add: os_mkdir_def resolve_names sdk_tree_def)

lemma rn3: "os_rename ''Sdk/latest'' ''Sdk/cmdline-tools/latest'' (sdk_tree [(''latest'', tools), (''cmdline-tools'', Dir [])])
     = (Inr (), sdk_tree [(''cmdline-tools'', Dir [(''latest'', tools)])])"
  by (simp add: os_rename_def resolve_names rename_paths_def sdk_tree_def move_def tools_def)

lemma reorg: "reorganize (sdk_tree [(''cmdline-tools'', tools)]) = (Inr (), sdk_tree [(''cmdline-tools'', Dir [(''latest'', tools)])])"
  by (simp add: reorganize_def seq_def bind_def rn1 mk2 rn3)

lemma demo_dot: "path demo_plat ''.'' = ''/rapt/.''"
  by (simp add: demo_plat_def path_join_def)

lemma cd1: "os_chdir ''/rapt/.'' fresh_world = (Inr (), fresh_world\<lparr> cwd := [''rapt''] \<rparr>)"
  by (simp add: os_chdir_def chdir_to_def resolve_def fresh_world_def)

lemma ex2: "zf_extractall zip_env a ''Sdk'' (fresh_world\<lparr> cwd := [''rapt''] \<rparr>) = (Inr (), sdk_tree [(''cmdline-tools'', tools)])"
  by (simp add: zf_extractall_def zip_env_def fresh_world_def sdk_tree_def)

lemma cd4: "chdir_to (cwd fresh_world) (sdk_tree [(''cmdline-tools'', Dir [(''latest'', tools)])]) = (Inr (), unpacked_world)"
  by (simp add: chdir_to_def fresh_world_def sdk_tree_def unpacked_world_def tools_def)

lemma zo: "FixedZipFile zip_env a w = (Inr (), w)"
  by (simp add: FixedZipFile_def zip_env_def demo_env_def)

lemma extract_demo: "unpack_sdk_extract zip_env demo_plat a fresh_world = (Inr (), unpacked_world)"
  by (simp add: unpack_sdk_extract_def seq_def bind_def zo demo_dot cd1 ex2 reorg cd4)

text \<open>
  C6. When \<^verbatim>\<open>extract\<close> completes, the zip library has unpacked a tree in which
  \<open>Sdk/cmdline-tools\<close> exists (below the directory of the tool), and whatever that tree
  holds at \<open>Sdk/cmdline-tools/r\<close> is afterwards at \<open>Sdk/cmdline-tools/latest/r\<close>, for
  every \<open>r\<close>: the directory itself, and with it the package manager inside it.
\<close>

theorem extract_relocates:
  assumes "unpack_sdk_extract E P archive w = (Inr (), w')"
  shows "\<exists>t. extractall E (path P archive) ''Sdk'' (w\<lparr> cwd := resolve (cwd w) (path P ''.'') \<rparr>) = Inr t
          \<and> lookup t (resolve (cwd w) (path P ''.'') @ [''Sdk'', ''cmdline-tools'']) \<noteq> None
          \<and> (\<forall>r. lookup (fs w') (resolve (cwd w) (path P ''.'') @ [''Sdk'', ''cmdline-tools'', ''latest''] @ r)
                 = lookup t (resolve (cwd w) (path P ''.'') @ [''Sdk'', ''cmdline-tools''] @ r))"
proof -
  let ?B = "resolve (cwd w) (path P ''.'')"
  from assms obtain w0 where z: "FixedZipFile E (path P archive) w = (Inr (), w0)"
    and r0: "seq (os_chdir (path P ''.'')) (seq (zf_extractall E (path P archive) ''Sdk'')
               (seq reorganize (chdir_to (cwd w)))) w0 = (Inr (), w')"
    unfolding unpack_sdk_extract_def by (blast dest: seq_Inr)
  from r0 obtain wa where a: "os_chdir (path P ''.'') w0 = (Inr (), wa)"
    and r1: "seq (zf_extractall E (path P archive) ''Sdk'')
               (seq reorganize (chdir_to (cwd w))) wa = (Inr (), w')"
    by (blast dest: seq_Inr)
  from r1 obtain wb where b: "zf_extractall E (path P archive) ''Sdk'' wa = (Inr (), wb)"
    and r2: "seq reorganize (chdir_to (cwd w)) wb = (Inr (), w')"
    by (blast dest: seq_Inr)
  from r2 obtain wc where c: "reorganize wb = (Inr (), wc)"
    and d: "chdir_to (cwd w) wc = (Inr (), w')"
    by (blast dest: seq_Inr)
  have w0: "w0 = w" using z by (rule FixedZipFile_Inr)
  have wa: "wa = w\<lparr> cwd := ?B \<rparr>" using a w0 chdir_to_Inr by (simp add: os_chdir_def)
  obtain t where t: "extractall E (path P archive) ''Sdk'' wa = Inr t" and wb: "wb = wa\<lparr> fs := t \<rparr>"
    using zf_extractall_Inr [OF b] by blast
  have cb: "cwd wb = ?B" and fb: "fs wb = t" using wa wb by simp_all
  have fw: "fs w' = fs wc" using chdir_to_Inr [OF d] by simp
  have t': "extractall E (path P archive) ''Sdk'' (w\<lparr> cwd := ?B \<rparr>) = Inr t"
    using t wa by simp
  have "lookup t (?B @ [''Sdk'', ''cmdline-tools'']) \<noteq> None"
    using reorganize_relocates [OF c] cb fb by simp
  moreover have "\<forall>r. lookup (fs w') (?B @ [''Sdk'', ''cmdline-tools'', ''latest''] @ r)
                 = lookup t (?B @ [''Sdk'', ''cmdline-tools''] @ r)"
    using reorganize_relocates [OF c] cb fb fw by simp
  ultimately show ?thesis using t' by blast
qed

theorem extract_relocates_witness:
  "unpack_sdk_extract zip_env demo_plat ''commandlinetools-linux-7583922_latest.zip'' fresh_world
     = (Inr (), unpacked_world)
   \<and> lookup (fs unpacked_world) [''rapt'', ''Sdk'', ''cmdline-tools'', ''latest'', ''bin'', ''sdkmanager'']
       = Some (File [] None)"
  using extract_relocates [of zip_env demo_plat "''commandlinetools-linux-7583922_latest.zip''" fresh_world
      unpacked_world]
  by (simp add: extract_demo unpacked_world_def)

section \<open>Steps that only write a property file\<close>

lemma put_file_keeps:
  "put p (File c f) t = Some t' \<Longrightarrow> \<forall>es. lookup t p \<noteq> Some (Dir es) \<Longrightarrow>
     lookup t q \<noteq> None \<Longrightarrow> lookup t' q \<noteq> None"
proof (induction p "File c f" t arbitrary: t' q rule: put.induct)
  case (1 n)
  then have "t' = File c f" by simp
  moreover from 1 obtain c' f' where "n = File c' f'" by (cases n) auto
  then have "q = []" using "1.prems"(3) by (cases q) auto
  ultimately show ?case by simp
next
  case (2 x xs c' f')
  then show ?case by simp
next
  case (3 x xs es)
  show ?case
  proof (cases q)
    case Nil
    then show ?thesis by simp
  next
    case (Cons y ys)
    show ?thesis
    proof (cases "xs = []")
      case True
      then have t': "t' = Dir (AList.update x (File c f) es)" using "3.prems"(1) by simp
      show ?thesis
      proof (cases "y = x")
        case False
        then show ?thesis using t' Cons "3.prems"(3) by (simp add: update_conv')
      next
        case yx: True
        from "3.prems"(3) Cons yx obtain m where m: "map_of es x = Some m" "lookup m ys \<noteq> None"
          by (auto split: option.splits)
        have "\<forall>es'. m \<noteq> Dir es'" using "3.prems"(2) True m by auto
        then obtain c' f' where "m = File c' f'" by (cases m) auto
        then have "ys = []" using m(2) by (cases ys) auto
        then show ?thesis using t' Cons yx by (simp add: update_conv')
      qed
    next
      case False
      then obtain m m' where m: "map_of es x = Some m" "put xs (File c f) m = Some m'"
          "t' = Dir (AList.update x m' es)"
        using "3.prems"(1) by (auto split: option.splits)
      show ?thesis
      proof (cases "y = x")
        case yx: True
        have a: "\<forall>es'. lookup m xs \<noteq> Some (Dir es')" using "3.prems"(2) m by simp
        have b: "lookup m ys \<noteq> None" using "3.prems"(3) Cons yx m by simp
        have "lookup m' ys \<noteq> None" using "3.hyps" [OF False m(1) m(2) a b] .
        then show ?thesis using m Cons yx by (simp add: update_conv')
      next
        case False
        then show ?thesis using m Cons "3.prems"(3) by (simp add: update_conv')
      qed
    qed
  qed
qed

lemma only_writes_refl: "only_writes p w w"
  by (simp add: only_writes_def)

lemma only_writes_trans: "only_writes p w w1 \<Longrightarrow> only_writes p w1 w2 \<Longrightarrow> only_writes p w w2"
  by (simp add: only_writes_def)

lemma open_write_only_writes:
  assumes "open_write s text w = (r, w')"
  shows "only_writes (resolve (cwd w) s) w w'"
proof (cases r)
  case (Inl e)
  then have "w' = w" using assms open_write_Inl by blast
  then show ?thesis by (simp add: only_writes_refl)
next
  case (Inr u)
  then have ok: "open_write s text w = (Inr (), w')" using assms by simp
  have nd: "\<forall>es. lookup (fs w) (resolve (cwd w) s) \<noteq> Some (Dir es)"
    using ok by (auto simp: open_write_def split: option.splits node.splits)
  have p: "put (resolve (cwd w) s) (File text None) (fs w) = Some (fs w')"
    using open_write_Inr(2) [OF ok] .
  have "\<forall>q. lookup (fs w) q \<noteq> None \<longrightarrow> lookup (fs w') q \<noteq> None"
    using put_file_keeps [OF p nd] by blast
  moreover have "\<forall>q. apart (resolve (cwd w) s) q \<longrightarrow> lookup (fs w') q = lookup (fs w) q"
    using lookup_put_other [OF p] by (simp add: apart_def)
  ultimately show ?thesis using open_write_cwd [OF assms] by (simp add: only_writes_def)
qed

lemma set_property_only_writes:
  assumes "set_property f k v r w = (res, w')"
  shows "only_writes (resolve (cwd w) f) w w'"
proof (cases "keep_lines k r (lines_read w f)")
  case None
  then have "w' = w" using assms by (simp add: set_property_def)
  then show ?thesis by (simp add: only_writes_refl)
next
  case (Some ls)
  then have "open_write f (concat ls @ k @ ''='' @ v @ [newline]) w = (res, w')"
    using assms by (simp add: set_property_def)
  then show ?thesis by (rule open_write_only_writes)
qed

lemma seq_only_writes:
  assumes m: "\<And>w r w'. m w = (r, w') \<Longrightarrow> only_writes (resolve (cwd w) f) w w'"
    and k: "\<And>w r w'. k w = (r, w') \<Longrightarrow> only_writes (resolve (cwd w) f) w w'"
    and "seq m k w = (r, w')"
  shows "only_writes (resolve (cwd w) f) w w'"
proof (cases "m w")
  case (Pair r1 w1)
  have o1: "only_writes (resolve (cwd w) f) w w1" using m Pair by blast
  then have c: "cwd w1 = cwd w" by (simp add: only_writes_def)
  show ?thesis
  proof (cases r1)
    case (Inl e)
    then have "w' = w1" using assms(3) Pair by (simp add: seq_def bind_def)
    then show ?thesis using o1 by simp
  next
    case (Inr u)
    then have "k w1 = (r, w')" using assms(3) Pair by (simp add: seq_def bind_def)
    then have "only_writes (resolve (cwd w) f) w1 w'" using k c by metis
    then show ?thesis using o1 only_writes_trans by blast
  qed
qed

lemma seed_defaults_only_writes:
  assumes "seed_defaults f dk w = (r, w')"
  shows "only_writes (resolve (cwd w) f) w w'"
  using assms unfolding seed_defaults_def
  by (rule seq_only_writes [rotated 2]) (erule set_property_only_writes seq_only_writes [rotated 2])+

section \<open>The keys\<close>

lemma calls_append: "calls (xs @ ys) = calls xs @ calls ys"
  by (induction xs rule: calls.induct) auto

lemma interface_info_eq: "interface_info m w = (Inr (), w\<lparr> trace := trace w @ [Info m] \<rparr>)"
  by (simp add: interface_info_def emit_def)

lemma generate_keys_after_seed:
  assumes "seed_defaults (local_properties P) (replace_backslash (path P ''android.keystore'')) w = (r1, w1)"
  shows "generate_keys E P w =
     (case r1 of
        Inl e \<Rightarrow> (Inl e, w1)
      | Inr u \<Rightarrow>
         (case get_property (local_properties P) ''key.store'' w1 of
            Inl e \<Rightarrow> (Inl e, w1)
          | Inr stored \<Rightarrow>
              if stored \<noteq> Some (replace_backslash (path P ''android.keystore''))
              then interface_info Keystore_set_yourself w1
              else if os_path_exists w1 (path P ''android.keystore'')
              then interface_info Keystore_already_created w1
              else create_android_key E P w1))"
  using assms
  by (simp add: generate_keys_def seq_def bind_def get_property_io_def Let_def split: sum.splits)

lemma generate_bundle_keys_after_seed:
  assumes "seed_defaults (bundle_properties P) (replace_backslash (path P ''bundle.keystore'')) w = (r1, w1)"
  shows "generate_bundle_keys E P w =
     (case r1 of
        Inl e \<Rightarrow> (Inl e, w1)
      | Inr u \<Rightarrow>
         (case get_property (bundle_properties P) ''key.store'' w1 of
            Inl e \<Rightarrow> (Inl e, w1)
          | Inr stored \<Rightarrow>
              if stored \<noteq> Some (replace_backslash (path P ''bundle.keystore''))
              then (Inr (), w1)
              else if os_path_exists w1 (path P ''bundle.keystore'')
              then (Inr (), w1)
              else create_bundle_key E P w1))"
  using assms
  by (simp add: generate_bundle_keys_def seq_def bind_def get_property_io_def Let_def return_def
      split: sum.splits)




lemma demo_paths:
  "path demo_plat ''android.keystore'' = ''/rapt/android.keystore''"
  "path demo_plat ''bundle.keystore'' = ''/rapt/bundle.keystore''"
  "local_properties demo_plat = ''/rapt/project/local.properties''"
  "bundle_properties demo_plat = ''/rapt/project/bundle.properties''"
  by (simp_all add: demo_plat_def path_join_def local_properties_def bundle_properties_def)

lemma demo_resolved:
  "resolve [] ''/rapt/android.keystore'' = [''rapt'', ''android.keystore'']"
  "resolve [] ''/rapt/bundle.keystore'' = [''rapt'', ''bundle.keystore'']"
  "resolve [] ''/rapt/project/local.properties'' = [''rapt'', ''project'', ''local.properties'']"
  "resolve [] ''/rapt/project/bundle.properties'' = [''rapt'', ''project'', ''bundle.properties'']"
  by (simp_all add: resolve_def)

section \<open>Declining a prompt\<close>

lemma seq_assoc: "seq (seq a b) c = seq a (seq b c)"
  by (rule ext) (simp add: seq_def bind_def split: prod.splits sum.splits)

lemma seq_step: "m w = (Inr (), w1) \<Longrightarrow> seq m k w = k w1"
  by (simp add: seq_def bind_def)

lemma install_sdk_split:
  "install_sdk E P = seq (provision_sdk E P)
     (seq (generate_keys E P) (seq (generate_bundle_keys E P) (persist_sdk_dir P)))"
  by (simp add: install_sdk_def provision_sdk_def seq_assoc)

lemma create_android_key_declined:
  assumes "\<not> yesno E Want_to_create_key \<or> \<not> yesno E Will_you_backup"
  shows "create_android_key E P w =
     (Inr (), w\<lparr> trace := trace w @
        (if yesno E Want_to_create_key
         then [Yesno Want_to_create_key True, Yesno Will_you_backup False]
         else [Yesno Want_to_create_key False]) \<rparr>)"
  using assms by (auto simp: create_android_key_def bind_def interface_yesno_def return_def)

lemma set_property_create:
  assumes "lookup (fs w) (resolve (cwd w) f) = None"
    and "set_property f k v False w = (Inr (), w')"
  shows "lookup (fs w') (resolve (cwd w') f) = Some (File (property_line k v) None)"
    and "cwd w' = cwd w"
proof -
  have "lines_read w f = []" using assms(1) by (simp add: lines_read_def open_read_def)
  then have ow: "open_write f (property_line k v) w = (Inr (), w')"
    using assms(2) by (simp add: set_property_def property_line_def)
  show c: "cwd w' = cwd w" using open_write_cwd [OF ow] by simp
  show "lookup (fs w') (resolve (cwd w') f) = Some (File (property_line k v) None)"
    using open_write_lookup [OF ow] c by simp
qed

lemma set_property_append_known:
  assumes "lookup (fs w) (resolve (cwd w) f) = Some (File c None)"
    and "k \<notin> line_key ` set (file_lines c)"
    and "set_property f k v False w = (Inr (), w')"
    and "carriage_return \<notin> set c"
  shows "lookup (fs w') (resolve (cwd w') f) = Some (File (c @ property_line k v) None)"
    and "cwd w' = cwd w"
proof -
  have "lines_read w f = file_lines c" using assms(1) by (simp add: lines_read_def open_read_def)
  then have ow: "open_write f (c @ property_line k v) w = (Inr (), w')"
    using assms(2,3,4)
    by (simp add: set_property_def property_line_def keep_lines_keep concat_file_lines
        universal_newlines_id)
  show c: "cwd w' = cwd w" using open_write_cwd [OF ow] by simp
  show "lookup (fs w') (resolve (cwd w') f) = Some (File (c @ property_line k v) None)"
    using open_write_lookup [OF ow] c by simp
qed

lemmas line_eval = property_line_def newline_def carriage_return_def file_lines_def unbroken_def
  line_key_def partition_eq_def strip_def is_space_def

lemma seed_defaults_fresh:
  assumes "lookup (fs w) (resolve (cwd w) f) = None"
    and "seed_defaults f dk w = (Inr (), w')"
  shows "lookup (fs w') (resolve (cwd w) f) = Some (File (seeded_lines dk) None)"
proof -
  have cr: "\<And>k. unbroken k \<Longrightarrow> carriage_return \<notin> set (property_line k ''android'')"
    "unbroken ''key.alias''" "unbroken ''key.store.password''" "unbroken ''key.alias.password''"
    by (simp_all add: property_line_def unbroken_def carriage_return_def newline_def)
  from assms(2) obtain w1 where s1: "set_property f ''key.alias'' ''android'' False w = (Inr (), w1)"
    and r1: "seq (set_property f ''key.store.password'' ''android'' False)
      (seq (set_property f ''key.alias.password'' ''android'' False)
           (set_property f ''key.store'' dk False)) w1 = (Inr (), w')"
    unfolding seed_defaults_def by (blast dest: seq_Inr)
  from r1 obtain w2 where s2: "set_property f ''key.store.password'' ''android'' False w1 = (Inr (), w2)"
    and r2: "seq (set_property f ''key.alias.password'' ''android'' False)
           (set_property f ''key.store'' dk False) w2 = (Inr (), w')"
    by (blast dest: seq_Inr)
  from r2 obtain w3 where s3: "set_property f ''key.alias.password'' ''android'' False w2 = (Inr (), w3)"
    and s4: "set_property f ''key.store'' dk False w3 = (Inr (), w')"
    by (blast dest: seq_Inr)
  have l1: "lookup (fs w1) (resolve (cwd w1) f) = Some (File (property_line ''key.alias'' ''android'') None)"
    and c1: "cwd w1 = cwd w"
    using set_property_create [OF assms(1) s1] by simp_all
  have k2: "''key.store.password'' \<notin> line_key ` set (file_lines (property_line ''key.alias'' ''android''))"
    by (simp add: line_eval)
  have l2: "lookup (fs w2) (resolve (cwd w2) f) = Some (File (property_line ''key.alias'' ''android''
        @ property_line ''key.store.password'' ''android'') None)"
    and c2: "cwd w2 = cwd w1"
    using set_property_append_known [OF l1 k2 s2] by (simp_all add: cr)
  have k3: "''key.alias.password'' \<notin> line_key ` set (file_lines (property_line ''key.alias'' ''android''
        @ property_line ''key.store.password'' ''android''))"
    by (simp add: line_eval)
  have l3: "lookup (fs w3) (resolve (cwd w3) f) = Some (File ((property_line ''key.alias'' ''android''
        @ property_line ''key.store.password'' ''android'') @ property_line ''key.alias.password'' ''android'') None)"
    and c3: "cwd w3 = cwd w2"
    using set_property_append_known [OF l2 k3 s3] by (simp_all add: cr)
  have k4: "''key.store'' \<notin> line_key ` set (file_lines ((property_line ''key.alias'' ''android''
        @ property_line ''key.store.password'' ''android'') @ property_line ''key.alias.password'' ''android''))"
    by (simp add: line_eval)
  have "lookup (fs w') (resolve (cwd w') f) = Some (File (((property_line ''key.alias'' ''android''
        @ property_line ''key.store.password'' ''android'') @ property_line ''key.alias.password'' ''android'')
        @ property_line ''key.store'' dk) None)"
    and "cwd w' = cwd w3"
    using set_property_append_known [OF l3 k4 s4] by (simp_all add: cr)
  then show ?thesis using c1 c2 c3 by (simp add: seeded_lines_def)
qed

section \<open>The concrete world, step by step\<close>

lemma rapt_world_sel:
  "cwd (rapt_world proj ks T) = []" "trace (rapt_world proj ks T) = T"
  "environ (rapt_world proj ks T) = []"
  by (simp_all add: rapt_world_def)

lemma rapt_world_trace: "rapt_world proj ks T\<lparr> trace := T' \<rparr> = rapt_world proj ks T'"
  by (simp add: rapt_world_def)

lemma lookup_lp:
  "lookup (fs (rapt_world proj ks T)) [''rapt'', ''project'', ''local.properties'']
     = map_of proj ''local.properties''"
  "lookup (fs (rapt_world proj ks T)) [''rapt'', ''project'', ''bundle.properties'']
     = map_of proj ''bundle.properties''"
  by (simp_all add: rapt_world_def split: option.splits)

lemma put_lp:
  "put [''rapt'', ''project'', x] n (fs (rapt_world proj ks T))
     = Some (fs (rapt_world (AList.update x n proj) ks T))"
  by (simp add: rapt_world_def)

lemma write_project_file:
  assumes "resolve [] f = [''rapt'', ''project'', x]"
    and "\<forall>es. map_of proj x \<noteq> Some (Dir es)"
    and "lookup (fs (rapt_world proj ks T)) [''rapt'', ''project'', x] = map_of proj x"
  shows "open_write f text (rapt_world proj ks T)
          = (Inr (), rapt_world (AList.update x (File text None) proj) ks T)"
proof -
  have "(rapt_world proj ks T)\<lparr> fs := fs (rapt_world (AList.update x (File text None) proj) ks T) \<rparr>
      = rapt_world (AList.update x (File text None) proj) ks T"
    by (simp add: rapt_world_def)
  then show ?thesis using assms
    by (auto simp: open_write_def rapt_world_sel put_lp split: option.splits node.splits)
qed

lemma read_project_file:
  assumes "resolve [] f = [''rapt'', ''project'', x]"
    and "lookup (fs (rapt_world proj ks T)) [''rapt'', ''project'', x] = Some (File c None)"
  shows "open_read (rapt_world proj ks T) f = Inr (file_lines c, False)"
    and "lines_read (rapt_world proj ks T) f = file_lines c"
  using assms by (simp_all add: open_read_def lines_read_def rapt_world_sel)

lemma read_project_missing:
  assumes "resolve [] f = [''rapt'', ''project'', x]"
    and "lookup (fs (rapt_world proj ks T)) [''rapt'', ''project'', x] = None"
  shows "lines_read (rapt_world proj ks T) f = []"
  using assms by (simp_all add: open_read_def lines_read_def rapt_world_sel)

lemma set_lp_create:
  "set_property ''/rapt/project/local.properties'' k v False (rapt_world [] ks T)
     = (Inr (), rapt_world [(''local.properties'', File (property_line k v) None)] ks T)"
proof -
  have r: "resolve [] ''/rapt/project/local.properties'' = [''rapt'', ''project'', ''local.properties'']"
    by (rule demo_resolved)
  have "lines_read (rapt_world [] ks T) ''/rapt/project/local.properties'' = []"
    by (rule read_project_missing [OF r]) (simp add: lookup_lp)
  then show ?thesis
    using write_project_file [OF r, of "[]" ks T]
    by (simp add: set_property_def property_line_def lookup_lp)
qed

lemma set_lp_write:
  assumes "keep_lines k r (file_lines c) = Some ls"
  shows "set_property ''/rapt/project/local.properties'' k v r
            (rapt_world ((''local.properties'', File c None) # rest) ks T)
     = (Inr (), rapt_world ((''local.properties'', File (concat ls @ property_line k v) None) # rest) ks T)"
proof -
  have r: "resolve [] ''/rapt/project/local.properties'' = [''rapt'', ''project'', ''local.properties'']"
    by (rule demo_resolved)
  have "lines_read (rapt_world ((''local.properties'', File c None) # rest) ks T)
          ''/rapt/project/local.properties'' = file_lines c"
    by (rule read_project_file [OF r]) (simp add: lookup_lp)
  then show ?thesis
    using assms write_project_file [OF r, of "(''local.properties'', File c None) # rest" ks T]
    by (simp add: set_property_def property_line_def lookup_lp)
qed

lemma set_lp_noop:
  assumes "keep_lines k r (file_lines c) = None"
  shows "set_property ''/rapt/project/local.properties'' k v r
            (rapt_world ((''local.properties'', File c None) # rest) ks T)
     = (Inr (), rapt_world ((''local.properties'', File c None) # rest) ks T)"
proof -
  have r: "resolve [] ''/rapt/project/local.properties'' = [''rapt'', ''project'', ''local.properties'']"
    by (rule demo_resolved)
  have "lines_read (rapt_world ((''local.properties'', File c None) # rest) ks T)
          ''/rapt/project/local.properties'' = file_lines c"
    by (rule read_project_file [OF r]) (simp add: lookup_lp)
  then show ?thesis using assms by (simp add: set_property_def)
qed

lemma get_lp:
  "get_property ''/rapt/project/local.properties'' k
      (rapt_world ((''local.properties'', File c None) # rest) ks T)
     = Inr (first_value k (file_lines c))"
proof -
  have r: "resolve [] ''/rapt/project/local.properties'' = [''rapt'', ''project'', ''local.properties'']"
    by (rule demo_resolved)
  have "open_read (rapt_world ((''local.properties'', File c None) # rest) ks T)
          ''/rapt/project/local.properties'' = Inr (file_lines c, False)"
    by (rule read_project_file [OF r]) (simp add: lookup_lp)
  then show ?thesis by (simp add: get_property_def split: option.splits)
qed

lemmas key_eval = line_eval line_value_def seeded_lines_def

lemma seed_lp_fresh:
  "seed_defaults ''/rapt/project/local.properties'' dk (rapt_world [] ks T)
     = (Inr (), rapt_world [(''local.properties'', File (seeded_lines dk) None)] ks T)"
proof -
  have k2: "keep_lines ''key.store.password'' False (file_lines (property_line ''key.alias'' ''android''))
      = Some [property_line ''key.alias'' ''android'']"
    by (simp add: line_eval)
  have k3: "keep_lines ''key.alias.password'' False
      (file_lines (property_line ''key.alias'' ''android'' @ property_line ''key.store.password'' ''android''))
      = Some [property_line ''key.alias'' ''android'', property_line ''key.store.password'' ''android'']"
    by (simp add: line_eval)
  have k4: "keep_lines ''key.store'' False
      (file_lines (property_line ''key.alias'' ''android'' @ property_line ''key.store.password'' ''android''
         @ property_line ''key.alias.password'' ''android''))
      = Some [property_line ''key.alias'' ''android'', property_line ''key.store.password'' ''android'',
              property_line ''key.alias.password'' ''android'']"
    by (simp add: line_eval)
  show ?thesis
    by (simp add: seed_defaults_def seq_def bind_def set_lp_create set_lp_write [OF k2]
        set_lp_write [OF k3] set_lp_write [OF k4] seeded_lines_def)
qed

lemma demo_dk:
  "replace_backslash (path demo_plat ''android.keystore'') = ''/rapt/android.keystore''"
  "replace_backslash (path demo_plat ''bundle.keystore'') = ''/rapt/bundle.keystore''"
  "replace_backslash (sdk demo_plat) = ''/rapt/Sdk''"
  "replace_backslash ''/rapt/android.keystore'' = ''/rapt/android.keystore''"
  "replace_backslash ''/rapt/bundle.keystore'' = ''/rapt/bundle.keystore''"
  by (simp_all add: replace_backslash_def demo_plat_def path_join_def)

lemma stored_lp_fresh:
  "get_property ''/rapt/project/local.properties'' ''key.store''
     (rapt_world ((''local.properties'', File (seeded_lines ''/rapt/android.keystore'') None) # rest) ks T)
     = Inr (Some ''/rapt/android.keystore'')"
  by (simp add: get_lp key_eval)

lemma no_keystore:
  "\<not> os_path_exists (rapt_world proj [] T) ''/rapt/android.keystore''"
  "\<not> os_path_exists (rapt_world proj [] T) ''/rapt/bundle.keystore''"
  by (simp_all add: os_path_exists_def rapt_world_def demo_resolved)

section \<open>Running the workflow twice\<close>

lemma permits_any: "permits any_event"
  by (simp add: permits_def any_event_def)

lemma keytool_call_length: "is_keytool_call P args \<Longrightarrow> length args = 18"
proof -
  assume "is_keytool_call P args"
  then have "length args = length (keytool_args P (args ! 3) (args ! 15))"
    unfolding is_keytool_call_def by (rule arg_cong)
  then show ?thesis by (simp add: keytool_args_def)
qed

lemma permits_quiet: "permits (quiet_event P)"
  by (auto simp: permits_def quiet_event_def dest: keytool_call_length split: event.splits)

lemma permits_report:
  assumes "permits A"
  shows "A (Info m)" "A (Success m)" "A (Final_success m)" "A (Fail m)" "A (Yesno m b)"
    "A (Input m s)" "A (Terms u m)"
proof -
  have p: "\<And>ev. (case ev of Download url dest \<Rightarrow> True | Call args kw \<Rightarrow> 4 < length args | _ \<Rightarrow> False) \<or> A ev"
    using assms by (simp add: permits_def)
  show "A (Info m)" using p [of "Info m"] by simp
  show "A (Success m)" using p [of "Success m"] by simp
  show "A (Final_success m)" using p [of "Final_success m"] by simp
  show "A (Fail m)" using p [of "Fail m"] by simp
  show "A (Yesno m b)" using p [of "Yesno m b"] by simp
  show "A (Input m s)" using p [of "Input m s"] by simp
  show "A (Terms u m)" using p [of "Terms u m"] by simp
qed

lemma permits_short_call: "permits A \<Longrightarrow> length args \<le> 4 \<Longrightarrow> A (Call args kw)"
proof -
  assume a: "permits A" and l: "length args \<le> 4"
  have "(case Call args kw of Download url dest \<Rightarrow> True | Call args kw \<Rightarrow> 4 < length args | _ \<Rightarrow> False) \<or> A (Call args kw)"
    using a unfolding permits_def by blast
  then show ?thesis using l by simp
qed

lemma steady_refl: "steady A Q w w"
  by (simp add: steady_def)

lemma steady_trans:
  assumes "steady A Q w w1" and "steady A Q w1 w2"
  shows "steady A Q w w2"
proof -
  obtain e1 where e1: "trace w1 = trace w @ e1" "\<forall>ev\<in>set e1. A ev"
    using assms(1) by (auto simp: steady_def)
  obtain e2 where e2: "trace w2 = trace w1 @ e2" "\<forall>ev\<in>set e2. A ev"
    using assms(2) by (auto simp: steady_def)
  have "trace w2 = trace w @ (e1 @ e2) \<and> (\<forall>ev\<in>set (e1 @ e2). A ev)"
    using e1 e2 by auto
  then have "\<exists>evs. trace w2 = trace w @ evs \<and> (\<forall>ev\<in>set evs. A ev)" by blast
  then show ?thesis using assms by (simp add: steady_def)
qed

lemma steady_trace_only:
  assumes "A ev"
  shows "steady A Q w (w\<lparr> trace := trace w @ [ev] \<rparr>)"
proof -
  have "trace (w\<lparr> trace := trace w @ [ev] \<rparr>) = trace w @ [ev] \<and> (\<forall>e\<in>set [ev]. A e)"
    using assms by simp
  then have "\<exists>evs. trace (w\<lparr> trace := trace w @ [ev] \<rparr>) = trace w @ evs \<and> (\<forall>e\<in>set evs. A e)"
    by blast
  then show ?thesis by (simp add: steady_def)
qed

lemma steadily_return: "steadily A Q (return x)"
  by (simp add: steadily_def return_def steady_refl)

lemma steadily_raise: "steadily A Q (raise e)"
  by (simp add: steadily_def raise_def steady_refl)

lemma steadily_emit: "A ev \<Longrightarrow> steadily A Q (emit ev)"
  by (auto simp: steadily_def emit_def steady_trace_only)

lemma steadily_bind:
  assumes m: "steadily A Q m" and f: "\<And>x. steadily A Q (f x)"
  shows "steadily A Q (bind m f)"
  unfolding steadily_def
proof (intro allI impI)
  fix w r w'
  assume b: "bind m f w = (r, w')"
  obtain r1 w1 where mw: "m w = (r1, w1)" by (cases "m w")
  have s1: "steady A Q w w1" using m mw by (simp add: steadily_def)
  show "steady A Q w w'"
  proof (cases r1)
    case (Inl e)
    then have "w' = w1" using b mw by (simp add: bind_def)
    then show ?thesis using s1 by simp
  next
    case (Inr x)
    then have "f x w1 = (r, w')" using b mw by (simp add: bind_def)
    then have "steady A Q w1 w'" using f by (simp add: steadily_def)
    then show ?thesis using s1 steady_trans by blast
  qed
qed

lemma steadily_seq: "steadily A Q m \<Longrightarrow> steadily A Q k \<Longrightarrow> steadily A Q (seq m k)"
  by (simp add: seq_def steadily_bind)

lemma steadily_if: "steadily A Q m \<Longrightarrow> steadily A Q k \<Longrightarrow> steadily A Q (if b then m else k)"
  by simp

lemma steadily_reports:
  assumes "permits A"
  shows "steadily A Q (interface_info m)" "steadily A Q (interface_success m)"
    "steadily A Q (interface_final_success m)" "steadily A Q (interface_fail m)"
  using assms
  by (simp_all add: interface_info_def interface_success_def interface_final_success_def
      interface_fail_def steadily_emit steadily_seq steadily_raise permits_report)

lemma steadily_yesno: "permits A \<Longrightarrow> steadily A Q (interface_yesno E m)"
  by (auto simp: steadily_def interface_yesno_def steady_trace_only permits_report)

lemma steadily_input: "permits A \<Longrightarrow> steadily A Q (interface_input E m)"
  by (auto simp: steadily_def interface_input_def steady_trace_only permits_report)

lemma steadily_terms: "permits A \<Longrightarrow> steadily A Q (interface_terms E u m)"
  by (auto simp: steadily_def interface_terms_def steady_trace_only permits_report)

lemma steady_call:
  assumes "A (Call args kw)" and "\<forall>q\<in>set Q. keeps E A q"
  shows "steady A Q w (snd (interface_call E args kw w))"
proof -
  let ?w' = "snd (interface_call E args kw w)"
  have t: "trace ?w' = trace w @ [Call args kw]" by (simp add: interface_call_def)
  have "trace ?w' = trace w @ [Call args kw] \<and> (\<forall>e\<in>set [Call args kw]. A e)"
    using t assms(1) by simp
  then have "\<exists>evs. trace ?w' = trace w @ evs \<and> (\<forall>e\<in>set evs. A e)" by blast
  moreover have "\<forall>q\<in>set Q. lookup (fs ?w') q = lookup (fs w) q"
    using assms by (simp add: interface_call_def keeps_def)
  ultimately show ?thesis by (simp add: steady_def interface_call_def)
qed

lemma steadily_run:
  assumes "A (Call args kw)" and "\<forall>q\<in>set Q. keeps E A q"
  shows "steadily A Q (run E args kw)"
  unfolding steadily_def
proof (intro allI impI)
  fix w r w'
  assume "run E args kw w = (r, w')"
  then have "w' = snd (interface_call E args kw w)"
    by (auto simp: run_def split: prod.splits call_result.splits)
  then show "steady A Q w w'" using steady_call [OF assms] by simp
qed

lemma steadily_run_slow:
  assumes "A (Call args (kw\<lparr> cancel := True \<rparr>))" and "\<forall>q\<in>set Q. keeps E A q"
  shows "steadily A Q (run_slow E args kw)"
  unfolding steadily_def
proof (intro allI impI)
  fix w r w'
  assume "run_slow E args kw w = (r, w')"
  then have "w' = snd (interface_call E args (kw\<lparr> cancel := True \<rparr>) w)"
    by (auto simp: run_slow_def split: prod.splits call_result.splits)
  then show "steady A Q w w'" using steady_call [OF assms] by simp
qed

lemma steadily_check_java:
  assumes "permits A" and "\<forall>q\<in>set Q. keeps E A q"
  shows "steadily A Q (check_java E P)"
proof -
  have c1: "steadily A Q (run_slow E [javac P, path P ''buildlib/CheckJDK8.java'']
      (no_kwargs\<lparr> use_path := True \<rparr>))"
    by (rule steadily_run_slow [OF permits_short_call [OF assms(1)] assms(2)]) simp
  have c2: "steadily A Q (run_slow E [java P, ''-classpath'', path P ''buildlib'', ''CheckJDK8'']
      (no_kwargs\<lparr> use_path := True \<rparr>))"
    by (rule steadily_run_slow [OF permits_short_call [OF assms(1)] assms(2)]) simp
  show ?thesis
    unfolding check_java_def
    by (intro steadily_seq steadily_bind steadily_if steadily_reports steadily_return c1 c2 assms(1))
qed

lemma steadily_copy_project:
  assumes "\<forall>q\<in>set Q. keeps E A q"
  shows "steadily A Q (rapt_build_copy_project E b)"
  unfolding steadily_def
proof (intro allI impI)
  fix w r w'
  assume a: "rapt_build_copy_project E b w = (r, w')"
  show "steady A Q w w'"
  proof (cases "copy_project E b w")
    case (Inl e)
    then have "w' = w" using a by (simp add: rapt_build_copy_project_def)
    then show ?thesis by (simp add: steady_refl)
  next
    case (Inr t)
    then have w': "w' = w\<lparr> fs := t \<rparr>" using a by (simp add: rapt_build_copy_project_def)
    have "\<forall>q\<in>set Q. lookup t q = lookup (fs w) q" using assms Inr by (simp add: keeps_def)
    then show ?thesis using w' by (simp add: steady_def)
  qed
qed

lemma steadily_packages_body:
  assumes "permits A" and "\<forall>q\<in>set Q. keeps E A q" and "length packages \<le> 2"
  shows "steadily A Q
     (seq (if packages \<noteq> [] then
             seq (interface_info About_to_install_packages)
            (bind (run_slow E [sdkmanager P, ''--update''] (no_kwargs\<lparr> yes := True \<rparr>)) (\<lambda>ok1.
             seq (if \<not> ok1 then interface_fail Unable_to_accept_licenses else return ())
            (bind (run_slow E [sdkmanager P, ''--licenses''] (no_kwargs\<lparr> yes := True \<rparr>)) (\<lambda>ok2.
             seq (if \<not> ok2 then interface_fail Unable_to_accept_licenses else return ())
            (bind (run_slow E (sdkmanager P # packages) (no_kwargs\<lparr> yes := True \<rparr>)) (\<lambda>ok3.
                  if \<not> ok3 then interface_fail Unable_to_install_packages else return ()))))))
           else return ())
          (interface_success Finished_installing_packages))"
proof -
  have c1: "steadily A Q (run_slow E [sdkmanager P, ''--update''] (no_kwargs\<lparr> yes := True \<rparr>))"
    by (rule steadily_run_slow [OF permits_short_call [OF assms(1)] assms(2)]) simp
  have c2: "steadily A Q (run_slow E [sdkmanager P, ''--licenses''] (no_kwargs\<lparr> yes := True \<rparr>))"
    by (rule steadily_run_slow [OF permits_short_call [OF assms(1)] assms(2)]) simp
  have c3: "steadily A Q (run_slow E (sdkmanager P # packages) (no_kwargs\<lparr> yes := True \<rparr>))"
    by (rule steadily_run_slow [OF permits_short_call [OF assms(1)] assms(2)]) (use assms(3) in simp)
  show ?thesis
    by (intro steadily_seq steadily_bind steadily_if steadily_reports steadily_return c1 c2 c3 assms(1))
qed

lemma steadily_get_packages:
  assumes "permits A" and "\<forall>q\<in>set Q. keeps E A q"
  shows "steadily A Q (get_packages E P)"
  unfolding steadily_def
proof (intro allI impI)
  fix w r w'
  assume a: "get_packages E P w = (r, w')"
  let ?pk = "map fst (filter (\<lambda>(i, j). \<not> os_path_exists w (path_join (sdk P) j)) wanted_packages)"
  have "length ?pk \<le> length wanted_packages" by simp
  then have l: "length ?pk \<le> 2" by (simp add: wanted_packages_def)
  show "steady A Q w w'"
    using steadily_packages_body [OF assms l, of P] a
    unfolding steadily_def get_packages_def Let_def by blast
qed

lemma steady_unpack_present:
  assumes "permits A" and "os_path_exists w (sdkmanager P)" and "unpack_sdk E P w = (r, w')"
  shows "steady A Q w w'"
proof -
  have "w' = w\<lparr> trace := trace w @ [Success SDK_already_unpacked] \<rparr>"
    using assms(2,3) by (simp add: unpack_sdk_def interface_success_def emit_def)
  then show ?thesis using steady_trace_only [of A "Success SDK_already_unpacked"] assms(1)
    by (simp add: permits_report)
qed

lemma steadily_create_android_key:
  assumes "permits A" and "\<forall>q\<in>set Q. keeps E A q"
    and "\<And>dn kw. A (Call (keytool_args P ''android.keystore'' dn) kw)"
  shows "steadily A Q (create_android_key E P)"
  unfolding create_android_key_def
  by (intro steadily_seq steadily_bind steadily_if steadily_reports steadily_return
      steadily_yesno steadily_input steadily_run assms)

lemma steadily_create_bundle_key:
  assumes "permits A" and "\<forall>q\<in>set Q. keeps E A q"
    and "\<And>dn kw. A (Call (keytool_args P ''bundle.keystore'' dn) kw)"
  shows "steadily A Q (create_bundle_key E P)"
  unfolding create_bundle_key_def
  by (intro steadily_seq steadily_bind steadily_if steadily_reports steadily_return
      steadily_run assms)

lemma apart_below: "apart q s \<Longrightarrow> apart q (s @ x)"
proof -
  assume a: "apart q s"
  have "\<not> prefix (s @ x) q" using a by (meson apart_def append_prefixD)
  moreover have "\<not> prefix q (s @ x)"
    using a by (metis apart_def prefix_append prefixI)
  ultimately show ?thesis by (simp add: apart_def)
qed

lemma world_fs_update: "w' = w\<lparr> fs := t \<rparr> \<Longrightarrow> cwd w' = cwd w \<and> trace w' = trace w \<and> environ w' = environ w"
  by simp

lemma rename_paths_frame:
  assumes "rename_paths src dst w = (Inr (), w')" and "src \<noteq> dst"
  shows "cwd w' = cwd w \<and> trace w' = trace w \<and> environ w' = environ w"
    and "apart q src \<Longrightarrow> apart q dst \<Longrightarrow> lookup (fs w') q = lookup (fs w) q"
proof -
  obtain n t where n: "lookup (fs w) src = Some n" and t: "remove src (fs w) = Some t"
    and p: "put dst n t = Some (fs w')" and w': "w' = w\<lparr> fs := fs w' \<rparr>"
    using rename_paths_Inr [OF assms] by blast
  show "cwd w' = cwd w \<and> trace w' = trace w \<and> environ w' = environ w"
    using world_fs_update [OF w'] .
  show "apart q src \<Longrightarrow> apart q dst \<Longrightarrow> lookup (fs w') q = lookup (fs w) q"
    using moved_lookup [OF n t p] by (simp add: apart_def)
qed

lemma os_mkdir_frame:
  assumes "os_mkdir s w = (Inr (), w')"
  shows "cwd w' = cwd w \<and> trace w' = trace w \<and> environ w' = environ w"
    and "apart q (resolve (cwd w) s) \<Longrightarrow> lookup (fs w') q = lookup (fs w) q"
proof -
  have p: "put (resolve (cwd w) s) (Dir []) (fs w) = Some (fs w')" and w': "w' = w\<lparr> fs := fs w' \<rparr>"
    using os_mkdir_Inr [OF assms] by simp_all
  show "cwd w' = cwd w \<and> trace w' = trace w \<and> environ w' = environ w"
    using world_fs_update [OF w'] .
  show "apart q (resolve (cwd w) s) \<Longrightarrow> lookup (fs w') q = lookup (fs w) q"
    using lookup_put_other [OF p] by (simp add: apart_def)
qed

lemma reorganize_frame:
  assumes "reorganize w = (Inr (), w')"
  shows "cwd w' = cwd w \<and> trace w' = trace w \<and> environ w' = environ w"
    and "apart q (cwd w @ [''Sdk'']) \<Longrightarrow> lookup (fs w') q = lookup (fs w) q"
proof -
  let ?a = "cwd w @ [''Sdk'', ''cmdline-tools'']"
  let ?b = "cwd w @ [''Sdk'', ''latest'']"
  let ?d = "cwd w @ [''Sdk'', ''cmdline-tools'', ''latest'']"
  from assms obtain w1 where s1: "os_rename ''Sdk/cmdline-tools'' ''Sdk/latest'' w = (Inr (), w1)"
    and r1: "seq (os_mkdir ''Sdk/cmdline-tools'')
         (os_rename ''Sdk/latest'' ''Sdk/cmdline-tools/latest'') w1 = (Inr (), w')"
    unfolding reorganize_def by (blast dest: seq_Inr)
  from r1 obtain w2 where s2: "os_mkdir ''Sdk/cmdline-tools'' w1 = (Inr (), w2)"
    and s3: "os_rename ''Sdk/latest'' ''Sdk/cmdline-tools/latest'' w2 = (Inr (), w')"
    by (blast dest: seq_Inr)
  have n1: "?a \<noteq> ?b" and n3: "?b \<noteq> ?d" by simp_all
  have r1': "rename_paths ?a ?b w = (Inr (), w1)"
    using s1 by (simp add: os_rename_def resolve_names)
  have f1: "cwd w1 = cwd w \<and> trace w1 = trace w \<and> environ w1 = environ w"
    using rename_paths_frame(1) [OF r1' n1] .
  have f2: "cwd w2 = cwd w1 \<and> trace w2 = trace w1 \<and> environ w2 = environ w1"
    using os_mkdir_frame(1) [OF s2] .
  have r3': "rename_paths ?b ?d w2 = (Inr (), w')"
    using s3 f1 f2 by (simp add: os_rename_def resolve_names)
  have f3: "cwd w' = cwd w2 \<and> trace w' = trace w2 \<and> environ w' = environ w2"
    using rename_paths_frame(1) [OF r3' n3] .
  show "cwd w' = cwd w \<and> trace w' = trace w \<and> environ w' = environ w"
    using f1 f2 f3 by simp
  assume q: "apart q (cwd w @ [''Sdk''])"
  have qa: "apart q ?a" and qb: "apart q ?b" and qd: "apart q ?d"
    using apart_below [OF q, of "[''cmdline-tools'']"] apart_below [OF q, of "[''latest'']"]
      apart_below [OF q, of "[''cmdline-tools'', ''latest'']"] by simp_all
  have "lookup (fs w1) q = lookup (fs w) q"
    using rename_paths_frame(2) [OF r1' n1 qa qb] .
  moreover have "lookup (fs w2) q = lookup (fs w1) q"
    using os_mkdir_frame(2) [OF s2, of q] qa f1 by (simp add: resolve_names)
  moreover have "lookup (fs w') q = lookup (fs w2) q"
    using rename_paths_frame(2) [OF r3' n3 qb qd] .
  ultimately show "lookup (fs w') q = lookup (fs w) q" by simp
qed

lemma extract_frame:
  assumes "unpack_sdk_extract E P archive w = (Inr (), w')"
  shows "cwd w' = cwd w \<and> trace w' = trace w \<and> environ w' = environ w"
    and "unpack_keeps E q \<Longrightarrow> apart q (resolve (cwd w) (path P ''.'') @ [''Sdk''])
           \<Longrightarrow> lookup (fs w') q = lookup (fs w) q"
proof -
  let ?B = "resolve (cwd w) (path P ''.'')"
  from assms obtain w0 where z: "FixedZipFile E (path P archive) w = (Inr (), w0)"
    and r0: "seq (os_chdir (path P ''.'')) (seq (zf_extractall E (path P archive) ''Sdk'')
               (seq reorganize (chdir_to (cwd w)))) w0 = (Inr (), w')"
    unfolding unpack_sdk_extract_def by (blast dest: seq_Inr)
  from r0 obtain wa where a: "os_chdir (path P ''.'') w0 = (Inr (), wa)"
    and r1: "seq (zf_extractall E (path P archive) ''Sdk'')
               (seq reorganize (chdir_to (cwd w))) wa = (Inr (), w')"
    by (blast dest: seq_Inr)
  from r1 obtain wb where b: "zf_extractall E (path P archive) ''Sdk'' wa = (Inr (), wb)"
    and r2: "seq reorganize (chdir_to (cwd w)) wb = (Inr (), w')"
    by (blast dest: seq_Inr)
  from r2 obtain wc where c: "reorganize wb = (Inr (), wc)"
    and d: "chdir_to (cwd w) wc = (Inr (), w')"
    by (blast dest: seq_Inr)
  have w0: "w0 = w" using z by (rule FixedZipFile_Inr)
  have wa: "wa = w\<lparr> cwd := ?B \<rparr>" using a w0 chdir_to_Inr by (simp add: os_chdir_def)
  obtain t where t: "extractall E (path P archive) ''Sdk'' wa = Inr t" and wb: "wb = wa\<lparr> fs := t \<rparr>"
    using zf_extractall_Inr [OF b] by blast
  have cb: "cwd wb = ?B" using wa wb by simp
  have fc: "cwd wc = cwd wb \<and> trace wc = trace wb \<and> environ wc = environ wb"
    using reorganize_frame(1) [OF c] .
  have w': "w' = wc\<lparr> cwd := cwd w \<rparr>" using chdir_to_Inr [OF d] .
  show "cwd w' = cwd w \<and> trace w' = trace w \<and> environ w' = environ w"
    using w' fc wa wb by simp
  assume k: "unpack_keeps E q" and q: "apart q (?B @ [''Sdk''])"
  have "lookup t q = lookup (fs wa) q" using k t by (simp add: unpack_keeps_def)
  then have "lookup (fs wb) q = lookup (fs w) q" using wa wb by simp
  moreover have "lookup (fs wc) q = lookup (fs wb) q"
    using reorganize_frame(2) [OF c, of q] q cb by simp
  ultimately show "lookup (fs w') q = lookup (fs w) q" using w' by simp
qed

lemma steady_of_frame:
  assumes "cwd w' = cwd w \<and> trace w' = trace w \<and> environ w' = environ w"
    and "\<forall>q\<in>set Q. lookup (fs w') q = lookup (fs w) q"
  shows "steady A Q w w'"
proof -
  have "trace w' = trace w @ [] \<and> (\<forall>ev\<in>set []. A ev)" using assms(1) by simp
  then have "\<exists>evs. trace w' = trace w @ evs \<and> (\<forall>ev\<in>set evs. A ev)" by blast
  then show ?thesis using assms by (simp add: steady_def)
qed

lemma steady_cwd: "steady A Q w w' \<Longrightarrow> cwd w' = cwd w"
  by (simp add: steady_def)

lemma steady_download:
  assumes "interface_download E url dest w = (Inr (), w')" and "\<forall>q\<in>set Q. unpack_keeps E q"
  shows "steady any_event Q w w'"
proof -
  obtain t where t: "download E url dest w = Inr t"
    and w': "w' = w\<lparr> fs := t, trace := trace w @ [Download url dest] \<rparr>"
    using assms(1) by (auto simp: interface_download_def split: sum.splits)
  have "\<forall>q\<in>set Q. lookup t q = lookup (fs w) q" using assms(2) t by (simp add: unpack_keeps_def)
  moreover have "trace w' = trace w @ [Download url dest] \<and> (\<forall>ev\<in>set [Download url dest]. any_event ev)"
    using w' by (simp add: any_event_def)
  then have "\<exists>evs. trace w' = trace w @ evs \<and> (\<forall>ev\<in>set evs. any_event ev)" by blast
  ultimately show ?thesis using w' by (simp add: steady_def)
qed

lemma steadyI: "steadily A Q m \<Longrightarrow> m w = (r, w') \<Longrightarrow> steady A Q w w'"
  by (simp add: steadily_def)

lemma steady_unpack_sdk:
  assumes run: "unpack_sdk E P w = (Inr (), w')"
    and keep: "\<forall>q\<in>set Q. unpack_keeps E q"
    and away: "\<forall>q\<in>set Q. apart q (resolve (cwd w) (path P ''.'') @ [''Sdk''])"
  shows "steady any_event Q w w'"
proof (cases "os_path_exists w (sdkmanager P)")
  case True
  then show ?thesis using steady_unpack_present [OF permits_any True run] by simp
next
  case False
  let ?T = "if ''RAPT_NO_TERMS'' \<notin> set (environ w)
             then interface_terms E ''https://developer.android.com/studio/terms'' Accept_terms
             else return ()"
  let ?rest = "case archive_name P of
          None \<Rightarrow> raise UnboundLocalError
        | Some archive \<Rightarrow>
            seq (interface_info Downloading_SDK)
           (seq (interface_download E (''https://dl.google.com/android/repository/'' @ archive)
                   (path P archive))
           (seq (interface_info Extracting_SDK)
           (seq (interface_background (unpack_sdk_extract E P archive))
                (interface_success Finished_unpacking))))"
  have "seq ?T ?rest w = (Inr (), w')" using run False by (simp add: unpack_sdk_def)
  then obtain wa where ta: "?T w = (Inr (), wa)" and ra: "?rest wa = (Inr (), w')"
    by (blast dest: seq_Inr)
  have sT: "steadily any_event Q ?T"
    by (intro steadily_if steadily_terms steadily_return permits_any)
  have s0: "steady any_event Q w wa" using steadyI [OF sT ta] .
  obtain archive where ar: "archive_name P = Some archive"
    using ra by (cases "archive_name P") (auto simp: raise_def)
  from ra ar obtain wb where ib: "interface_info Downloading_SDK wa = (Inr (), wb)"
    and rb: "seq (interface_download E (''https://dl.google.com/android/repository/'' @ archive)
                   (path P archive))
           (seq (interface_info Extracting_SDK)
           (seq (interface_background (unpack_sdk_extract E P archive))
                (interface_success Finished_unpacking))) wb = (Inr (), w')"
    by (auto dest: seq_Inr)
  from rb obtain wc where dc: "interface_download E (''https://dl.google.com/android/repository/'' @ archive)
                   (path P archive) wb = (Inr (), wc)"
    and rc: "seq (interface_info Extracting_SDK)
           (seq (interface_background (unpack_sdk_extract E P archive))
                (interface_success Finished_unpacking)) wc = (Inr (), w')"
    by (blast dest: seq_Inr)
  from rc obtain wd where id: "interface_info Extracting_SDK wc = (Inr (), wd)"
    and rd: "seq (interface_background (unpack_sdk_extract E P archive))
                (interface_success Finished_unpacking) wd = (Inr (), w')"
    by (blast dest: seq_Inr)
  from rd obtain we where xe: "unpack_sdk_extract E P archive wd = (Inr (), we)"
    and se: "interface_success Finished_unpacking we = (Inr (), w')"
    unfolding interface_background_def by (blast dest: seq_Inr)
  have s1: "steady any_event Q wa wb"
    using steadyI [OF steadily_reports(1) [OF permits_any] ib] .
  have s2: "steady any_event Q wb wc" using steady_download [OF dc keep] .
  have s3: "steady any_event Q wc wd"
    using steadyI [OF steadily_reports(1) [OF permits_any] id] .
  have cd: "cwd wd = cwd w"
    using s0 s1 s2 s3 by (simp add: steady_def)
  have s4: "steady any_event Q wd we"
  proof (rule steady_of_frame)
    show "cwd we = cwd wd \<and> trace we = trace wd \<and> environ we = environ wd"
      using extract_frame(1) [OF xe] .
    show "\<forall>q\<in>set Q. lookup (fs we) q = lookup (fs wd) q"
      using extract_frame(2) [OF xe] keep away cd by simp
  qed
  have s5: "steady any_event Q we w'"
    using steadyI [OF steadily_reports(2) [OF permits_any] se] .
  show ?thesis using s0 s1 s2 s3 s4 s5 steady_trans by blast
qed

lemma seq_cases:
  assumes "seq m k w = (r, w')"
  shows "(\<exists>e. m w = (Inl e, w') \<and> r = Inl e) \<or> (\<exists>w1. m w = (Inr (), w1) \<and> k w1 = (r, w'))"
  using assms by (auto simp: seq_def bind_def split: prod.splits sum.splits)

lemma lines_read_cong:
  assumes "cwd w' = cwd w"
    and "lookup (fs w') (resolve (cwd w) f) = lookup (fs w) (resolve (cwd w) f)"
  shows "lines_read w' f = lines_read w f"
    and "(open_read w' f = Inr x) = (open_read w f = Inr x)"
    and "(get_property f k w' = Inr y) = (get_property f k w = Inr y)"
proof -
  have "open_read w' f = open_read w f \<or> (\<exists>e e'. open_read w' f = Inl e' \<and> open_read w f = Inl e)"
    using assms by (auto simp: open_read_def split: option.splits)
  then show "lines_read w' f = lines_read w f"
    and "(open_read w' f = Inr x) = (open_read w f = Inr x)"
    and "(get_property f k w' = Inr y) = (get_property f k w = Inr y)"
    by (auto simp: lines_read_def get_property_def)
qed

lemma steady_lines:
  assumes "steady A Q w w'" and "resolve (cwd w) f \<in> set Q"
  shows "lines_read w' f = lines_read w f"
    and "(get_property f k w' = Inr y) = (get_property f k w = Inr y)"
    and "complete_lines w' f = complete_lines w f" and "has_defaults w' f = has_defaults w f"
proof -
  have c: "cwd w' = cwd w" and l: "lookup (fs w') (resolve (cwd w) f) = lookup (fs w) (resolve (cwd w) f)"
    using assms by (simp_all add: steady_def)
  show lr: "lines_read w' f = lines_read w f" using lines_read_cong(1) [OF c l] .
  show "(get_property f k w' = Inr y) = (get_property f k w = Inr y)"
    using lines_read_cong(3) [OF c l] .
  show "complete_lines w' f = complete_lines w f" using lr by (simp add: complete_lines_def)
  show "has_defaults w' f = has_defaults w f" using lr by (simp add: has_defaults_def)
qed

lemma steady_exists:
  assumes "steady A Q w w'" and "resolve (cwd w) s \<in> set Q"
  shows "os_path_exists w' s = os_path_exists w s"
  using assms by (simp add: steady_def os_path_exists_def)

lemma only_writes_lines:
  assumes "only_writes p w w'" and "apart p (resolve (cwd w) f)"
  shows "lines_read w' f = lines_read w f"
    and "(get_property f k w' = Inr y) = (get_property f k w = Inr y)"
    and "complete_lines w' f = complete_lines w f" and "has_defaults w' f = has_defaults w f"
proof -
  have c: "cwd w' = cwd w" and l: "lookup (fs w') (resolve (cwd w) f) = lookup (fs w) (resolve (cwd w) f)"
    using assms by (simp_all add: only_writes_def)
  show lr: "lines_read w' f = lines_read w f" using lines_read_cong(1) [OF c l] .
  show "(get_property f k w' = Inr y) = (get_property f k w = Inr y)"
    using lines_read_cong(3) [OF c l] .
  show "complete_lines w' f = complete_lines w f" using lr by (simp add: complete_lines_def)
  show "has_defaults w' f = has_defaults w f" using lr by (simp add: has_defaults_def)
qed

lemma set_property_adds:
  assumes s: "set_property f k v False w = (Inr (), w')"
    and c: "complete_lines w f"
    and k: "strip k = k" "CHR ''='' \<notin> set k" "unbroken k" and v: "unbroken v"
  shows "complete_lines w' f"
    and "line_key ` set (lines_read w' f) = insert k (line_key ` set (lines_read w f))"
proof -
  let ?ls = "lines_read w f"
  have both: "complete_lines w' f
      \<and> line_key ` set (lines_read w' f) = insert k (line_key ` set ?ls)"
  proof (cases "k \<in> line_key ` set ?ls")
    case True
    then have "w' = w" using s by (simp add: set_property_def keep_lines_keep)
    then show ?thesis using c True by auto
  next
    case False
    then have ow: "open_write f (concat ?ls @ property_line k v) w = (Inr (), w')"
      using s by (simp add: set_property_def keep_lines_keep property_line_def)
    have pl: "is_line (property_line k v)" "line_key (property_line k v) = k"
      using k v by (simp_all add: is_line_property_line line_key_property_line)
    have "lines_read w' f = ?ls @ [property_line k v]"
      using lines_read_written(2) [OF ow] file_lines_snoc [OF _ pl(1), of ?ls] c
      by (simp add: complete_lines_def)
    then show ?thesis using c pl by (simp add: complete_lines_def)
  qed
  show "complete_lines w' f" using both by simp
  show "line_key ` set (lines_read w' f) = insert k (line_key ` set (lines_read w f))"
    using both by simp
qed

lemma key_literals:
  "strip ''key.alias'' = ''key.alias''" "CHR ''='' \<notin> set ''key.alias''" "unbroken ''key.alias''"
  "strip ''key.store.password'' = ''key.store.password''" "CHR ''='' \<notin> set ''key.store.password''"
  "unbroken ''key.store.password''"
  "strip ''key.alias.password'' = ''key.alias.password''" "CHR ''='' \<notin> set ''key.alias.password''"
  "unbroken ''key.alias.password''"
  "strip ''key.store'' = ''key.store''" "CHR ''='' \<notin> set ''key.store''" "unbroken ''key.store''"
  "strip ''sdk.dir'' = ''sdk.dir''" "CHR ''='' \<notin> set ''sdk.dir''" "unbroken ''sdk.dir''"
  "unbroken ''android''"
  by (simp_all add: strip_def is_space_def unbroken_def newline_def carriage_return_def)

lemma seed_defaults_seeds:
  assumes s: "seed_defaults f dk w = (Inr (), w')" and c: "complete_lines w f"
    and dk: "unbroken dk"
  shows "complete_lines w' f" and "has_defaults w' f"
proof -
  from s obtain w1 where s1: "set_property f ''key.alias'' ''android'' False w = (Inr (), w1)"
    and r1: "seq (set_property f ''key.store.password'' ''android'' False)
      (seq (set_property f ''key.alias.password'' ''android'' False)
           (set_property f ''key.store'' dk False)) w1 = (Inr (), w')"
    unfolding seed_defaults_def by (blast dest: seq_Inr)
  from r1 obtain w2 where s2: "set_property f ''key.store.password'' ''android'' False w1 = (Inr (), w2)"
    and r2: "seq (set_property f ''key.alias.password'' ''android'' False)
           (set_property f ''key.store'' dk False) w2 = (Inr (), w')"
    by (blast dest: seq_Inr)
  from r2 obtain w3 where s3: "set_property f ''key.alias.password'' ''android'' False w2 = (Inr (), w3)"
    and s4: "set_property f ''key.store'' dk False w3 = (Inr (), w')"
    by (blast dest: seq_Inr)
  have a1: "complete_lines w1 f"
    and b1: "line_key ` set (lines_read w1 f) = insert ''key.alias'' (line_key ` set (lines_read w f))"
    using set_property_adds [OF s1 c key_literals(1,2,3) key_literals(16)] by simp_all
  have a2: "complete_lines w2 f"
    and b2: "line_key ` set (lines_read w2 f) = insert ''key.store.password'' (line_key ` set (lines_read w1 f))"
    using set_property_adds [OF s2 a1 key_literals(4,5,6) key_literals(16)] by simp_all
  have a3: "complete_lines w3 f"
    and b3: "line_key ` set (lines_read w3 f) = insert ''key.alias.password'' (line_key ` set (lines_read w2 f))"
    using set_property_adds [OF s3 a2 key_literals(7,8,9) key_literals(16)] by simp_all
  have a4: "complete_lines w' f"
    and b4: "line_key ` set (lines_read w' f) = insert ''key.store'' (line_key ` set (lines_read w3 f))"
    using set_property_adds [OF s4 a3 key_literals(10,11,12) dk] by simp_all
  show "complete_lines w' f" using a4 .
  show "has_defaults w' f" unfolding has_defaults_def default_keys_def b4 b3 b2 b1 by auto
qed

lemma settled_cong:
  assumes "cwd w' = cwd w"
    and "lookup (fs w') (resolve (cwd w) f) = lookup (fs w) (resolve (cwd w) f)"
  shows "settled w' f X = settled w f X"
  using assms by (simp add: settled_def)

lemma default_keys_not_sdk_dir: "''sdk.dir'' \<notin> set default_keys"
  by (simp add: default_keys_def)

lemma key_filtered: "k \<notin> line_key ` set (filter (\<lambda>l. line_key l \<noteq> k) ls)"
  by (induction ls) auto

lemma key_kept: "j \<in> line_key ` set ls \<Longrightarrow> j \<noteq> k \<Longrightarrow> j \<in> line_key ` set (filter (\<lambda>l. line_key l \<noteq> k) ls)"
  by (induction ls) auto

lemma set_sdk_dir_settles:
  assumes s: "set_property f ''sdk.dir'' X True w = (Inr (), w')"
    and c: "complete_lines w f" and h: "has_defaults w f"
  shows "settled w' f X"
proof -
  let ?L = "filter (\<lambda>l. line_key l \<noteq> ''sdk.dir'') (lines_read w f)"
  have ow: "open_write f (concat ?L @ property_line ''sdk.dir'' X) w = (Inr (), w')"
    using s by (simp add: set_property_def keep_lines_replace property_line_def)
  have cw: "cwd w' = cwd w" using open_write_cwd [OF ow] by simp
  have l: "lookup (fs w') (resolve (cwd w') f)
      = Some (File (concat ?L @ property_line ''sdk.dir'' X) None)"
    using open_write_lookup [OF ow] cw by simp
  have a: "\<forall>l\<in>set ?L. is_line l" using c by (simp add: complete_lines_def)
  have b: "''sdk.dir'' \<notin> line_key ` set ?L" by (rule key_filtered)
  have "\<And>k. k \<in> set default_keys \<Longrightarrow> k \<in> line_key ` set ?L"
  proof -
    fix k
    assume k: "k \<in> set default_keys"
    have ne: "k \<noteq> ''sdk.dir''" using k default_keys_not_sdk_dir by blast
    have kin: "k \<in> line_key ` set (lines_read w f)"
      using h k unfolding has_defaults_def by (rule subsetD)
    show "k \<in> line_key ` set ?L" using kin ne by (rule key_kept)
  qed
  then have d: "set default_keys \<subseteq> line_key ` set ?L" by blast
  have "lookup (fs w') (resolve (cwd w') f) = Some (File (concat ?L @ property_line ''sdk.dir'' X) None)
      \<and> (\<forall>l\<in>set ?L. is_line l) \<and> ''sdk.dir'' \<notin> line_key ` set ?L
      \<and> set default_keys \<subseteq> line_key ` set ?L"
    using l a b d by simp
  then show ?thesis unfolding settled_def by (rule exI)
qed

lemma settled_lines:
  assumes "settled w f X" and x: "unbroken X"
  shows "\<exists>L. lines_read w f = L @ [property_line ''sdk.dir'' X]
    \<and> lookup (fs w) (resolve (cwd w) f) = Some (File (concat L @ property_line ''sdk.dir'' X) None)
    \<and> (\<forall>l\<in>set L. is_line l) \<and> ''sdk.dir'' \<notin> line_key ` set L
    \<and> set default_keys \<subseteq> line_key ` set L"
proof -
  from assms(1) obtain L where L1: "lookup (fs w) (resolve (cwd w) f)
        = Some (File (concat L @ property_line ''sdk.dir'' X) None)"
      and L2: "\<forall>l\<in>set L. is_line l" and L3: "''sdk.dir'' \<notin> line_key ` set L"
      and L4: "set default_keys \<subseteq> line_key ` set L"
    unfolding settled_def by (elim exE conjE)
  have pl: "is_line (property_line ''sdk.dir'' X)"
    by (rule is_line_property_line [OF key_literals(15) x])
  have "lines_read w f = file_lines (concat L @ property_line ''sdk.dir'' X)"
    using L1 by (simp add: lines_read_def open_read_def)
  then have "lines_read w f = L @ [property_line ''sdk.dir'' X]"
    using file_lines_snoc [OF L2 pl] by simp
  then have "lines_read w f = L @ [property_line ''sdk.dir'' X]
    \<and> lookup (fs w) (resolve (cwd w) f) = Some (File (concat L @ property_line ''sdk.dir'' X) None)
    \<and> (\<forall>l\<in>set L. is_line l) \<and> ''sdk.dir'' \<notin> line_key ` set L
    \<and> set default_keys \<subseteq> line_key ` set L"
    using L1 L2 L3 L4 by (intro conjI)
  then show ?thesis by (rule exI)
qed

lemma settled_has_key:
  assumes "settled w f X" and "unbroken X" and "k \<in> set default_keys"
  shows "set_property f k v False w = (Inr (), w)"
proof -
  from settled_lines [OF assms(1,2)]
  obtain L where L: "lines_read w f = L @ [property_line ''sdk.dir'' X]"
    and d: "set default_keys \<subseteq> line_key ` set L"
    by (elim exE conjE)
  have "k \<in> line_key ` set L" using d assms(3) by (rule subsetD)
  then have "k \<in> line_key ` set (L @ [property_line ''sdk.dir'' X])"
    by (simp only: set_append image_Un Un_iff simp_thms)
  then have "keep_lines k False (lines_read w f) = None"
    unfolding L by (simp only: keep_lines_keep if_True)
  then show ?thesis by (simp only: set_property_def option.case)
qed

lemma settled_seed:
  assumes "settled w f X" and "unbroken X"
  shows "seed_defaults f dk w = (Inr (), w)"
  using settled_has_key [OF assms, of "''key.alias''"]
    settled_has_key [OF assms, of "''key.store.password''"]
    settled_has_key [OF assms, of "''key.alias.password''"]
    settled_has_key [OF assms, of "''key.store''"]
  by (simp add: seed_defaults_def seq_def bind_def default_keys_def)

lemma settled_persist:
  assumes "settled w f X" and x: "unbroken X"
    and s: "set_property f ''sdk.dir'' X True w = (r, w')"
  shows "r = Inr ()" and "lookup (fs w') (resolve (cwd w) f) = lookup (fs w) (resolve (cwd w) f)"
proof -
  from settled_lines [OF assms(1,2)]
  obtain L where L: "lines_read w f = L @ [property_line ''sdk.dir'' X]"
    and f: "lookup (fs w) (resolve (cwd w) f) = Some (File (concat L @ property_line ''sdk.dir'' X) None)"
    and n: "''sdk.dir'' \<notin> line_key ` set L"
    by (elim exE conjE)
  have k: "line_key (property_line ''sdk.dir'' X) = ''sdk.dir''"
    by (rule line_key_property_line [OF key_literals(13) key_literals(14)])
  have "filter (\<lambda>l. line_key l \<noteq> ''sdk.dir'') (lines_read w f) = L"
    using L n k by (simp add: filter_absent)
  then have ow: "open_write f (concat L @ property_line ''sdk.dir'' X) w = (r, w')"
    using s by (simp add: set_property_def keep_lines_replace property_line_def)
  obtain w2 where "open_write f (concat L @ property_line ''sdk.dir'' X) w = (Inr (), w2)"
    using open_write_existing [OF f] by blast
  then have ok: "open_write f (concat L @ property_line ''sdk.dir'' X) w = (Inr (), w')" and r: "r = Inr ()"
    using ow by simp_all
  show "r = Inr ()" using r .
  show "lookup (fs w') (resolve (cwd w) f) = lookup (fs w) (resolve (cwd w) f)"
    using open_write_lookup [OF ok] f by simp
qed

lemma apart_sym: "apart p q = apart q p"
  by (auto simp: apart_def)

lemma replace_backslash_newline: "unbroken s \<Longrightarrow> unbroken (replace_backslash s)"
  by (induction s) (auto simp: replace_backslash_def unbroken_def newline_def carriage_return_def)

lemma steady_declined:
  assumes p: "permits A" and d: "\<not> yesno E Want_to_create_key \<or> \<not> yesno E Will_you_backup"
    and c: "create_android_key E P w = (r, w')"
  shows "steady A Q w w'"
proof -
  have a: "\<And>m b. A (Yesno m b)"
  proof -
    fix m b
    show "A (Yesno m b)" using p [unfolded permits_def, THEN spec, of "Yesno m b"] by simp
  qed
  let ?evs = "if yesno E Want_to_create_key
         then [Yesno Want_to_create_key True, Yesno Will_you_backup False]
         else [Yesno Want_to_create_key False]"
  have w': "w' = w\<lparr> trace := trace w @ ?evs \<rparr>"
    using create_android_key_declined [OF d, of P w] c by simp
  have "trace w' = trace w @ ?evs \<and> (\<forall>ev\<in>set ?evs. A ev)" using w' a by simp
  then have "\<exists>evs. trace w' = trace w @ evs \<and> (\<forall>ev\<in>set evs. A ev)" by blast
  then show ?thesis using w' by (simp add: steady_def)
qed

lemma generate_keys_tail:
  assumes seed: "seed_defaults (local_properties P) (replace_backslash (path P ''android.keystore'')) w
                   = (Inr (), ws)"
    and run: "generate_keys E P w = (r, w')"
    and p: "permits A" and k: "\<forall>q\<in>set Q. keeps E A q"
    and reach: "get_property (local_properties P) ''key.store'' ws
                   = Inr (Some (replace_backslash (path P ''android.keystore'')))
                \<Longrightarrow> \<not> os_path_exists ws (path P ''android.keystore'')
                \<Longrightarrow> declines E \<or> (\<forall>dn kw. A (Call (keytool_args P ''android.keystore'' dn) kw))"
  shows "steady A Q ws w'"
proof (cases "get_property (local_properties P) ''key.store'' ws")
  case (Inl e)
  then have "w' = ws" using run by (simp add: generate_keys_after_seed [OF seed])
  then show ?thesis by (simp add: steady_refl)
next
  case (Inr stored)
  show ?thesis
  proof (cases "stored \<noteq> Some (replace_backslash (path P ''android.keystore''))")
    case True
    then have "interface_info Keystore_set_yourself ws = (r, w')"
      using run Inr by (simp add: generate_keys_after_seed [OF seed])
    then show ?thesis using steadyI [OF steadily_reports(1) [OF p]] by blast
  next
    case False
    show ?thesis
    proof (cases "os_path_exists ws (path P ''android.keystore'')")
      case True
      then have "interface_info Keystore_already_created ws = (r, w')"
        using run Inr False by (simp add: generate_keys_after_seed [OF seed])
      then show ?thesis using steadyI [OF steadily_reports(1) [OF p]] by blast
    next
      case nokey: False
      have c: "create_android_key E P ws = (r, w')"
        using run Inr False nokey by (simp add: generate_keys_after_seed [OF seed])
      have "declines E \<or> (\<forall>dn kw. A (Call (keytool_args P ''android.keystore'' dn) kw))"
        using reach Inr False nokey by simp
      then show ?thesis
      proof
        assume "declines E"
        then show ?thesis using steady_declined [OF p _ c] by (simp add: declines_def)
      next
        assume "\<forall>dn kw. A (Call (keytool_args P ''android.keystore'' dn) kw)"
        then have "steadily A Q (create_android_key E P)"
          using steadily_create_android_key [OF p k] by simp
        then show ?thesis using c by (rule steadyI)
      qed
    qed
  qed
qed

lemma generate_bundle_keys_tail:
  assumes seed: "seed_defaults (bundle_properties P) (replace_backslash (path P ''bundle.keystore'')) w
                   = (Inr (), ws)"
    and run: "generate_bundle_keys E P w = (r, w')"
    and p: "permits A" and k: "\<forall>q\<in>set Q. keeps E A q"
    and reach: "get_property (bundle_properties P) ''key.store'' ws
                   = Inr (Some (replace_backslash (path P ''bundle.keystore'')))
                \<Longrightarrow> \<not> os_path_exists ws (path P ''bundle.keystore'')
                \<Longrightarrow> (\<forall>dn kw. A (Call (keytool_args P ''bundle.keystore'' dn) kw))"
  shows "steady A Q ws w'"
proof (cases "get_property (bundle_properties P) ''key.store'' ws")
  case (Inl e)
  then have "w' = ws" using run by (simp add: generate_bundle_keys_after_seed [OF seed])
  then show ?thesis by (simp add: steady_refl)
next
  case (Inr stored)
  show ?thesis
  proof (cases "stored \<noteq> Some (replace_backslash (path P ''bundle.keystore''))")
    case True
    then have "w' = ws"
      using run Inr by (simp add: generate_bundle_keys_after_seed [OF seed])
    then show ?thesis by (simp add: steady_refl)
  next
    case False
    show ?thesis
    proof (cases "os_path_exists ws (path P ''bundle.keystore'')")
      case True
      then have "w' = ws"
        using run Inr False by (simp add: generate_bundle_keys_after_seed [OF seed])
      then show ?thesis by (simp add: steady_refl)
    next
      case nokey: False
      have c: "create_bundle_key E P ws = (r, w')"
        using run Inr False nokey by (simp add: generate_bundle_keys_after_seed [OF seed])
      have "\<forall>dn kw. A (Call (keytool_args P ''bundle.keystore'' dn) kw)"
        using reach Inr False nokey by simp
      then have "steadily A Q (create_bundle_key E P)"
        using steadily_create_bundle_key [OF p k] by simp
      then show ?thesis using c by (rule steadyI)
    qed
  qed
qed

lemma steady_provision_first:
  assumes run: "provision_sdk E P w = (Inr (), w')"
    and k: "\<forall>q\<in>set Q. keeps E any_event q" and u: "\<forall>q\<in>set Q. unpack_keeps E q"
    and away: "\<forall>q\<in>set Q. apart q (sdk_directory P w)"
  shows "steady any_event Q w w'"
proof -
  from run obtain wa where a: "rapt_build_copy_project E False w = (Inr (), wa)"
    and ra: "seq (check_java E P) (seq (unpack_sdk E P) (get_packages E P)) wa = (Inr (), w')"
    unfolding provision_sdk_def by (blast dest: seq_Inr)
  from ra obtain wb where b: "check_java E P wa = (Inr (), wb)"
    and rb: "seq (unpack_sdk E P) (get_packages E P) wb = (Inr (), w')"
    by (blast dest: seq_Inr)
  from rb obtain wc where c: "unpack_sdk E P wb = (Inr (), wc)"
    and d: "get_packages E P wc = (Inr (), w')"
    by (blast dest: seq_Inr)
  have s1: "steady any_event Q w wa" using steadyI [OF steadily_copy_project [OF k] a] .
  have s2: "steady any_event Q wa wb"
    using steadyI [OF steadily_check_java [OF permits_any k] b] .
  have "cwd wb = cwd w" using s1 s2 by (simp add: steady_def)
  then have "\<forall>q\<in>set Q. apart q (resolve (cwd wb) (path P ''.'') @ [''Sdk''])"
    using away by (simp add: sdk_directory_def)
  then have s3: "steady any_event Q wb wc" using steady_unpack_sdk [OF c u] by simp
  have s4: "steady any_event Q wc w'"
    using steadyI [OF steadily_get_packages [OF permits_any k] d] .
  show ?thesis using s1 s2 s3 s4 steady_trans by blast
qed

lemma generate_keys_seed_ok:
  assumes "generate_keys E P w = (Inr (), w')"
  shows "\<exists>ws. seed_defaults (local_properties P) (replace_backslash (path P ''android.keystore'')) w
            = (Inr (), ws)"
proof -
  obtain r1 ws where s: "seed_defaults (local_properties P)
      (replace_backslash (path P ''android.keystore'')) w = (r1, ws)"
    by (cases "seed_defaults (local_properties P) (replace_backslash (path P ''android.keystore'')) w")
  have "r1 = Inr ()" using assms by (cases r1) (simp_all add: generate_keys_after_seed [OF s])
  then show ?thesis using s by simp
qed

lemma generate_bundle_keys_seed_ok:
  assumes "generate_bundle_keys E P w = (Inr (), w')"
  shows "\<exists>ws. seed_defaults (bundle_properties P) (replace_backslash (path P ''bundle.keystore'')) w
            = (Inr (), ws)"
proof -
  obtain r1 ws where s: "seed_defaults (bundle_properties P)
      (replace_backslash (path P ''bundle.keystore'')) w = (r1, ws)"
    by (cases "seed_defaults (bundle_properties P) (replace_backslash (path P ''bundle.keystore'')) w")
  have "r1 = Inr ()" using assms by (cases r1) (simp_all add: generate_bundle_keys_after_seed [OF s])
  then show ?thesis using s by simp
qed

lemma generate_keys_first:
  assumes run: "generate_keys E P w = (Inr (), w')"
    and k: "\<forall>q\<in>set [local_file P w, bundle_file P w]. keeps E any_event q"
    and ap: "apart (local_file P w) (bundle_file P w)"
    and c: "complete_lines w (local_properties P)"
    and nl: "unbroken (path P ''android.keystore'')"
  shows "cwd w' = cwd w"
    and "complete_lines w' (local_properties P)" and "has_defaults w' (local_properties P)"
    and "lines_read w' (bundle_properties P) = lines_read w (bundle_properties P)"
proof -
  let ?Q = "[local_file P w, bundle_file P w]"
  obtain ws where seed: "seed_defaults (local_properties P)
      (replace_backslash (path P ''android.keystore'')) w = (Inr (), ws)"
    using generate_keys_seed_ok [OF run] by blast
  have ow: "only_writes (local_file P w) w ws"
    using seed_defaults_only_writes [OF seed] by (simp add: local_file_def)
  have cs: "cwd ws = cwd w" using ow by (simp add: only_writes_def)
  have tail: "steady any_event ?Q ws w'"
    by (rule generate_keys_tail [OF seed run permits_any k]) (simp add: any_event_def)
  show "cwd w' = cwd w" using tail cs by (simp add: steady_def)
  have inl: "resolve (cwd ws) (local_properties P) \<in> set ?Q"
    and inb: "resolve (cwd ws) (bundle_properties P) \<in> set ?Q"
    using cs by (simp_all add: local_file_def bundle_file_def)
  have "complete_lines ws (local_properties P)" and "has_defaults ws (local_properties P)"
    using seed_defaults_seeds [OF seed c replace_backslash_newline [OF nl]] by simp_all
  then show "complete_lines w' (local_properties P)" and "has_defaults w' (local_properties P)"
    using steady_lines(3,4) [OF tail inl] by simp_all
  have "lines_read ws (bundle_properties P) = lines_read w (bundle_properties P)"
    using only_writes_lines(1) [OF ow] ap by (simp add: bundle_file_def)
  then show "lines_read w' (bundle_properties P) = lines_read w (bundle_properties P)"
    using steady_lines(1) [OF tail inb] by simp
qed

lemma generate_bundle_keys_first:
  assumes run: "generate_bundle_keys E P w = (Inr (), w')"
    and k: "\<forall>q\<in>set [local_file P w, bundle_file P w]. keeps E any_event q"
    and ap: "apart (local_file P w) (bundle_file P w)"
    and c: "complete_lines w (bundle_properties P)"
    and nl: "unbroken (path P ''bundle.keystore'')"
  shows "cwd w' = cwd w"
    and "complete_lines w' (bundle_properties P)" and "has_defaults w' (bundle_properties P)"
    and "lines_read w' (local_properties P) = lines_read w (local_properties P)"
proof -
  let ?Q = "[local_file P w, bundle_file P w]"
  obtain ws where seed: "seed_defaults (bundle_properties P)
      (replace_backslash (path P ''bundle.keystore'')) w = (Inr (), ws)"
    using generate_bundle_keys_seed_ok [OF run] by blast
  have ow: "only_writes (bundle_file P w) w ws"
    using seed_defaults_only_writes [OF seed] by (simp add: bundle_file_def)
  have cs: "cwd ws = cwd w" using ow by (simp add: only_writes_def)
  have tail: "steady any_event ?Q ws w'"
    by (rule generate_bundle_keys_tail [OF seed run permits_any k]) (simp add: any_event_def)
  show "cwd w' = cwd w" using tail cs by (simp add: steady_def)
  have inl: "resolve (cwd ws) (local_properties P) \<in> set ?Q"
    and inb: "resolve (cwd ws) (bundle_properties P) \<in> set ?Q"
    using cs by (simp_all add: local_file_def bundle_file_def)
  have "complete_lines ws (bundle_properties P)" and "has_defaults ws (bundle_properties P)"
    using seed_defaults_seeds [OF seed c replace_backslash_newline [OF nl]] by simp_all
  then show "complete_lines w' (bundle_properties P)" and "has_defaults w' (bundle_properties P)"
    using steady_lines(3,4) [OF tail inb] by simp_all
  have "apart (bundle_file P w) (local_file P w)" using ap by (simp add: apart_sym)
  then have "lines_read ws (local_properties P) = lines_read w (local_properties P)"
    using only_writes_lines(1) [OF ow] by (simp add: local_file_def)
  then show "lines_read w' (local_properties P) = lines_read w (local_properties P)"
    using steady_lines(1) [OF tail inl] by simp
qed

lemma persist_first:
  assumes run: "persist_sdk_dir P w = (Inr (), w')"
    and ap: "apart (local_file P w) (bundle_file P w)"
    and cl: "complete_lines w (local_properties P)" and hl: "has_defaults w (local_properties P)"
    and cb: "complete_lines w (bundle_properties P)" and hb: "has_defaults w (bundle_properties P)"
  shows "cwd w' = cwd w"
    and "settled w' (local_properties P) (replace_backslash (sdk P))"
    and "settled w' (bundle_properties P) (replace_backslash (sdk P))"
proof -
  let ?X = "replace_backslash (sdk P)"
  from run obtain wc where a: "set_property (local_properties P) ''sdk.dir'' ?X True w = (Inr (), wc)"
    and ra: "seq (set_property (bundle_properties P) ''sdk.dir'' ?X True)
         (interface_final_success Ready_to_package) wc = (Inr (), w')"
    unfolding persist_sdk_dir_def by (blast dest: seq_Inr)
  from ra obtain wd where b: "set_property (bundle_properties P) ''sdk.dir'' ?X True wc = (Inr (), wd)"
    and f: "interface_final_success Ready_to_package wd = (Inr (), w')"
    by (blast dest: seq_Inr)
  have oa: "only_writes (local_file P w) w wc"
    using set_property_only_writes [OF a] by (simp add: local_file_def)
  have ca: "cwd wc = cwd w" using oa by (simp add: only_writes_def)
  have ob: "only_writes (bundle_file P w) wc wd"
    using set_property_only_writes [OF b] ca by (simp add: bundle_file_def)
  have cbw: "cwd wd = cwd wc" using ob by (simp add: only_writes_def)
  have w': "w' = wd\<lparr> trace := trace wd @ [Final_success Ready_to_package] \<rparr>"
    using f by (simp add: interface_final_success_def emit_def)
  show "cwd w' = cwd w" using w' cbw ca by simp
  have sl: "settled wc (local_properties P) ?X" using set_sdk_dir_settles [OF a cl hl] .
  have "complete_lines wc (bundle_properties P)" and "has_defaults wc (bundle_properties P)"
    using only_writes_lines(3,4) [OF oa, of "bundle_properties P"] ap cb hb
    by (simp_all add: bundle_file_def)
  then have sb: "settled wd (bundle_properties P) ?X" using set_sdk_dir_settles [OF b] by simp
  have "apart (bundle_file P w) (local_file P w)" using ap by (simp add: apart_sym)
  then have "lookup (fs wd) (resolve (cwd wc) (local_properties P))
      = lookup (fs wc) (resolve (cwd wc) (local_properties P))"
    using ob ca by (simp add: only_writes_def local_file_def)
  then have sl': "settled wd (local_properties P) ?X"
    using settled_cong [OF cbw, of "local_properties P"] sl by simp
  have "cwd w' = cwd wd" and "fs w' = fs wd" using w' by simp_all
  then show "settled w' (local_properties P) ?X" and "settled w' (bundle_properties P) ?X"
    using sl' sb by (simp_all add: settled_def)
qed

lemma steady_mono: "steady A Q w w' \<Longrightarrow> set Q' \<subseteq> set Q \<Longrightarrow> steady A Q' w w'"
  by (auto simp: steady_def)

lemma first_run_settles:
  assumes run: "install_sdk E P w0 = (Inr (), w1)"
    and k: "\<forall>q\<in>set [local_file P w0, bundle_file P w0]. keeps E any_event q"
    and u: "\<forall>q\<in>set [local_file P w0, bundle_file P w0]. unpack_keeps E q"
    and away: "\<forall>q\<in>set [local_file P w0, bundle_file P w0]. apart q (sdk_directory P w0)"
    and ap: "apart (local_file P w0) (bundle_file P w0)"
    and cl: "complete_lines w0 (local_properties P)" and cb: "complete_lines w0 (bundle_properties P)"
    and na: "unbroken (path P ''android.keystore'')"
    and nb: "unbroken (path P ''bundle.keystore'')"
  shows "cwd w1 = cwd w0"
    and "settled w1 (local_properties P) (replace_backslash (sdk P))"
    and "settled w1 (bundle_properties P) (replace_backslash (sdk P))"
proof -
  let ?Q = "[local_file P w0, bundle_file P w0]"
  from run obtain wp where p: "provision_sdk E P w0 = (Inr (), wp)"
    and rp: "seq (generate_keys E P) (seq (generate_bundle_keys E P) (persist_sdk_dir P)) wp
              = (Inr (), w1)"
    unfolding install_sdk_split by (blast dest: seq_Inr)
  from rp obtain wa where a: "generate_keys E P wp = (Inr (), wa)"
    and ra: "seq (generate_bundle_keys E P) (persist_sdk_dir P) wa = (Inr (), w1)"
    by (blast dest: seq_Inr)
  from ra obtain wb where b: "generate_bundle_keys E P wa = (Inr (), wb)"
    and c: "persist_sdk_dir P wb = (Inr (), w1)"
    by (blast dest: seq_Inr)
  have sp: "steady any_event ?Q w0 wp" using steady_provision_first [OF p k u away] .
  have cp: "cwd wp = cwd w0" using sp by (simp add: steady_def)
  have fp: "local_file P wp = local_file P w0" "bundle_file P wp = bundle_file P w0"
    using cp by (simp_all add: local_file_def bundle_file_def)
  have clp: "complete_lines wp (local_properties P)" and cbp: "complete_lines wp (bundle_properties P)"
    using steady_lines(3) [OF sp, of "local_properties P"]
      steady_lines(3) [OF sp, of "bundle_properties P"] cl cb
    by (simp_all add: local_file_def bundle_file_def)
  have kp: "\<forall>q\<in>set [local_file P wp, bundle_file P wp]. keeps E any_event q" using k fp by simp
  have app: "apart (local_file P wp) (bundle_file P wp)" using ap fp by simp
  have ca: "cwd wa = cwd wp"
    and cla: "complete_lines wa (local_properties P)" and hla: "has_defaults wa (local_properties P)"
    and lba: "lines_read wa (bundle_properties P) = lines_read wp (bundle_properties P)"
    using generate_keys_first [OF a kp app clp na] by simp_all
  have cba: "complete_lines wa (bundle_properties P)"
    using cbp lba by (simp add: complete_lines_def)
  have fa: "local_file P wa = local_file P w0" "bundle_file P wa = bundle_file P w0"
    using ca cp by (simp_all add: local_file_def bundle_file_def)
  have ka: "\<forall>q\<in>set [local_file P wa, bundle_file P wa]. keeps E any_event q" using k fa by simp
  have apa: "apart (local_file P wa) (bundle_file P wa)" using ap fa by simp
  have cbb: "cwd wb = cwd wa"
    and cbwb: "complete_lines wb (bundle_properties P)" and hbwb: "has_defaults wb (bundle_properties P)"
    and llb: "lines_read wb (local_properties P) = lines_read wa (local_properties P)"
    using generate_bundle_keys_first [OF b ka apa cba nb] by simp_all
  have clb: "complete_lines wb (local_properties P)" and hlb: "has_defaults wb (local_properties P)"
    using cla hla llb by (simp_all add: complete_lines_def has_defaults_def)
  have fb: "local_file P wb = local_file P w0" "bundle_file P wb = bundle_file P w0"
    using cbb ca cp by (simp_all add: local_file_def bundle_file_def)
  have apb: "apart (local_file P wb) (bundle_file P wb)" using ap fb by simp
  have "cwd w1 = cwd wb" using persist_first(1) [OF c apb clb hlb cbwb hbwb] .
  then show "cwd w1 = cwd w0" using cbb ca cp by simp
  show "settled w1 (local_properties P) (replace_backslash (sdk P))"
    using persist_first(2) [OF c apb clb hlb cbwb hbwb] .
  show "settled w1 (bundle_properties P) (replace_backslash (sdk P))"
    using persist_first(3) [OF c apb clb hlb cbwb hbwb] .
qed

lemma steady_seq:
  assumes run: "seq m k w = (r, w')"
    and m: "\<And>r1 w1. m w = (r1, w1) \<Longrightarrow> steady A Q w w1"
    and k: "\<And>w1. m w = (Inr (), w1) \<Longrightarrow> k w1 = (r, w') \<Longrightarrow> steady A Q w1 w'"
  shows "steady A Q w w'"
proof -
  from seq_cases [OF run] show ?thesis
  proof
    assume "\<exists>e. m w = (Inl e, w') \<and> r = Inl e"
    then show ?thesis using m by blast
  next
    assume "\<exists>w1. m w = (Inr (), w1) \<and> k w1 = (r, w')"
    then obtain w1 where a: "m w = (Inr (), w1)" and b: "k w1 = (r, w')" by blast
    show ?thesis using steady_trans [OF m [OF a] k [OF a b]] .
  qed
qed

lemma steady_provision_second:
  assumes run: "provision_sdk E P w = (r, w')" and p: "permits A"
    and k: "\<forall>q\<in>set Q. keeps E A q"
    and sm: "sdkmanager_file P w \<in> set Q" and ex: "os_path_exists w (sdkmanager P)"
  shows "steady A Q w w'"
  using run unfolding provision_sdk_def
proof (rule steady_seq)
  fix r1 w1
  assume "rapt_build_copy_project E False w = (r1, w1)"
  then show "steady A Q w w1" using steadyI [OF steadily_copy_project [OF k]] by blast
next
  fix w1
  assume a: "rapt_build_copy_project E False w = (Inr (), w1)"
    and ra: "seq (check_java E P) (seq (unpack_sdk E P) (get_packages E P)) w1 = (r, w')"
  have s1: "steady A Q w w1" using steadyI [OF steadily_copy_project [OF k] a] .
  show "steady A Q w1 w'" using ra
  proof (rule steady_seq)
    fix r2 w2
    assume "check_java E P w1 = (r2, w2)"
    then show "steady A Q w1 w2" using steadyI [OF steadily_check_java [OF p k]] by blast
  next
    fix w2
    assume b: "check_java E P w1 = (Inr (), w2)"
      and rb: "seq (unpack_sdk E P) (get_packages E P) w2 = (r, w')"
    have s2: "steady A Q w1 w2" using steadyI [OF steadily_check_java [OF p k] b] .
    have s12: "steady A Q w w2" using steady_trans [OF s1 s2] .
    have ex2: "os_path_exists w2 (sdkmanager P)"
      using steady_exists [OF s12, of "sdkmanager P"] sm ex by (simp add: sdkmanager_file_def)
    show "steady A Q w2 w'" using rb
    proof (rule steady_seq)
      fix r3 w3
      assume "unpack_sdk E P w2 = (r3, w3)"
      then show "steady A Q w2 w3" using steady_unpack_present [OF p ex2] by blast
    next
      fix w3
      assume "get_packages E P w3 = (r, w')"
      then show "steady A Q w3 w'" using steadyI [OF steadily_get_packages [OF p k]] by blast
    qed
  qed
qed

lemma quiet_not_keytool: "\<not> quiet_event P (Call (keytool_args P ks dn) kw)"
  by (simp add: quiet_event_def is_keytool_call_def keytool_args_def)

lemma watched_cong: "cwd w' = cwd w \<Longrightarrow> watched P w' = watched P w"
  by (simp add: watched_def local_file_def bundle_file_def android_keystore_file_def
      bundle_keystore_file_def sdkmanager_file_def)

lemma steady_settled:
  assumes "steady A Q w w'" and "resolve (cwd w) f \<in> set Q"
  shows "settled w' f X = settled w f X"
proof -
  have c: "cwd w' = cwd w" and l: "lookup (fs w') (resolve (cwd w) f) = lookup (fs w) (resolve (cwd w) f)"
    using assms by (simp_all add: steady_def)
  show ?thesis using settled_cong [OF c l] .
qed

lemma set_sdk_dir_second:
  assumes st: "settled w f X" and nx: "unbroken X"
    and run: "set_property f ''sdk.dir'' X True w = (r, w')"
    and q: "\<forall>q\<in>set Q. q = resolve (cwd w) f \<or> apart (resolve (cwd w) f) q"
  shows "steady A Q w w'"
proof (rule steady_of_frame)
  have ow: "only_writes (resolve (cwd w) f) w w'" using set_property_only_writes [OF run] .
  then show "cwd w' = cwd w \<and> trace w' = trace w \<and> environ w' = environ w"
    by (simp add: only_writes_def)
  have same: "lookup (fs w') (resolve (cwd w) f) = lookup (fs w) (resolve (cwd w) f)"
    using settled_persist(2) [OF st nx run] .
  show "\<forall>q\<in>set Q. lookup (fs w') q = lookup (fs w) q"
  proof
    fix p
    assume "p \<in> set Q"
    then have "p = resolve (cwd w) f \<or> apart (resolve (cwd w) f) p" using q by blast
    then show "lookup (fs w') p = lookup (fs w) p"
      using same ow by (auto simp: only_writes_def)
  qed
qed

lemma persist_second:
  assumes run: "persist_sdk_dir P w = (r, w')"
    and sl: "settled w (local_properties P) (replace_backslash (sdk P))"
    and sb: "settled w (bundle_properties P) (replace_backslash (sdk P))"
    and nx: "unbroken (replace_backslash (sdk P))"
    and ap: "apart (local_file P w) (bundle_file P w)"
    and p: "permits A"
  shows "steady A [local_file P w, bundle_file P w] w w'"
  using run unfolding persist_sdk_dir_def
proof (rule steady_seq)
  fix r1 w1
  assume a: "set_property (local_properties P) ''sdk.dir'' (replace_backslash (sdk P)) True w = (r1, w1)"
  show "steady A [local_file P w, bundle_file P w] w w1"
    by (rule set_sdk_dir_second [OF sl nx a]) (use ap in \<open>simp add: local_file_def bundle_file_def\<close>)
next
  fix w1
  assume a: "set_property (local_properties P) ''sdk.dir'' (replace_backslash (sdk P)) True w = (Inr (), w1)"
    and ra: "seq (set_property (bundle_properties P) ''sdk.dir'' (replace_backslash (sdk P)) True)
         (interface_final_success Ready_to_package) w1 = (r, w')"
  have s1: "steady A [local_file P w, bundle_file P w] w w1"
    by (rule set_sdk_dir_second [OF sl nx a]) (use ap in \<open>simp add: local_file_def bundle_file_def\<close>)
  have c1: "cwd w1 = cwd w" using s1 by (simp add: steady_def)
  have sb1: "settled w1 (bundle_properties P) (replace_backslash (sdk P))"
    using steady_settled [OF s1, of "bundle_properties P"] sb by (simp add: bundle_file_def)
  have ap1: "apart (bundle_file P w) (local_file P w)" using ap by (simp add: apart_sym)
  show "steady A [local_file P w, bundle_file P w] w1 w'" using ra
  proof (rule steady_seq)
    fix r2 w2
    assume b: "set_property (bundle_properties P) ''sdk.dir'' (replace_backslash (sdk P)) True w1 = (r2, w2)"
    show "steady A [local_file P w, bundle_file P w] w1 w2"
      by (rule set_sdk_dir_second [OF sb1 nx b])
        (use ap1 c1 in \<open>simp add: local_file_def bundle_file_def\<close>)
  next
    fix w2
    assume "interface_final_success Ready_to_package w2 = (r, w')"
    then show "steady A [local_file P w, bundle_file P w] w2 w'"
      using steadyI [OF steadily_reports(3) [OF p]] by blast
  qed
qed

lemma steady_provisioned:
  assumes s: "steady A (watched P w) w w'" and pr: "provisioned E P w"
  shows "provisioned E P w'"
proof -
  have e1: "os_path_exists w' (sdkmanager P) = os_path_exists w (sdkmanager P)"
    by (rule steady_exists [OF s]) (simp add: watched_def sdkmanager_file_def)
  have e2: "os_path_exists w' (path P ''android.keystore'') = os_path_exists w (path P ''android.keystore'')"
    by (rule steady_exists [OF s]) (simp add: watched_def android_keystore_file_def)
  have e3: "os_path_exists w' (path P ''bundle.keystore'') = os_path_exists w (path P ''bundle.keystore'')"
    by (rule steady_exists [OF s]) (simp add: watched_def bundle_keystore_file_def)
  have g1: "\<And>y. (get_property (local_properties P) ''key.store'' w' = Inr y)
      = (get_property (local_properties P) ''key.store'' w = Inr y)"
    by (rule steady_lines(2) [OF s]) (simp add: watched_def local_file_def)
  have g2: "\<And>y. (get_property (bundle_properties P) ''key.store'' w' = Inr y)
      = (get_property (bundle_properties P) ''key.store'' w = Inr y)"
    by (rule steady_lines(2) [OF s]) (simp add: watched_def bundle_file_def)
  show ?thesis using pr unfolding provisioned_def e1 e2 e3 g1 g2 .
qed

lemma generate_keys_second:
  assumes run: "generate_keys E P w = (r, w')"
    and sl: "settled w (local_properties P) X" and nx: "unbroken X"
    and pr: "provisioned E P w"
    and k: "\<forall>q\<in>set Q. keeps E (quiet_event P) q"
  shows "steady (quiet_event P) Q w w'"
proof -
  have seed: "seed_defaults (local_properties P) (replace_backslash (path P ''android.keystore'')) w
                = (Inr (), w)"
    using settled_seed [OF sl nx] .
  show ?thesis
    by (rule generate_keys_tail [OF seed run permits_quiet k]) (use pr in \<open>simp add: provisioned_def\<close>)
qed

lemma generate_bundle_keys_second:
  assumes run: "generate_bundle_keys E P w = (r, w')"
    and sl: "settled w (bundle_properties P) X" and nx: "unbroken X"
    and pr: "provisioned E P w"
    and k: "\<forall>q\<in>set Q. keeps E (quiet_event P) q"
  shows "steady (quiet_event P) Q w w'"
proof -
  have seed: "seed_defaults (bundle_properties P) (replace_backslash (path P ''bundle.keystore'')) w
                = (Inr (), w)"
    using settled_seed [OF sl nx] .
  show ?thesis
    by (rule generate_bundle_keys_tail [OF seed run permits_quiet k])
      (use pr in \<open>simp add: provisioned_def\<close>)
qed

lemma second_run_idle:
  assumes run: "install_sdk E P w = (r, w')"
    and sl: "settled w (local_properties P) (replace_backslash (sdk P))"
    and sb: "settled w (bundle_properties P) (replace_backslash (sdk P))"
    and nx: "unbroken (replace_backslash (sdk P))"
    and pr: "provisioned E P w"
    and k: "\<forall>q\<in>set (watched P w). keeps E (quiet_event P) q"
    and ap: "apart (local_file P w) (bundle_file P w)"
  shows "steady (quiet_event P) [local_file P w, bundle_file P w] w w'"
proof -
  let ?A = "quiet_event P"
  let ?Q = "watched P w"
  let ?F = "[local_file P w, bundle_file P w]"
  have sub: "set ?F \<subseteq> set ?Q" by (simp add: watched_def)
  have inl: "\<And>v. cwd v = cwd w \<Longrightarrow> resolve (cwd v) (local_properties P) \<in> set ?Q"
    and inb: "\<And>v. cwd v = cwd w \<Longrightarrow> resolve (cwd v) (bundle_properties P) \<in> set ?Q"
    by (simp_all add: watched_def local_file_def bundle_file_def)
  have ex: "os_path_exists w (sdkmanager P)" using pr by (simp add: provisioned_def)
  show ?thesis using run unfolding install_sdk_split
  proof (rule steady_seq)
    fix r1 w1
    assume "provision_sdk E P w = (r1, w1)"
    then have "steady ?A ?Q w w1"
      by (rule steady_provision_second [OF _ permits_quiet k _ ex]) (simp add: watched_def)
    then show "steady ?A ?F w w1" using sub by (rule steady_mono)
  next
    fix wp
    assume p: "provision_sdk E P w = (Inr (), wp)"
      and rp: "seq (generate_keys E P) (seq (generate_bundle_keys E P) (persist_sdk_dir P)) wp = (r, w')"
    have sp: "steady ?A ?Q w wp"
      by (rule steady_provision_second [OF p permits_quiet k _ ex]) (simp add: watched_def)
    have cp: "cwd wp = cwd w" using sp by (rule steady_cwd)
    have wq: "watched P wp = ?Q" using watched_cong [OF cp] .
    have slp: "settled wp (local_properties P) (replace_backslash (sdk P))"
      using steady_settled [OF sp inl [OF refl]] sl by simp
    have sbp: "settled wp (bundle_properties P) (replace_backslash (sdk P))"
      using steady_settled [OF sp inb [OF refl]] sb by simp
    have prp: "provisioned E P wp" using steady_provisioned [OF sp pr] .
    show "steady ?A ?F wp w'" using rp
    proof (rule steady_seq)
      fix r1 w1
      assume "generate_keys E P wp = (r1, w1)"
      then have "steady ?A ?Q wp w1" using generate_keys_second [OF _ slp nx prp k] by blast
      then show "steady ?A ?F wp w1" using sub by (rule steady_mono)
    next
      fix wa
      assume a: "generate_keys E P wp = (Inr (), wa)"
        and ra: "seq (generate_bundle_keys E P) (persist_sdk_dir P) wa = (r, w')"
      have sa: "steady ?A ?Q wp wa" using generate_keys_second [OF a slp nx prp k] .
      have ca: "cwd wa = cwd w" using sa cp by (simp add: steady_def)
      have sla: "settled wa (local_properties P) (replace_backslash (sdk P))"
        using steady_settled [OF sa inl [OF cp]] slp by simp
      have sba: "settled wa (bundle_properties P) (replace_backslash (sdk P))"
        using steady_settled [OF sa inb [OF cp]] sbp by simp
      have pra: "provisioned E P wa" using steady_provisioned [of ?A P wp wa E] sa wq prp by simp
      show "steady ?A ?F wa w'" using ra
      proof (rule steady_seq)
        fix r1 w1
        assume "generate_bundle_keys E P wa = (r1, w1)"
        then have "steady ?A ?Q wa w1" using generate_bundle_keys_second [OF _ sba nx pra k] by blast
        then show "steady ?A ?F wa w1" using sub by (rule steady_mono)
      next
        fix wb
        assume b: "generate_bundle_keys E P wa = (Inr (), wb)"
          and c: "persist_sdk_dir P wb = (r, w')"
        have sbb: "steady ?A ?Q wa wb" using generate_bundle_keys_second [OF b sba nx pra k] .
        have cb: "cwd wb = cwd w" using sbb ca by (simp add: steady_def)
        have slb: "settled wb (local_properties P) (replace_backslash (sdk P))"
          using steady_settled [OF sbb inl [OF ca]] sla by simp
        have sbb': "settled wb (bundle_properties P) (replace_backslash (sdk P))"
          using steady_settled [OF sbb inb [OF ca]] sba by simp
        have fb: "local_file P wb = local_file P w" "bundle_file P wb = bundle_file P w"
          using cb by (simp_all add: local_file_def bundle_file_def)
        have "steady ?A [local_file P wb, bundle_file P wb] wb w'"
          by (rule persist_second [OF c slb sbb' nx _ permits_quiet]) (use ap fb in simp)
        then show "steady ?A ?F wb w'" using fb by simp
      qed
    qed
  qed
qed

lemma quiet_events:
  "\<forall>ev\<in>set evs. quiet_event P ev \<Longrightarrow>
     downloads evs = [] \<and> (\<forall>args\<in>set (calls evs). \<not> is_keytool_call P args)"
proof (induction evs)
  case Nil
  then show ?case by simp
next
  case (Cons ev evs)
  then show ?case by (cases ev) (simp_all add: quiet_event_def)
qed

section \<open>Two concrete pairs of runs\<close>

lemma lookup_project:
  "lookup (fs (rapt_world proj ks T)) [''rapt'', ''project'', x] = map_of proj x"
  by (simp add: rapt_world_def split: option.splits)

lemma project_resolved:
  "resolve [] ''/rapt/project/local.properties'' = [''rapt'', ''project'', ''local.properties'']"
  "resolve [] ''/rapt/project/bundle.properties'' = [''rapt'', ''project'', ''bundle.properties'']"
  by (rule demo_resolved)+

lemma set_project_create:
  assumes r: "resolve [] f = [''rapt'', ''project'', x]" and m: "map_of proj x = None"
  shows "set_property f k v False (rapt_world proj ks T)
     = (Inr (), rapt_world (AList.update x (File (property_line k v) None) proj) ks T)"
proof -
  have "lines_read (rapt_world proj ks T) f = []"
    by (rule read_project_missing [OF r]) (simp add: lookup_project m)
  then show ?thesis
    using write_project_file [OF r, of proj ks T] m
    by (simp add: set_property_def property_line_def lookup_project)
qed

lemma set_project_write:
  assumes r: "resolve [] f = [''rapt'', ''project'', x]" and m: "map_of proj x = Some (File c None)"
    and kl: "keep_lines k rp (file_lines c) = Some ls"
  shows "set_property f k v rp (rapt_world proj ks T)
     = (Inr (), rapt_world (AList.update x (File (concat ls @ property_line k v) None) proj) ks T)"
proof -
  have "lines_read (rapt_world proj ks T) f = file_lines c"
    by (rule read_project_file [OF r]) (simp add: lookup_project m)
  then show ?thesis
    using write_project_file [OF r, of proj ks T] m kl
    by (simp add: set_property_def property_line_def lookup_project)
qed

lemma set_project_noop:
  assumes r: "resolve [] f = [''rapt'', ''project'', x]" and m: "map_of proj x = Some (File c None)"
    and kl: "keep_lines k rp (file_lines c) = None"
  shows "set_property f k v rp (rapt_world proj ks T) = (Inr (), rapt_world proj ks T)"
proof -
  have "lines_read (rapt_world proj ks T) f = file_lines c"
    by (rule read_project_file [OF r]) (simp add: lookup_project m)
  then show ?thesis using kl by (simp add: set_property_def)
qed

lemma get_project:
  assumes r: "resolve [] f = [''rapt'', ''project'', x]" and m: "map_of proj x = Some (File c None)"
  shows "get_property f k (rapt_world proj ks T) = Inr (first_value k (file_lines c))"
proof -
  have "open_read (rapt_world proj ks T) f = Inr (file_lines c, False)"
    by (rule read_project_file [OF r]) (simp add: lookup_project m)
  then show ?thesis by (simp add: get_property_def split: option.splits)
qed

lemma seed_project_fresh:
  assumes r: "resolve [] f = [''rapt'', ''project'', x]" and m: "map_of proj x = None"
  shows "seed_defaults f dk (rapt_world proj ks T)
     = (Inr (), rapt_world (AList.update x (File (seeded_lines dk) None) proj) ks T)"
proof -
  let ?p1 = "property_line ''key.alias'' ''android''"
  let ?p2 = "property_line ''key.store.password'' ''android''"
  let ?p3 = "property_line ''key.alias.password'' ''android''"
  have k2: "keep_lines ''key.store.password'' False (file_lines ?p1) = Some [?p1]"
    by (simp add: line_eval)
  have k3: "keep_lines ''key.alias.password'' False (file_lines (?p1 @ ?p2)) = Some [?p1, ?p2]"
    by (simp add: line_eval)
  have k4: "keep_lines ''key.store'' False (file_lines (?p1 @ ?p2 @ ?p3)) = Some [?p1, ?p2, ?p3]"
    by (simp add: line_eval)
  have s1: "set_property f ''key.alias'' ''android'' False (rapt_world proj ks T)
      = (Inr (), rapt_world (AList.update x (File ?p1 None) proj) ks T)"
    by (rule set_project_create [OF r m])
  have s2: "set_property f ''key.store.password'' ''android'' False
        (rapt_world (AList.update x (File ?p1 None) proj) ks T)
      = (Inr (), rapt_world (AList.update x (File (?p1 @ ?p2) None) proj) ks T)"
    using set_project_write [OF r _ k2, of "AList.update x (File ?p1 None) proj" "''android''" ks T]
    by (simp add: update_conv')
  have s3: "set_property f ''key.alias.password'' ''android'' False
        (rapt_world (AList.update x (File (?p1 @ ?p2) None) proj) ks T)
      = (Inr (), rapt_world (AList.update x (File (?p1 @ ?p2 @ ?p3) None) proj) ks T)"
    using set_project_write [OF r _ k3, of "AList.update x (File (?p1 @ ?p2) None) proj" "''android''" ks T]
    by (simp add: update_conv')
  have s4: "set_property f ''key.store'' dk False
        (rapt_world (AList.update x (File (?p1 @ ?p2 @ ?p3) None) proj) ks T)
      = (Inr (), rapt_world (AList.update x (File (seeded_lines dk) None) proj) ks T)"
    using set_project_write [OF r _ k4, of "AList.update x (File (?p1 @ ?p2 @ ?p3) None) proj" dk ks T]
    by (simp add: update_conv' seeded_lines_def)
  show ?thesis by (simp add: seed_defaults_def seq_def bind_def s1 s2 s3 s4)
qed

lemma keytool_effect_other: "\<not> is_keytool_call demo_plat args \<Longrightarrow> keytool_effect args t = t"
  by (simp add: keytool_effect_def)

lemma short_not_keytool: "length args \<le> 4 \<Longrightarrow> \<not> is_keytool_call demo_plat args"
  using keytool_call_length by fastforce

lemma rapt_world_fs_trace:
  "(rapt_world proj ks T)\<lparr> fs := fs (rapt_world proj ks T), trace := T' \<rparr> = rapt_world proj ks T'"
  by (simp add: rapt_world_def)

lemma run_slow_tool:
  assumes "length args \<le> 4"
  shows "run_slow (keytool_env b) args kw (rapt_world proj ks T)
     = (Inr True, rapt_world proj ks (T @ [Call args (kw\<lparr> cancel := True \<rparr>)]))"
proof -
  have "keytool_effect args (fs (rapt_world proj ks T)) = fs (rapt_world proj ks T)"
    using keytool_effect_other [OF short_not_keytool [OF assms]] .
  then show ?thesis
    by (simp add: run_slow_def interface_call_def keytool_env_def demo_env_def rapt_world_sel
        rapt_world_fs_trace rapt_world_trace)
qed

lemma emit_rapt: "emit ev (rapt_world proj ks T) = (Inr (), rapt_world proj ks (T @ [ev]))"
  by (simp add: emit_def rapt_world_sel rapt_world_trace)

lemma copy_rapt: "rapt_build_copy_project (keytool_env b) u (rapt_world proj ks T) = (Inr (), rapt_world proj ks T)"
  by (simp add: rapt_build_copy_project_def keytool_env_def demo_env_def rapt_world_def)

lemma demo_tools:
  "javac demo_plat = ''javac''" "java demo_plat = ''java''" "keytool demo_plat = ''keytool''"
  "sdkmanager demo_plat = ''/rapt/Sdk/cmdline-tools/latest/bin/sdkmanager''"
  "sdk demo_plat = ''/rapt/Sdk''"
  "path demo_plat ''buildlib/CheckJDK8.java'' = ''/rapt/buildlib/CheckJDK8.java''"
  "path demo_plat ''buildlib'' = ''/rapt/buildlib''"
  by (simp_all add: demo_plat_def path_join_def)

lemma check_java_rapt:
  "check_java (keytool_env b) demo_plat (rapt_world proj ks T)
     = (Inr (), rapt_world proj ks (T @ java_events))"
  by (simp add: check_java_def seq_def bind_def interface_info_def interface_success_def emit_rapt
      run_slow_tool demo_tools return_def no_kwargs_def java_events_def)

lemma sdkmanager_rapt: "os_path_exists (rapt_world proj ks T) ''/rapt/Sdk/cmdline-tools/latest/bin/sdkmanager''"
  by (simp add: os_path_exists_def rapt_world_def resolve_def tools_def)

lemma unpack_rapt:
  "unpack_sdk E demo_plat (rapt_world proj ks T)
     = (Inr (), rapt_world proj ks (T @ [Success SDK_already_unpacked]))"
  by (simp add: unpack_sdk_def demo_tools sdkmanager_rapt interface_success_def emit_rapt)

lemma packages_missing:
  "\<not> os_path_exists (rapt_world proj ks T) ''/rapt/Sdk/platform-tools''"
  "\<not> os_path_exists (rapt_world proj ks T) ''/rapt/Sdk/platforms/android-30''"
  by (simp_all add: os_path_exists_def rapt_world_def resolve_def tools_def)

lemma joined:
  "path_join ''/rapt/Sdk'' ''platform-tools'' = ''/rapt/Sdk/platform-tools''"
  "path_join ''/rapt/Sdk'' ''platforms/android-30'' = ''/rapt/Sdk/platforms/android-30''"
  by (simp_all add: path_join_def)

lemma get_packages_rapt:
  "get_packages (keytool_env b) demo_plat (rapt_world proj ks T)
     = (Inr (), rapt_world proj ks (T @ package_events))"
  by (simp add: get_packages_def wanted_packages_def demo_tools joined packages_missing seq_def bind_def
      interface_info_def interface_success_def emit_rapt run_slow_tool return_def no_kwargs_def
      package_events_def)

lemma provision_rapt:
  "provision_sdk (keytool_env b) demo_plat (rapt_world proj ks T)
     = (Inr (), rapt_world proj ks (T @ provision_events))"
  by (simp add: provision_sdk_def seq_def bind_def copy_rapt check_java_rapt unpack_rapt
      get_packages_rapt provision_events_def)

lemma put_keystore:
  assumes "x = ''android.keystore'' \<or> x = ''bundle.keystore''"
  shows "put [''rapt'', x] n (fs (rapt_world proj ks T)) = Some (fs (rapt_world proj (AList.update x n ks) T))"
  using assms by (auto simp: rapt_world_def)

lemma keytool_args_nth:
  "keytool_args P x dn ! 3 = x" "keytool_args P x dn ! 15 = dn"
  by (simp_all add: keytool_args_def)

lemma is_keytool_call_args: "is_keytool_call P (keytool_args P x dn)"
  by (simp add: is_keytool_call_def keytool_args_nth)

lemma keytool_effect_rapt:
  assumes "x = ''android.keystore'' \<or> x = ''bundle.keystore''"
  shows "keytool_effect (keytool_args demo_plat x dn) (fs (rapt_world proj ks T))
     = fs (rapt_world proj (AList.update x (File ''key'' None) ks) T)"
  using assms by (auto simp: keytool_effect_def is_keytool_call_args keytool_args_nth put_keystore)

lemma rapt_world_fs_trace2:
  "(rapt_world proj ks T)\<lparr> fs := fs (rapt_world proj' ks' T), trace := T' \<rparr> = rapt_world proj' ks' T'"
  by (simp add: rapt_world_def)

lemma run_keytool:
  assumes "x = ''android.keystore'' \<or> x = ''bundle.keystore''"
  shows "run (keytool_env b) (keytool_args demo_plat x dn) kw (rapt_world proj ks T)
     = (Inr True, rapt_world proj (AList.update x (File ''key'' None) ks)
                    (T @ [Call (keytool_args demo_plat x dn) kw]))"
  by (simp add: run_def interface_call_def keytool_env_def demo_env_def rapt_world_sel
      keytool_effect_rapt [OF assms] rapt_world_fs_trace2)

lemma answers:
  "yesno (keytool_env b) m = b" "input (keytool_env b) m = ''Me''"
  by (simp_all add: keytool_env_def demo_env_def)

lemma create_android_key_accepted:
  "create_android_key (keytool_env True) demo_plat (rapt_world proj ks T)
     = (Inr (), rapt_world proj (AList.update ''android.keystore'' (File ''key'' None) ks)
                  (T @ android_key_events))"
  by (simp add: create_android_key_def bind_def seq_def interface_yesno_def interface_input_def
      answers rapt_world_sel rapt_world_trace run_keytool return_def interface_success_def emit_rapt
      no_kwargs_def android_key_events_def)

lemma create_bundle_key_rapt:
  "create_bundle_key (keytool_env b) demo_plat (rapt_world proj ks T)
     = (Inr (), rapt_world proj (AList.update ''bundle.keystore'' (File ''key'' None) ks)
                  (T @ bundle_key_events))"
  by (simp add: create_bundle_key_def bind_def run_keytool return_def no_kwargs_def
      bundle_key_events_def)

lemma generate_keys_reaches:
  assumes "seed_defaults (local_properties P) (replace_backslash (path P ''android.keystore'')) w
             = (Inr (), ws)"
    and "get_property (local_properties P) ''key.store'' ws
             = Inr (Some (replace_backslash (path P ''android.keystore'')))"
    and "\<not> os_path_exists ws (path P ''android.keystore'')"
  shows "generate_keys E P w = create_android_key E P ws"
  using assms(2,3) by (simp add: generate_keys_after_seed [OF assms(1)])

lemma generate_bundle_keys_reaches:
  assumes "seed_defaults (bundle_properties P) (replace_backslash (path P ''bundle.keystore'')) w
             = (Inr (), ws)"
    and "get_property (bundle_properties P) ''key.store'' ws
             = Inr (Some (replace_backslash (path P ''bundle.keystore'')))"
    and "\<not> os_path_exists ws (path P ''bundle.keystore'')"
  shows "generate_bundle_keys E P w = create_bundle_key E P ws"
  using assms(2,3) by (simp add: generate_bundle_keys_after_seed [OF assms(1)])

lemma generate_keys_skips:
  assumes "seed_defaults (local_properties P) (replace_backslash (path P ''android.keystore'')) w
             = (Inr (), ws)"
    and "get_property (local_properties P) ''key.store'' ws
             = Inr (Some (replace_backslash (path P ''android.keystore'')))"
    and "os_path_exists ws (path P ''android.keystore'')"
  shows "generate_keys E P w = interface_info Keystore_already_created ws"
  using assms(2,3) by (simp add: generate_keys_after_seed [OF assms(1)])

lemma generate_bundle_keys_skips:
  assumes "seed_defaults (bundle_properties P) (replace_backslash (path P ''bundle.keystore'')) w
             = (Inr (), ws)"
    and "get_property (bundle_properties P) ''key.store'' ws
             = Inr (Some (replace_backslash (path P ''bundle.keystore'')))"
    and "os_path_exists ws (path P ''bundle.keystore'')"
  shows "generate_bundle_keys E P w = (Inr (), ws)"
  using assms(2,3) by (simp add: generate_bundle_keys_after_seed [OF assms(1)])

lemma seeded_file_lines:
  assumes "unbroken dk"
  shows "file_lines (seeded_lines dk)
     = [property_line ''key.alias'' ''android'', property_line ''key.store.password'' ''android'',
        property_line ''key.alias.password'' ''android'', property_line ''key.store'' dk]"
proof -
  let ?ls = "[property_line ''key.alias'' ''android'', property_line ''key.store.password'' ''android'',
        property_line ''key.alias.password'' ''android'', property_line ''key.store'' dk]"
  have "\<forall>l\<in>set ?ls. is_line l"
    using is_line_property_line [OF key_literals(3) key_literals(16)]
      is_line_property_line [OF key_literals(6) key_literals(16)]
      is_line_property_line [OF key_literals(9) key_literals(16)]
      is_line_property_line [OF key_literals(12) assms] by simp
  then have "file_lines (concat ?ls) = ?ls" by (rule file_lines_concat)
  then show ?thesis by (simp add: seeded_lines_def)
qed

lemma settled_file_lines:
  assumes "unbroken dk" and "unbroken X"
  shows "file_lines (seeded_lines dk @ property_line ''sdk.dir'' X)
     = [property_line ''key.alias'' ''android'', property_line ''key.store.password'' ''android'',
        property_line ''key.alias.password'' ''android'', property_line ''key.store'' dk,
        property_line ''sdk.dir'' X]"
proof -
  let ?ls = "[property_line ''key.alias'' ''android'', property_line ''key.store.password'' ''android'',
        property_line ''key.alias.password'' ''android'', property_line ''key.store'' dk,
        property_line ''sdk.dir'' X]"
  have "\<forall>l\<in>set ?ls. is_line l"
    using is_line_property_line [OF key_literals(3) key_literals(16)]
      is_line_property_line [OF key_literals(6) key_literals(16)]
      is_line_property_line [OF key_literals(9) key_literals(16)]
      is_line_property_line [OF key_literals(12) assms(1)]
      is_line_property_line [OF key_literals(15) assms(2)] by simp
  then have "file_lines (concat ?ls) = ?ls" by (rule file_lines_concat)
  then show ?thesis by (simp add: seeded_lines_def)
qed

lemma default_line_keys:
  "line_key (property_line ''key.alias'' v) = ''key.alias''"
  "line_key (property_line ''key.store.password'' v) = ''key.store.password''"
  "line_key (property_line ''key.alias.password'' v) = ''key.alias.password''"
  "line_key (property_line ''key.store'' v) = ''key.store''"
  "line_key (property_line ''sdk.dir'' v) = ''sdk.dir''"
  using line_key_property_line [OF key_literals(1) key_literals(2)]
    line_key_property_line [OF key_literals(4) key_literals(5)]
    line_key_property_line [OF key_literals(7) key_literals(8)]
    line_key_property_line [OF key_literals(10) key_literals(11)]
    line_key_property_line [OF key_literals(13) key_literals(14)] by simp_all

lemma stored_seeded:
  assumes "unbroken dk" and "strip dk = dk"
  shows "first_value ''key.store'' (file_lines (seeded_lines dk)) = Some dk"
    and "unbroken X \<Longrightarrow>
         first_value ''key.store'' (file_lines (seeded_lines dk @ property_line ''sdk.dir'' X)) = Some dk"
proof -
  have v: "line_value (property_line ''key.store'' dk) = dk"
    using line_value_property_line [OF assms(2) key_literals(11)] .
  show "first_value ''key.store'' (file_lines (seeded_lines dk)) = Some dk"
    by (simp add: seeded_file_lines [OF assms(1)] default_line_keys v)
  assume "unbroken X"
  then show "first_value ''key.store'' (file_lines (seeded_lines dk @ property_line ''sdk.dir'' X)) = Some dk"
    by (simp add: settled_file_lines [OF assms(1)] default_line_keys v)
qed

lemma replace_sdk_dir:
  assumes "unbroken dk"
  shows "keep_lines ''sdk.dir'' True (file_lines (seeded_lines dk)) = Some (file_lines (seeded_lines dk))"
    and "unbroken X \<Longrightarrow>
         keep_lines ''sdk.dir'' True (file_lines (seeded_lines dk @ property_line ''sdk.dir'' X))
           = Some (file_lines (seeded_lines dk))"
proof -
  show "keep_lines ''sdk.dir'' True (file_lines (seeded_lines dk)) = Some (file_lines (seeded_lines dk))"
    by (simp add: seeded_file_lines [OF assms] default_line_keys)
  assume "unbroken X"
  then show "keep_lines ''sdk.dir'' True (file_lines (seeded_lines dk @ property_line ''sdk.dir'' X))
           = Some (file_lines (seeded_lines dk))"
    by (simp add: settled_file_lines [OF assms] seeded_file_lines [OF assms] default_line_keys)
qed

lemma defaults_present:
  assumes "unbroken dk" and "unbroken X" and "k \<in> set default_keys"
  shows "keep_lines k False (file_lines (seeded_lines dk @ property_line ''sdk.dir'' X)) = None"
  using assms(3)
  by (auto simp: settled_file_lines [OF assms(1,2)] default_line_keys default_keys_def)

lemma plain_paths:
  "unbroken ''/rapt/android.keystore''" "strip ''/rapt/android.keystore'' = ''/rapt/android.keystore''"
  "unbroken ''/rapt/bundle.keystore''" "strip ''/rapt/bundle.keystore'' = ''/rapt/bundle.keystore''"
  "unbroken ''/rapt/Sdk''"
  by (simp_all add: strip_def is_space_def unbroken_def newline_def carriage_return_def)

lemma keystore_exists_rapt:
  "os_path_exists (rapt_world proj ks T) ''/rapt/android.keystore'' = (map_of ks ''android.keystore'' \<noteq> None)"
  "os_path_exists (rapt_world proj ks T) ''/rapt/bundle.keystore'' = (map_of ks ''bundle.keystore'' \<noteq> None)"
  by (simp_all add: os_path_exists_def rapt_world_def demo_resolved split: option.splits)

lemma seed_project_settled:
  assumes r: "resolve [] f = [''rapt'', ''project'', x]"
    and m: "map_of proj x = Some (File (seeded_lines dk @ property_line ''sdk.dir'' X) None)"
    and n: "unbroken dk" "unbroken X"
  shows "seed_defaults f dk' (rapt_world proj ks T) = (Inr (), rapt_world proj ks T)"
proof -
  have "\<And>k v. k \<in> set default_keys \<Longrightarrow>
      set_property f k v False (rapt_world proj ks T) = (Inr (), rapt_world proj ks T)"
    using set_project_noop [OF r m defaults_present [OF n]] by blast
  then show ?thesis by (simp add: seed_defaults_def seq_def bind_def default_keys_def)
qed

lemma gk_fresh_decline:
  "generate_keys (keytool_env False) demo_plat (rapt_world [] [] T)
     = (Inr (), rapt_world [(''local.properties'', File (seeded_lines ''/rapt/android.keystore'') None)] []
                  (T @ [Yesno Want_to_create_key False]))"
proof -
  let ?ws = "rapt_world [(''local.properties'', File (seeded_lines ''/rapt/android.keystore'') None)] [] T"
  have seed: "seed_defaults (local_properties demo_plat)
      (replace_backslash (path demo_plat ''android.keystore'')) (rapt_world [] [] T) = (Inr (), ?ws)"
    using seed_project_fresh [OF project_resolved(1), of "[]" "''/rapt/android.keystore''" "[]" T]
    by (simp add: demo_paths demo_dk)
  have get: "get_property (local_properties demo_plat) ''key.store'' ?ws
      = Inr (Some (replace_backslash (path demo_plat ''android.keystore'')))"
    using get_project [OF project_resolved(1), of _ "seeded_lines ''/rapt/android.keystore''" "''key.store''" "[]" T]
    by (simp add: demo_paths demo_dk stored_seeded(1) [OF plain_paths(1,2)])
  have nokey: "\<not> os_path_exists ?ws (path demo_plat ''android.keystore'')"
    by (simp add: demo_paths keystore_exists_rapt)
  have d: "\<not> yesno (keytool_env False) Want_to_create_key \<or> \<not> yesno (keytool_env False) Will_you_backup"
    by (simp add: answers)
  show ?thesis
    by (simp add: generate_keys_reaches [OF seed get nokey] create_android_key_declined [OF d]
        answers rapt_world_sel rapt_world_trace)
qed

lemma gk_fresh_accept:
  "generate_keys (keytool_env True) demo_plat (rapt_world [] [] T)
     = (Inr (), rapt_world [(''local.properties'', File (seeded_lines ''/rapt/android.keystore'') None)]
                  [(''android.keystore'', File ''key'' None)] (T @ android_key_events))"
proof -
  let ?ws = "rapt_world [(''local.properties'', File (seeded_lines ''/rapt/android.keystore'') None)] [] T"
  have seed: "seed_defaults (local_properties demo_plat)
      (replace_backslash (path demo_plat ''android.keystore'')) (rapt_world [] [] T) = (Inr (), ?ws)"
    using seed_project_fresh [OF project_resolved(1), of "[]" "''/rapt/android.keystore''" "[]" T]
    by (simp add: demo_paths demo_dk)
  have get: "get_property (local_properties demo_plat) ''key.store'' ?ws
      = Inr (Some (replace_backslash (path demo_plat ''android.keystore'')))"
    using get_project [OF project_resolved(1), of _ "seeded_lines ''/rapt/android.keystore''" "''key.store''" "[]" T]
    by (simp add: demo_paths demo_dk stored_seeded(1) [OF plain_paths(1,2)])
  have nokey: "\<not> os_path_exists ?ws (path demo_plat ''android.keystore'')"
    by (simp add: demo_paths keystore_exists_rapt)
  show ?thesis
    by (simp add: generate_keys_reaches [OF seed get nokey] create_android_key_accepted)
qed

lemma gbk_fresh:
  assumes "map_of ks ''bundle.keystore'' = None"
  shows "generate_bundle_keys (keytool_env b) demo_plat (rapt_world [(''local.properties'', n)] ks T)
     = (Inr (), rapt_world [(''local.properties'', n),
                            (''bundle.properties'', File (seeded_lines ''/rapt/bundle.keystore'') None)]
                  (AList.update ''bundle.keystore'' (File ''key'' None) ks) (T @ bundle_key_events))"
proof -
  let ?ws = "rapt_world [(''local.properties'', n),
                            (''bundle.properties'', File (seeded_lines ''/rapt/bundle.keystore'') None)] ks T"
  have seed: "seed_defaults (bundle_properties demo_plat)
      (replace_backslash (path demo_plat ''bundle.keystore'')) (rapt_world [(''local.properties'', n)] ks T)
       = (Inr (), ?ws)"
    using seed_project_fresh [OF project_resolved(2), of "[(''local.properties'', n)]"
        "''/rapt/bundle.keystore''" ks T]
    by (simp add: demo_paths demo_dk)
  have get: "get_property (bundle_properties demo_plat) ''key.store'' ?ws
      = Inr (Some (replace_backslash (path demo_plat ''bundle.keystore'')))"
    using get_project [OF project_resolved(2), of _ "seeded_lines ''/rapt/bundle.keystore''" "''key.store''" ks T]
    by (simp add: demo_paths demo_dk stored_seeded(1) [OF plain_paths(3,4)])
  have nokey: "\<not> os_path_exists ?ws (path demo_plat ''bundle.keystore'')"
    using assms by (simp add: demo_paths keystore_exists_rapt)
  show ?thesis
    by (simp add: generate_bundle_keys_reaches [OF seed get nokey] create_bundle_key_rapt)
qed

lemma settled_project_map:
  "map_of settled_project ''local.properties''
     = Some (File (seeded_lines ''/rapt/android.keystore'' @ property_line ''sdk.dir'' ''/rapt/Sdk'') None)"
  "map_of settled_project ''bundle.properties''
     = Some (File (seeded_lines ''/rapt/bundle.keystore'' @ property_line ''sdk.dir'' ''/rapt/Sdk'') None)"
  by (simp_all add: settled_project_def)

lemma gk_settled_seed:
  "seed_defaults (local_properties demo_plat) (replace_backslash (path demo_plat ''android.keystore''))
      (rapt_world settled_project ks T) = (Inr (), rapt_world settled_project ks T)"
  using seed_project_settled [OF project_resolved(1) settled_project_map(1) plain_paths(1) plain_paths(5)]
  by (simp add: demo_paths)

lemma gk_settled_get:
  "get_property (local_properties demo_plat) ''key.store'' (rapt_world settled_project ks T)
      = Inr (Some (replace_backslash (path demo_plat ''android.keystore'')))"
  using get_project [OF project_resolved(1) settled_project_map(1), of "''key.store''" ks T]
  by (simp add: demo_paths demo_dk stored_seeded(2) [OF plain_paths(1,2) plain_paths(5)])

lemma gbk_settled_seed:
  "seed_defaults (bundle_properties demo_plat) (replace_backslash (path demo_plat ''bundle.keystore''))
      (rapt_world settled_project ks T) = (Inr (), rapt_world settled_project ks T)"
  using seed_project_settled [OF project_resolved(2) settled_project_map(2) plain_paths(3) plain_paths(5)]
  by (simp add: demo_paths)

lemma gbk_settled_get:
  "get_property (bundle_properties demo_plat) ''key.store'' (rapt_world settled_project ks T)
      = Inr (Some (replace_backslash (path demo_plat ''bundle.keystore'')))"
  using get_project [OF project_resolved(2) settled_project_map(2), of "''key.store''" ks T]
  by (simp add: demo_paths demo_dk stored_seeded(2) [OF plain_paths(3,4) plain_paths(5)])

lemma gk_settled_accept:
  assumes "map_of ks ''android.keystore'' = None"
  shows "generate_keys (keytool_env True) demo_plat (rapt_world settled_project ks T)
     = (Inr (), rapt_world settled_project (AList.update ''android.keystore'' (File ''key'' None) ks)
                  (T @ android_key_events))"
proof -
  have nokey: "\<not> os_path_exists (rapt_world settled_project ks T) (path demo_plat ''android.keystore'')"
    using assms by (simp add: demo_paths keystore_exists_rapt)
  show ?thesis
    by (simp add: generate_keys_reaches [OF gk_settled_seed gk_settled_get nokey]
        create_android_key_accepted)
qed

lemma gk_settled_skip:
  assumes "map_of ks ''android.keystore'' \<noteq> None"
  shows "generate_keys E demo_plat (rapt_world settled_project ks T)
     = (Inr (), rapt_world settled_project ks (T @ [Info Keystore_already_created]))"
proof -
  have key: "os_path_exists (rapt_world settled_project ks T) (path demo_plat ''android.keystore'')"
    using assms by (simp add: demo_paths keystore_exists_rapt)
  show ?thesis
    by (simp add: generate_keys_skips [OF gk_settled_seed gk_settled_get key] rapt_world_sel rapt_world_trace
        interface_info_eq)
qed

lemma gbk_settled_skip:
  assumes "map_of ks ''bundle.keystore'' \<noteq> None"
  shows "generate_bundle_keys E demo_plat (rapt_world settled_project ks T)
     = (Inr (), rapt_world settled_project ks T)"
proof -
  have key: "os_path_exists (rapt_world settled_project ks T) (path demo_plat ''bundle.keystore'')"
    using assms by (simp add: demo_paths keystore_exists_rapt)
  show ?thesis
    by (simp add: generate_bundle_keys_skips [OF gbk_settled_seed gbk_settled_get key])
qed

lemma sdk_literal: "replace_backslash (sdk demo_plat) = ''/rapt/Sdk''"
  by (simp add: demo_plat_def replace_backslash_def)

lemma persist_seeded:
  "persist_sdk_dir demo_plat (rapt_world seeded_project ks T)
     = (Inr (), rapt_world settled_project ks (T @ [Final_success Ready_to_package]))"
proof -
  let ?m = "[(''local.properties'',
         File (seeded_lines ''/rapt/android.keystore'' @ property_line ''sdk.dir'' ''/rapt/Sdk'') None),
      (''bundle.properties'', File (seeded_lines ''/rapt/bundle.keystore'') None)]"
  have a: "set_property (local_properties demo_plat) ''sdk.dir'' ''/rapt/Sdk'' True
        (rapt_world seeded_project ks T) = (Inr (), rapt_world ?m ks T)"
    using set_project_write [OF project_resolved(1) _ replace_sdk_dir(1) [OF plain_paths(1)],
        of seeded_project "''/rapt/Sdk''" ks T]
    by (simp add: seeded_project_def concat_file_lines_plain plain_seeded_lines plain_property_line plain_paths key_literals demo_paths)
  have b: "set_property (bundle_properties demo_plat) ''sdk.dir'' ''/rapt/Sdk'' True
        (rapt_world ?m ks T) = (Inr (), rapt_world settled_project ks T)"
    using set_project_write [OF project_resolved(2) _ replace_sdk_dir(1) [OF plain_paths(3)],
        of ?m "''/rapt/Sdk''" ks T]
    by (simp add: settled_project_def concat_file_lines_plain plain_seeded_lines plain_property_line plain_paths key_literals demo_paths)
  show ?thesis
    by (simp add: persist_sdk_dir_def sdk_literal seq_def bind_def a b emit_rapt
        interface_final_success_def)
qed

lemma persist_settled:
  "persist_sdk_dir demo_plat (rapt_world settled_project ks T)
     = (Inr (), rapt_world settled_project ks (T @ [Final_success Ready_to_package]))"
proof -
  have a: "set_property (local_properties demo_plat) ''sdk.dir'' ''/rapt/Sdk'' True
        (rapt_world settled_project ks T) = (Inr (), rapt_world settled_project ks T)"
    using set_project_write [OF project_resolved(1) settled_project_map(1)
        replace_sdk_dir(2) [OF plain_paths(1) plain_paths(5)], of "''/rapt/Sdk''" ks T]
    by (simp add: settled_project_def concat_file_lines_plain plain_seeded_lines plain_property_line plain_paths key_literals demo_paths)
  have b: "set_property (bundle_properties demo_plat) ''sdk.dir'' ''/rapt/Sdk'' True
        (rapt_world settled_project ks T) = (Inr (), rapt_world settled_project ks T)"
    using set_project_write [OF project_resolved(2) settled_project_map(2)
        replace_sdk_dir(2) [OF plain_paths(3) plain_paths(5)], of "''/rapt/Sdk''" ks T]
    by (simp add: settled_project_def concat_file_lines_plain plain_seeded_lines plain_property_line plain_paths key_literals demo_paths)
  show ?thesis
    by (simp add: persist_sdk_dir_def sdk_literal seq_def bind_def a b emit_rapt
        interface_final_success_def)
qed

lemma run_declined:
  "install_sdk (keytool_env False) demo_plat (rapt_world [] [] []) = (Inr (), declined_world)"
proof -
  have p: "provision_sdk (keytool_env False) demo_plat (rapt_world [] [] [])
      = (Inr (), rapt_world [] [] provision_events)"
    using provision_rapt [of False "[]" "[]" "[]"] by simp
  have b: "generate_bundle_keys (keytool_env False) demo_plat
        (rapt_world [(''local.properties'', File (seeded_lines ''/rapt/android.keystore'') None)] []
           (provision_events @ [Yesno Want_to_create_key False]))
     = (Inr (), rapt_world seeded_project [(''bundle.keystore'', File ''key'' None)]
                  ((provision_events @ [Yesno Want_to_create_key False]) @ bundle_key_events))"
    using gbk_fresh [of "[]" False] by (simp add: seeded_project_def)
  show ?thesis
    by (simp add: install_sdk_split seq_def bind_def p gk_fresh_decline b persist_seeded
        declined_world_def declined_events_def)
qed

lemma run_late_key:
  "install_sdk (keytool_env True) demo_plat declined_world = (Inr (), late_key_world)"
proof -
  let ?ks = "[(''bundle.keystore'', File ''key'' None)]"
  have g: "generate_keys (keytool_env True) demo_plat
        (rapt_world settled_project ?ks (declined_events @ provision_events))
     = (Inr (), rapt_world settled_project
          [(''bundle.keystore'', File ''key'' None), (''android.keystore'', File ''key'' None)]
          (declined_events @ provision_events @ android_key_events))"
    using gk_settled_accept [of ?ks] by simp
  have b: "generate_bundle_keys (keytool_env True) demo_plat
        (rapt_world settled_project
          [(''bundle.keystore'', File ''key'' None), (''android.keystore'', File ''key'' None)]
          (declined_events @ provision_events @ android_key_events))
     = (Inr (), rapt_world settled_project
          [(''bundle.keystore'', File ''key'' None), (''android.keystore'', File ''key'' None)]
          (declined_events @ provision_events @ android_key_events))"
    by (rule gbk_settled_skip) simp
  show ?thesis
    unfolding declined_world_def late_key_world_def late_key_events_def
    by (simp add: install_sdk_split seq_def bind_def provision_rapt g b persist_settled)
qed

lemma run_accepted:
  "install_sdk (keytool_env True) demo_plat (rapt_world [] [] []) = (Inr (), accepted_world)"
proof -
  have p: "provision_sdk (keytool_env True) demo_plat (rapt_world [] [] [])
      = (Inr (), rapt_world [] [] provision_events)"
    using provision_rapt [of True "[]" "[]" "[]"] by simp
  have b: "generate_bundle_keys (keytool_env True) demo_plat
        (rapt_world [(''local.properties'', File (seeded_lines ''/rapt/android.keystore'') None)]
           [(''android.keystore'', File ''key'' None)]
           (provision_events @ android_key_events))
     = (Inr (), rapt_world seeded_project
          [(''android.keystore'', File ''key'' None), (''bundle.keystore'', File ''key'' None)]
          ((provision_events @ android_key_events) @ bundle_key_events))"
    using gbk_fresh [of "[(''android.keystore'', File ''key'' None)]" True]
    by (simp add: seeded_project_def)
  show ?thesis
    by (simp add: install_sdk_split seq_def bind_def p gk_fresh_accept b persist_seeded
        accepted_world_def accepted_events_def)
qed

lemma run_idle:
  "install_sdk (keytool_env True) demo_plat accepted_world = (Inr (), idle_world)"
proof -
  let ?ks = "[(''android.keystore'', File ''key'' None), (''bundle.keystore'', File ''key'' None)]"
  have g: "generate_keys (keytool_env True) demo_plat
        (rapt_world settled_project ?ks (accepted_events @ provision_events))
     = (Inr (), rapt_world settled_project ?ks
          (accepted_events @ provision_events @ [Info Keystore_already_created]))"
    using gk_settled_skip [of ?ks "keytool_env True" "accepted_events @ provision_events"] by simp
  have b: "generate_bundle_keys (keytool_env True) demo_plat
        (rapt_world settled_project ?ks
          (accepted_events @ provision_events @ [Info Keystore_already_created]))
     = (Inr (), rapt_world settled_project ?ks
          (accepted_events @ provision_events @ [Info Keystore_already_created]))"
    by (rule gbk_settled_skip) simp
  show ?thesis
    unfolding accepted_world_def idle_world_def idle_events_def
    by (simp add: install_sdk_split seq_def bind_def provision_rapt g b persist_settled)
qed

lemma late_key_calls:
  "filter (is_keytool_call demo_plat) (calls late_key_events)
     = [keytool_args demo_plat ''android.keystore'' ''CN=Me'']"
  by (simp add: late_key_events_def provision_events_def java_events_def package_events_def
      android_key_events_def calls_append short_not_keytool is_keytool_call_args)

lemma demo_files:
  "local_file demo_plat (rapt_world proj ks T) = [''rapt'', ''project'', ''local.properties'']"
  "bundle_file demo_plat (rapt_world proj ks T) = [''rapt'', ''project'', ''bundle.properties'']"
  "android_keystore_file demo_plat (rapt_world proj ks T) = [''rapt'', ''android.keystore'']"
  "bundle_keystore_file demo_plat (rapt_world proj ks T) = [''rapt'', ''bundle.keystore'']"
  "sdkmanager_file demo_plat (rapt_world proj ks T)
     = [''rapt'', ''Sdk'', ''cmdline-tools'', ''latest'', ''bin'', ''sdkmanager'']"
  "sdk_directory demo_plat (rapt_world proj ks T) = [''rapt'', ''Sdk'']"
  by (simp_all add: local_file_def bundle_file_def android_keystore_file_def
      bundle_keystore_file_def sdkmanager_file_def sdk_directory_def rapt_world_sel demo_paths
      demo_resolved demo_tools demo_dot resolve_def)

lemma demo_well_placed: "well_placed demo_plat (rapt_world proj ks T)"
  by (simp add: well_placed_def demo_files apart_def demo_paths demo_tools plain_paths)

lemma fresh_complete:
  "complete_lines (rapt_world [] ks T) (local_properties demo_plat)"
  "complete_lines (rapt_world [] ks T) (bundle_properties demo_plat)"
  using read_project_missing [OF project_resolved(1), of "[]" ks T]
    read_project_missing [OF project_resolved(2), of "[]" ks T]
  by (simp_all add: complete_lines_def demo_paths lookup_project)

lemma keytool_effect_apart:
  assumes "\<not> prefix [''rapt'', ''android.keystore''] q" "\<not> prefix q [''rapt'', ''android.keystore'']"
    and "\<not> prefix [''rapt'', ''bundle.keystore''] q" "\<not> prefix q [''rapt'', ''bundle.keystore'']"
  shows "lookup (keytool_effect args t) q = lookup t q"
proof (cases "is_keytool_call demo_plat args \<and> args ! 3 \<in> set [''android.keystore'', ''bundle.keystore'']")
  case False
  then show ?thesis by (simp only: keytool_effect_def if_False)
next
  case True
  show ?thesis
  proof (cases "put [''rapt'', args ! 3] (File ''key'' None) t")
    case None
    then show ?thesis using True by (simp add: keytool_effect_def)
  next
    case (Some t')
    have "lookup t' q = lookup t q"
      using True assms by (intro lookup_put_other [OF Some]) auto
    then show ?thesis using True Some by (simp add: keytool_effect_def)
  qed
qed

lemma keytool_env_sel:
  "call (keytool_env b) args kw w = (Returned, keytool_effect args (fs w))"
  "copy_project (keytool_env b) u w = Inr (fs w)"
  "download (keytool_env b) url dest w = Inr (fs w)"
  "extractall (keytool_env b) a d w = Inr (fs w)"
  by (simp_all add: keytool_env_def demo_env_def)

lemma keytool_env_first_keeps: "first_run_keeps (keytool_env b) demo_plat (rapt_world proj ks T)"
  by (simp add: first_run_keeps_def demo_files keeps_def unpack_keeps_def keytool_env_sel
      keytool_effect_apart)

lemma keytool_env_second_keeps: "second_run_keeps (keytool_env b) demo_plat (rapt_world proj ks T)"
  by (simp add: second_run_keeps_def watched_def keeps_def quiet_event_def keytool_env_sel
      keytool_effect_other)

lemma accepted_provisioned: "provisioned (keytool_env True) demo_plat accepted_world"
  by (simp add: provisioned_def accepted_world_def demo_tools demo_paths sdkmanager_rapt
      keystore_exists_rapt)

lemma glued_line_facts:
  "is_line glued_line" "line_key glued_line = ''fookey.alias''"
  by (simp_all add: glued_line_def loose_text_def is_line_def line_eval)

lemma plain_loose: "carriage_return \<notin> set loose_text"
  by (simp add: loose_text_def carriage_return_def)

lemma loose_lines: "file_lines loose_text = [loose_text]" "line_key loose_text = ''foo''"
  by (simp_all add: loose_text_def line_eval)

lemma default_lines:
  "is_line (property_line ''key.alias'' ''android'')"
  "is_line (property_line ''key.store.password'' ''android'')"
  "is_line (property_line ''key.alias.password'' ''android'')"
  "unbroken dk \<Longrightarrow> is_line (property_line ''key.store'' dk)"
  "unbroken X \<Longrightarrow> is_line (property_line ''sdk.dir'' X)"
  using is_line_property_line [OF key_literals(3) key_literals(16)]
    is_line_property_line [OF key_literals(6) key_literals(16)]
    is_line_property_line [OF key_literals(9) key_literals(16)]
    is_line_property_line [OF key_literals(12), of dk]
    is_line_property_line [OF key_literals(15), of X] by simp_all

lemma glued_text: "loose_text @ seeded_lines dk = glued_line @ property_line ''key.store.password'' ''android''
     @ property_line ''key.alias.password'' ''android'' @ property_line ''key.store'' dk"
  by (simp add: glued_line_def seeded_lines_def)

lemma glued_file_lines:
  assumes "unbroken dk"
  shows "file_lines (loose_text @ seeded_lines dk)
     = [glued_line, property_line ''key.store.password'' ''android'',
        property_line ''key.alias.password'' ''android'', property_line ''key.store'' dk]"
    and "unbroken X \<Longrightarrow> file_lines (loose_text @ seeded_lines dk @ property_line ''sdk.dir'' X)
     = [glued_line, property_line ''key.store.password'' ''android'',
        property_line ''key.alias.password'' ''android'', property_line ''key.store'' dk,
        property_line ''sdk.dir'' X]"
    and "unbroken X \<Longrightarrow> file_lines (loose_text @ seeded_lines dk @ property_line ''sdk.dir'' X
            @ property_line ''key.alias'' ''android'')
     = [glued_line, property_line ''key.store.password'' ''android'',
        property_line ''key.alias.password'' ''android'', property_line ''key.store'' dk,
        property_line ''sdk.dir'' X, property_line ''key.alias'' ''android'']"
proof -
  let ?p2 = "property_line ''key.store.password'' ''android''"
  let ?p3 = "property_line ''key.alias.password'' ''android''"
  let ?p4 = "property_line ''key.store'' dk"
  let ?a = "[glued_line, ?p2, ?p3, ?p4]"
  have a: "\<forall>l\<in>set ?a. is_line l"
    using assms by (simp add: glued_line_facts default_lines)
  have ea: "concat ?a = loose_text @ seeded_lines dk"
    by (simp add: glued_line_def seeded_lines_def)
  from file_lines_concat [OF a] show "file_lines (loose_text @ seeded_lines dk) = ?a"
    unfolding ea .
  {
    assume X: "unbroken X"
    let ?b = "[glued_line, ?p2, ?p3, ?p4, property_line ''sdk.dir'' X]"
    have b: "\<forall>l\<in>set ?b. is_line l" using a X by (simp add: default_lines)
    have eb: "concat ?b = loose_text @ seeded_lines dk @ property_line ''sdk.dir'' X"
      by (simp add: glued_line_def seeded_lines_def)
    from file_lines_concat [OF b]
    show "file_lines (loose_text @ seeded_lines dk @ property_line ''sdk.dir'' X) = ?b"
      unfolding eb .
    let ?c = "[glued_line, ?p2, ?p3, ?p4, property_line ''sdk.dir'' X,
               property_line ''key.alias'' ''android'']"
    have c: "\<forall>l\<in>set ?c. is_line l" using b by (simp add: default_lines)
    have ec: "concat ?c = loose_text @ seeded_lines dk @ property_line ''sdk.dir'' X
            @ property_line ''key.alias'' ''android''"
      by (simp add: glued_line_def seeded_lines_def)
    from file_lines_concat [OF c]
    show "file_lines (loose_text @ seeded_lines dk @ property_line ''sdk.dir'' X
            @ property_line ''key.alias'' ''android'') = ?c"
      unfolding ec .
  }
qed

lemma seed_project_loose:
  assumes r: "resolve [] f = [''rapt'', ''project'', x]"
    and m: "map_of proj x = Some (File loose_text None)"
  shows "seed_defaults f dk (rapt_world proj ks T)
     = (Inr (), rapt_world (AList.update x (File (loose_text @ seeded_lines dk) None) proj) ks T)"
proof -
  let ?p1 = "property_line ''key.alias'' ''android''"
  let ?p2 = "property_line ''key.store.password'' ''android''"
  let ?p3 = "property_line ''key.alias.password'' ''android''"
  have k1: "keep_lines ''key.alias'' False (file_lines loose_text) = Some [loose_text]"
    by (simp add: loose_lines)
  have k2: "keep_lines ''key.store.password'' False (file_lines (loose_text @ ?p1))
      = Some [loose_text @ ?p1]"
    by (simp add: loose_text_def line_eval)
  have k3: "keep_lines ''key.alias.password'' False (file_lines (loose_text @ ?p1 @ ?p2))
      = Some [loose_text @ ?p1, ?p2]"
    by (simp add: loose_text_def line_eval)
  have k4: "keep_lines ''key.store'' False (file_lines (loose_text @ ?p1 @ ?p2 @ ?p3))
      = Some [loose_text @ ?p1, ?p2, ?p3]"
    by (simp add: loose_text_def line_eval)
  have s1: "set_property f ''key.alias'' ''android'' False (rapt_world proj ks T)
      = (Inr (), rapt_world (AList.update x (File (loose_text @ ?p1) None) proj) ks T)"
    using set_project_write [OF r m k1, of "''android''" ks T] by simp
  have s2: "set_property f ''key.store.password'' ''android'' False
        (rapt_world (AList.update x (File (loose_text @ ?p1) None) proj) ks T)
      = (Inr (), rapt_world (AList.update x (File (loose_text @ ?p1 @ ?p2) None) proj) ks T)"
    using set_project_write [OF r _ k2, of "AList.update x (File (loose_text @ ?p1) None) proj"
        "''android''" ks T]
    by (simp add: update_conv')
  have s3: "set_property f ''key.alias.password'' ''android'' False
        (rapt_world (AList.update x (File (loose_text @ ?p1 @ ?p2) None) proj) ks T)
      = (Inr (), rapt_world (AList.update x (File (loose_text @ ?p1 @ ?p2 @ ?p3) None) proj) ks T)"
    using set_project_write [OF r _ k3, of "AList.update x (File (loose_text @ ?p1 @ ?p2) None) proj"
        "''android''" ks T]
    by (simp add: update_conv')
  have s4: "set_property f ''key.store'' dk False
        (rapt_world (AList.update x (File (loose_text @ ?p1 @ ?p2 @ ?p3) None) proj) ks T)
      = (Inr (), rapt_world (AList.update x (File (loose_text @ seeded_lines dk) None) proj) ks T)"
    using set_project_write [OF r _ k4, of "AList.update x (File (loose_text @ ?p1 @ ?p2 @ ?p3) None) proj"
        dk ks T]
    by (simp add: update_conv' seeded_lines_def)
  show ?thesis by (simp add: seed_defaults_def seq_def bind_def s1 s2 s3 s4)
qed

lemma glued_keep:
  assumes "unbroken dk" and "unbroken X"
  shows "keep_lines ''key.alias'' False
           (file_lines (loose_text @ seeded_lines dk @ property_line ''sdk.dir'' X))
         = Some (file_lines (loose_text @ seeded_lines dk @ property_line ''sdk.dir'' X))"
    and "k \<in> set [''key.store.password'', ''key.alias.password'', ''key.store''] \<Longrightarrow>
         keep_lines k False
           (file_lines (loose_text @ seeded_lines dk @ property_line ''sdk.dir'' X
              @ property_line ''key.alias'' ''android'')) = None"
    and "keep_lines ''sdk.dir'' True (file_lines (loose_text @ seeded_lines dk))
         = Some (file_lines (loose_text @ seeded_lines dk))"
    and "keep_lines ''sdk.dir'' True
           (file_lines (loose_text @ seeded_lines dk @ property_line ''sdk.dir'' X
              @ property_line ''key.alias'' ''android''))
         = Some (file_lines (loose_text @ seeded_lines dk @ property_line ''key.alias'' ''android''))"
proof -
  have e: "file_lines (loose_text @ seeded_lines dk @ property_line ''key.alias'' ''android'')
      = [glued_line, property_line ''key.store.password'' ''android'',
        property_line ''key.alias.password'' ''android'', property_line ''key.store'' dk,
        property_line ''key.alias'' ''android'']"
  proof -
    let ?c = "[glued_line, property_line ''key.store.password'' ''android'',
        property_line ''key.alias.password'' ''android'', property_line ''key.store'' dk,
        property_line ''key.alias'' ''android'']"
    have c: "\<forall>l\<in>set ?c. is_line l"
      using assms by (simp add: glued_line_facts default_lines)
    have ec: "concat ?c = loose_text @ seeded_lines dk @ property_line ''key.alias'' ''android''"
      by (simp add: glued_line_def seeded_lines_def)
    from file_lines_concat [OF c] show ?thesis unfolding ec .
  qed
  show "keep_lines ''key.alias'' False
           (file_lines (loose_text @ seeded_lines dk @ property_line ''sdk.dir'' X))
         = Some (file_lines (loose_text @ seeded_lines dk @ property_line ''sdk.dir'' X))"
    by (simp add: glued_file_lines(2) [OF assms] glued_line_facts default_line_keys)
  show "keep_lines ''sdk.dir'' True (file_lines (loose_text @ seeded_lines dk))
         = Some (file_lines (loose_text @ seeded_lines dk))"
    by (simp add: glued_file_lines(1) [OF assms(1)] glued_line_facts default_line_keys)
  show "keep_lines ''sdk.dir'' True
           (file_lines (loose_text @ seeded_lines dk @ property_line ''sdk.dir'' X
              @ property_line ''key.alias'' ''android''))
         = Some (file_lines (loose_text @ seeded_lines dk @ property_line ''key.alias'' ''android''))"
    by (simp add: glued_file_lines(3) [OF assms] e glued_line_facts default_line_keys)
  assume "k \<in> set [''key.store.password'', ''key.alias.password'', ''key.store'']"
  then show "keep_lines k False
           (file_lines (loose_text @ seeded_lines dk @ property_line ''sdk.dir'' X
              @ property_line ''key.alias'' ''android'')) = None"
    by (auto simp: glued_file_lines(3) [OF assms] glued_line_facts default_line_keys)
qed

lemma glued_stored:
  assumes "unbroken dk" and "strip dk = dk"
  shows "first_value ''key.store'' (file_lines (loose_text @ seeded_lines dk)) = Some dk"
    and "unbroken X \<Longrightarrow>
         first_value ''key.store'' (file_lines (loose_text @ seeded_lines dk @ property_line ''sdk.dir'' X
              @ property_line ''key.alias'' ''android'')) = Some dk"
proof -
  have v: "line_value (property_line ''key.store'' dk) = dk"
    using line_value_property_line [OF assms(2) key_literals(11)] .
  show "first_value ''key.store'' (file_lines (loose_text @ seeded_lines dk)) = Some dk"
    by (simp add: glued_file_lines(1) [OF assms(1)] glued_line_facts default_line_keys v)
  assume "unbroken X"
  then show "first_value ''key.store'' (file_lines (loose_text @ seeded_lines dk @ property_line ''sdk.dir'' X
              @ property_line ''key.alias'' ''android'')) = Some dk"
    by (simp add: glued_file_lines(3) [OF assms(1)] glued_line_facts default_line_keys v)
qed

lemma seed_project_glued:
  assumes r: "resolve [] f = [''rapt'', ''project'', x]"
    and m: "map_of proj x = Some (File (loose_text @ seeded_lines dk @ property_line ''sdk.dir'' X) None)"
    and n: "unbroken dk" "unbroken X"
  shows "seed_defaults f dk' (rapt_world proj ks T)
     = (Inr (), rapt_world (AList.update x (File (loose_text @ seeded_lines dk
            @ property_line ''sdk.dir'' X @ property_line ''key.alias'' ''android'') None) proj) ks T)"
proof -
  let ?c = "loose_text @ seeded_lines dk @ property_line ''sdk.dir'' X @ property_line ''key.alias'' ''android''"
  let ?proj = "AList.update x (File ?c None) proj"
  have s1: "set_property f ''key.alias'' ''android'' False (rapt_world proj ks T)
      = (Inr (), rapt_world ?proj ks T)"
    using set_project_write [OF r m glued_keep(1) [OF n], of "''android''" ks T] n
    by (simp add: concat_file_lines_plain plain_seeded_lines plain_property_line key_literals
        plain_loose)
  have m': "map_of ?proj x = Some (File ?c None)" by (simp add: update_conv')
  have s: "\<And>k v. k \<in> set [''key.store.password'', ''key.alias.password'', ''key.store''] \<Longrightarrow>
      set_property f k v False (rapt_world ?proj ks T) = (Inr (), rapt_world ?proj ks T)"
    using set_project_noop [OF r m' glued_keep(2) [OF n]] by blast
  show ?thesis by (simp add: seed_defaults_def seq_def bind_def s1 s)
qed

lemma persist_project:
  assumes "keep_lines ''sdk.dir'' True (file_lines cl) = Some ll"
    and "keep_lines ''sdk.dir'' True (file_lines cb) = Some lb"
  shows "persist_sdk_dir demo_plat
           (rapt_world [(''local.properties'', File cl None), (''bundle.properties'', File cb None)] ks T)
     = (Inr (), rapt_world
          [(''local.properties'', File (concat ll @ property_line ''sdk.dir'' ''/rapt/Sdk'') None),
           (''bundle.properties'', File (concat lb @ property_line ''sdk.dir'' ''/rapt/Sdk'') None)]
          ks (T @ [Final_success Ready_to_package]))"
proof -
  let ?p = "[(''local.properties'', File cl None), (''bundle.properties'', File cb None)]"
  let ?m = "[(''local.properties'', File (concat ll @ property_line ''sdk.dir'' ''/rapt/Sdk'') None),
             (''bundle.properties'', File cb None)]"
  have a: "set_property (local_properties demo_plat) ''sdk.dir'' ''/rapt/Sdk'' True
        (rapt_world ?p ks T) = (Inr (), rapt_world ?m ks T)"
    using set_project_write [OF project_resolved(1) _ assms(1), of ?p "''/rapt/Sdk''" ks T]
    by (simp add: demo_paths)
  have b: "set_property (bundle_properties demo_plat) ''sdk.dir'' ''/rapt/Sdk'' True
        (rapt_world ?m ks T) = (Inr (), rapt_world
          [(''local.properties'', File (concat ll @ property_line ''sdk.dir'' ''/rapt/Sdk'') None),
           (''bundle.properties'', File (concat lb @ property_line ''sdk.dir'' ''/rapt/Sdk'') None)] ks T)"
    using set_project_write [OF project_resolved(2) _ assms(2), of ?m "''/rapt/Sdk''" ks T]
    by (simp add: demo_paths)
  show ?thesis
    by (simp add: persist_sdk_dir_def sdk_literal seq_def bind_def a b emit_rapt
        interface_final_success_def)
qed

lemma gk_loose:
  "generate_keys (keytool_env True) demo_plat
       (rapt_world [(''local.properties'', File loose_text None)] [] T)
     = (Inr (), rapt_world
          [(''local.properties'', File (loose_text @ seeded_lines ''/rapt/android.keystore'') None)]
          [(''android.keystore'', File ''key'' None)] (T @ android_key_events))"
proof -
  let ?ws = "rapt_world
      [(''local.properties'', File (loose_text @ seeded_lines ''/rapt/android.keystore'') None)] [] T"
  have seed: "seed_defaults (local_properties demo_plat)
      (replace_backslash (path demo_plat ''android.keystore''))
      (rapt_world [(''local.properties'', File loose_text None)] [] T) = (Inr (), ?ws)"
    using seed_project_loose [OF project_resolved(1),
        of "[(''local.properties'', File loose_text None)]" "''/rapt/android.keystore''" "[]" T]
    by (simp add: demo_paths demo_dk)
  have get: "get_property (local_properties demo_plat) ''key.store'' ?ws
      = Inr (Some (replace_backslash (path demo_plat ''android.keystore'')))"
    using get_project [OF project_resolved(1),
        of _ "loose_text @ seeded_lines ''/rapt/android.keystore''" "''key.store''" "[]" T]
    by (simp add: demo_paths demo_dk glued_stored(1) [OF plain_paths(1,2)])
  have nokey: "\<not> os_path_exists ?ws (path demo_plat ''android.keystore'')"
    by (simp add: demo_paths keystore_exists_rapt)
  show ?thesis
    by (simp add: generate_keys_reaches [OF seed get nokey] create_android_key_accepted)
qed

lemma run_loose:
  "install_sdk (keytool_env True) demo_plat
       (rapt_world [(''local.properties'', File loose_text None)] [] [])
     = (Inr (), rapt_world glued_project both_keystores accepted_events)"
proof -
  have p: "provision_sdk (keytool_env True) demo_plat
        (rapt_world [(''local.properties'', File loose_text None)] [] [])
      = (Inr (), rapt_world [(''local.properties'', File loose_text None)] [] provision_events)"
    using provision_rapt [of True "[(''local.properties'', File loose_text None)]" "[]" "[]"] by simp
  have b: "generate_bundle_keys (keytool_env True) demo_plat
        (rapt_world [(''local.properties'', File (loose_text @ seeded_lines ''/rapt/android.keystore'') None)]
           [(''android.keystore'', File ''key'' None)]
           (provision_events @ android_key_events))
     = (Inr (), rapt_world
          [(''local.properties'', File (loose_text @ seeded_lines ''/rapt/android.keystore'') None),
           (''bundle.properties'', File (seeded_lines ''/rapt/bundle.keystore'') None)]
          both_keystores (provision_events @ android_key_events @ bundle_key_events))"
    using gbk_fresh [of "[(''android.keystore'', File ''key'' None)]" True]
    by (simp add: both_keystores_def)
  have s: "persist_sdk_dir demo_plat
        (rapt_world
          [(''local.properties'', File (loose_text @ seeded_lines ''/rapt/android.keystore'') None),
           (''bundle.properties'', File (seeded_lines ''/rapt/bundle.keystore'') None)]
          both_keystores (provision_events @ android_key_events @ bundle_key_events))
     = (Inr (), rapt_world glued_project both_keystores accepted_events)"
    using persist_project [OF glued_keep(3) [OF plain_paths(1) plain_paths(5)]
        replace_sdk_dir(1) [OF plain_paths(3)], of both_keystores
        "provision_events @ android_key_events @ bundle_key_events"]
    by (simp add: concat_file_lines_plain plain_seeded_lines plain_property_line plain_paths key_literals plain_loose glued_project_def accepted_events_def)
  show ?thesis
    by (simp add: install_sdk_split seq_def bind_def p gk_loose b s)
qed

lemma glued_project_map:
  "map_of glued_project ''local.properties''
     = Some (File (loose_text @ seeded_lines ''/rapt/android.keystore''
               @ property_line ''sdk.dir'' ''/rapt/Sdk'') None)"
  "map_of glued_project ''bundle.properties''
     = Some (File (seeded_lines ''/rapt/bundle.keystore'' @ property_line ''sdk.dir'' ''/rapt/Sdk'') None)"
  by (simp_all add: glued_project_def)

lemma gk_glued:
  "generate_keys (keytool_env True) demo_plat (rapt_world glued_project both_keystores T)
     = (Inr (), rapt_world
          [(''local.properties'',
              File (loose_text @ seeded_lines ''/rapt/android.keystore''
                    @ property_line ''sdk.dir'' ''/rapt/Sdk''
                    @ property_line ''key.alias'' ''android'') None),
           (''bundle.properties'',
              File (seeded_lines ''/rapt/bundle.keystore'' @ property_line ''sdk.dir'' ''/rapt/Sdk'') None)]
          both_keystores (T @ [Info Keystore_already_created]))"
proof -
  let ?proj = "[(''local.properties'',
              File (loose_text @ seeded_lines ''/rapt/android.keystore''
                    @ property_line ''sdk.dir'' ''/rapt/Sdk''
                    @ property_line ''key.alias'' ''android'') None),
           (''bundle.properties'',
              File (seeded_lines ''/rapt/bundle.keystore'' @ property_line ''sdk.dir'' ''/rapt/Sdk'') None)]"
  let ?ws = "rapt_world ?proj both_keystores T"
  have seed: "seed_defaults (local_properties demo_plat)
      (replace_backslash (path demo_plat ''android.keystore''))
      (rapt_world glued_project both_keystores T) = (Inr (), ?ws)"
    using seed_project_glued [OF project_resolved(1) glued_project_map(1) plain_paths(1) plain_paths(5),
        of "''/rapt/android.keystore''" both_keystores T]
    by (simp add: demo_paths demo_dk glued_project_def)
  have get: "get_property (local_properties demo_plat) ''key.store'' ?ws
      = Inr (Some (replace_backslash (path demo_plat ''android.keystore'')))"
    using get_project [OF project_resolved(1), of ?proj _ "''key.store''" both_keystores T]
    by (simp add: demo_paths demo_dk glued_stored(2) [OF plain_paths(1,2) plain_paths(5)])
  have key: "os_path_exists ?ws (path demo_plat ''android.keystore'')"
    by (simp add: demo_paths keystore_exists_rapt both_keystores_def)
  show ?thesis
    by (simp add: generate_keys_skips [OF seed get key] rapt_world_sel rapt_world_trace
        interface_info_eq)
qed

lemma gbk_skip:
  assumes m: "map_of proj ''bundle.properties''
      = Some (File (seeded_lines ''/rapt/bundle.keystore'' @ property_line ''sdk.dir'' ''/rapt/Sdk'') None)"
  shows "generate_bundle_keys E demo_plat (rapt_world proj both_keystores T)
     = (Inr (), rapt_world proj both_keystores T)"
proof -
  have seed: "seed_defaults (bundle_properties demo_plat)
      (replace_backslash (path demo_plat ''bundle.keystore''))
      (rapt_world proj both_keystores T) = (Inr (), rapt_world proj both_keystores T)"
    using seed_project_settled [OF project_resolved(2) m plain_paths(3) plain_paths(5)]
    by (simp add: demo_paths)
  have get: "get_property (bundle_properties demo_plat) ''key.store'' (rapt_world proj both_keystores T)
      = Inr (Some (replace_backslash (path demo_plat ''bundle.keystore'')))"
    using get_project [OF project_resolved(2) m, of "''key.store''" both_keystores T]
    by (simp add: demo_paths demo_dk stored_seeded(2) [OF plain_paths(3,4) plain_paths(5)])
  have key: "os_path_exists (rapt_world proj both_keystores T) (path demo_plat ''bundle.keystore'')"
    by (simp add: demo_paths keystore_exists_rapt both_keystores_def)
  show ?thesis by (simp add: generate_bundle_keys_skips [OF seed get key])
qed

lemma run_glued:
  "install_sdk (keytool_env True) demo_plat (rapt_world glued_project both_keystores accepted_events)
     = (Inr (), rapt_world reglued_project both_keystores (accepted_events @ idle_events))"
proof -
  let ?proj = "[(''local.properties'',
              File (loose_text @ seeded_lines ''/rapt/android.keystore''
                    @ property_line ''sdk.dir'' ''/rapt/Sdk''
                    @ property_line ''key.alias'' ''android'') None),
           (''bundle.properties'',
              File (seeded_lines ''/rapt/bundle.keystore'' @ property_line ''sdk.dir'' ''/rapt/Sdk'') None)]"
  let ?T = "accepted_events @ provision_events @ [Info Keystore_already_created]"
  have g: "generate_keys (keytool_env True) demo_plat
        (rapt_world glued_project both_keystores (accepted_events @ provision_events))
      = (Inr (), rapt_world ?proj both_keystores ?T)"
    using gk_glued [of "accepted_events @ provision_events"] by simp
  have b: "generate_bundle_keys (keytool_env True) demo_plat (rapt_world ?proj both_keystores ?T)
      = (Inr (), rapt_world ?proj both_keystores ?T)"
    by (rule gbk_skip) simp
  have s: "persist_sdk_dir demo_plat (rapt_world ?proj both_keystores ?T)
      = (Inr (), rapt_world reglued_project both_keystores (accepted_events @ idle_events))"
    using persist_project [OF glued_keep(4) [OF plain_paths(1) plain_paths(5)]
        replace_sdk_dir(2) [OF plain_paths(3) plain_paths(5)], of both_keystores ?T]
    by (simp add: concat_file_lines_plain plain_seeded_lines plain_property_line plain_paths key_literals plain_loose reglued_project_def idle_events_def)
  show ?thesis
    by (simp add: install_sdk_split seq_def bind_def provision_rapt g b s)
qed

lemma glued_differs:
  "lookup (fs (rapt_world reglued_project ks T)) [''rapt'', ''project'', ''local.properties'']
     \<noteq> lookup (fs (rapt_world glued_project ks' T')) [''rapt'', ''project'', ''local.properties'']"
  by (simp add: lookup_project glued_project_def reglued_project_def property_line_def)

section \<open>A keystore that exists\<close>

lemma seed_project_configured:
  assumes r: "resolve [] f = [''rapt'', ''project'', x]"
    and m: "map_of proj x = Some (File (property_line ''key.store'' v) None)"
    and v: "unbroken v"
  shows "seed_defaults f dk (rapt_world proj ks T)
     = (Inr (), rapt_world (AList.update x (File (property_line ''key.store'' v
          @ property_line ''key.alias'' ''android'' @ property_line ''key.store.password'' ''android''
          @ property_line ''key.alias.password'' ''android'') None) proj) ks T)"
    and "file_lines (property_line ''key.store'' v
          @ property_line ''key.alias'' ''android'' @ property_line ''key.store.password'' ''android''
          @ property_line ''key.alias.password'' ''android'')
       = [property_line ''key.store'' v, property_line ''key.alias'' ''android'',
          property_line ''key.store.password'' ''android'', property_line ''key.alias.password'' ''android'']"
proof -
  let ?p0 = "property_line ''key.store'' v"
  let ?p1 = "property_line ''key.alias'' ''android''"
  let ?p2 = "property_line ''key.store.password'' ''android''"
  let ?p3 = "property_line ''key.alias.password'' ''android''"
  have l: "is_line ?p0" "is_line ?p1" "is_line ?p2" "is_line ?p3"
    using is_line_property_line [OF key_literals(12) v]
      is_line_property_line [OF key_literals(3) key_literals(16)]
      is_line_property_line [OF key_literals(6) key_literals(16)]
      is_line_property_line [OF key_literals(9) key_literals(16)] by simp_all
  have f0: "file_lines ?p0 = [?p0]" using file_lines_concat [of "[?p0]"] l by simp
  have f1: "file_lines (?p0 @ ?p1) = [?p0, ?p1]" using file_lines_concat [of "[?p0, ?p1]"] l by simp
  have f2: "file_lines (?p0 @ ?p1 @ ?p2) = [?p0, ?p1, ?p2]"
    using file_lines_concat [of "[?p0, ?p1, ?p2]"] l by simp
  show f3: "file_lines (?p0 @ ?p1 @ ?p2 @ ?p3) = [?p0, ?p1, ?p2, ?p3]"
    using file_lines_concat [of "[?p0, ?p1, ?p2, ?p3]"] l by simp
  have k1: "keep_lines ''key.alias'' False (file_lines ?p0) = Some [?p0]"
    by (simp add: f0 default_line_keys)
  have k2: "keep_lines ''key.store.password'' False (file_lines (?p0 @ ?p1)) = Some [?p0, ?p1]"
    by (simp add: f1 default_line_keys)
  have k3: "keep_lines ''key.alias.password'' False (file_lines (?p0 @ ?p1 @ ?p2)) = Some [?p0, ?p1, ?p2]"
    by (simp add: f2 default_line_keys)
  have k4: "keep_lines ''key.store'' False (file_lines (?p0 @ ?p1 @ ?p2 @ ?p3)) = None"
    by (simp add: f3 default_line_keys)
  have s1: "set_property f ''key.alias'' ''android'' False (rapt_world proj ks T)
      = (Inr (), rapt_world (AList.update x (File (?p0 @ ?p1) None) proj) ks T)"
    using set_project_write [OF r m k1, of "''android''" ks T] by simp
  have s2: "set_property f ''key.store.password'' ''android'' False
        (rapt_world (AList.update x (File (?p0 @ ?p1) None) proj) ks T)
      = (Inr (), rapt_world (AList.update x (File (?p0 @ ?p1 @ ?p2) None) proj) ks T)"
    using set_project_write [OF r _ k2, of "AList.update x (File (?p0 @ ?p1) None) proj"
        "''android''" ks T]
    by (simp add: update_conv')
  have s3: "set_property f ''key.alias.password'' ''android'' False
        (rapt_world (AList.update x (File (?p0 @ ?p1 @ ?p2) None) proj) ks T)
      = (Inr (), rapt_world (AList.update x (File (?p0 @ ?p1 @ ?p2 @ ?p3) None) proj) ks T)"
    using set_project_write [OF r _ k3, of "AList.update x (File (?p0 @ ?p1 @ ?p2) None) proj"
        "''android''" ks T]
    by (simp add: update_conv')
  have s4: "set_property f ''key.store'' dk False
        (rapt_world (AList.update x (File (?p0 @ ?p1 @ ?p2 @ ?p3) None) proj) ks T)
      = (Inr (), rapt_world (AList.update x (File (?p0 @ ?p1 @ ?p2 @ ?p3) None) proj) ks T)"
    using set_project_noop [OF r _ k4, of "AList.update x (File (?p0 @ ?p1 @ ?p2 @ ?p3) None) proj"
        dk ks T]
    by (simp add: update_conv')
  show "seed_defaults f dk (rapt_world proj ks T)
     = (Inr (), rapt_world (AList.update x (File (?p0 @ ?p1 @ ?p2 @ ?p3) None) proj) ks T)"
    by (simp add: seed_defaults_def seq_def bind_def s1 s2 s3 s4)
qed

lemma configured_file_lines:
  assumes v: "unbroken v"
  shows "file_lines (property_line ''key.store'' v
          @ property_line ''key.alias'' ''android'' @ property_line ''key.store.password'' ''android''
          @ property_line ''key.alias.password'' ''android'')
       = [property_line ''key.store'' v, property_line ''key.alias'' ''android'',
          property_line ''key.store.password'' ''android'', property_line ''key.alias.password'' ''android'']"
proof -
  let ?ls = "[property_line ''key.store'' v, property_line ''key.alias'' ''android'',
          property_line ''key.store.password'' ''android'', property_line ''key.alias.password'' ''android'']"
  have "\<forall>l\<in>set ?ls. is_line l"
    using is_line_property_line [OF key_literals(12) v]
      is_line_property_line [OF key_literals(3) key_literals(16)]
      is_line_property_line [OF key_literals(6) key_literals(16)]
      is_line_property_line [OF key_literals(9) key_literals(16)] by simp
  then have "file_lines (concat ?ls) = ?ls" by (rule file_lines_concat)
  then show ?thesis by simp
qed

lemma my_keystore:
  "unbroken ''/rapt/my.keystore''" "strip ''/rapt/my.keystore'' = ''/rapt/my.keystore''"
  by (simp_all add: strip_def is_space_def unbroken_def newline_def carriage_return_def)

lemma configured_seed:
  "seed_defaults (local_properties demo_plat) dk configured_world
     = (Inr (), rapt_world [(''local.properties'', File configured_seeded None)]
                  [(''my.keystore'', File ''key'' None)] [])"
  using seed_project_configured(1) [OF project_resolved(1) _ my_keystore(1),
      of configured_project dk "[(''my.keystore'', File ''key'' None)]" "[]"]
  by (simp add: configured_world_def configured_project_def configured_seeded_def demo_paths)

lemma configured_stored:
  "stored_keystore (local_properties demo_plat) dk configured_world = Inr (Some ''/rapt/my.keystore'')"
proof -
  have v: "line_value (property_line ''key.store'' ''/rapt/my.keystore'') = ''/rapt/my.keystore''"
    using line_value_property_line [OF my_keystore(2) key_literals(11)] .
  have "get_property (local_properties demo_plat) ''key.store''
      (rapt_world [(''local.properties'', File configured_seeded None)]
                  [(''my.keystore'', File ''key'' None)] [])
    = Inr (first_value ''key.store'' (file_lines configured_seeded))"
    using get_project [OF project_resolved(1), of "[(''local.properties'', File configured_seeded None)]"
        configured_seeded "''key.store''" "[(''my.keystore'', File ''key'' None)]" "[]"]
    by (simp add: demo_paths)
  then show ?thesis
    by (simp add: stored_keystore_def configured_seed configured_seeded_def
        configured_file_lines [OF my_keystore(1)] default_line_keys v)
qed

lemma configured_generate_keys:
  "generate_keys E demo_plat configured_world
     = (Inr (), rapt_world [(''local.properties'', File configured_seeded None)]
                  [(''my.keystore'', File ''key'' None)] [Info Keystore_set_yourself])"
proof -
  have "get_property (local_properties demo_plat) ''key.store''
      (rapt_world [(''local.properties'', File configured_seeded None)]
                  [(''my.keystore'', File ''key'' None)] []) = Inr (Some ''/rapt/my.keystore'')"
    using configured_stored [of "replace_backslash (path demo_plat ''android.keystore'')"]
    by (simp add: stored_keystore_def configured_seed)
  then show ?thesis
    by (simp add: generate_keys_after_seed [OF configured_seed] demo_paths demo_dk
        interface_info_eq rapt_world_sel rapt_world_trace)
qed



section \<open>A declined prompt and the rest of the run\<close>

lemma split_lines_inner: "l \<in> set (split_lines s) \<Longrightarrow> newline \<notin> set (butlast l)"
proof (induction s arbitrary: l)
  case Nil
  then show ?case by simp
next
  case (Cons c cs)
  show ?case
  proof (cases "c = newline")
    case True
    then show ?thesis using Cons by auto
  next
    case False
    show ?thesis
    proof (cases "split_lines cs")
      case Nil
      then show ?thesis using Cons.prems False by simp
    next
      case (Cons m ms)
      then have "l = c # m \<or> l \<in> set ms" using Cons.prems False by simp
      moreover have "newline \<notin> set (butlast m)" using Cons.IH Cons by simp
      moreover have "\<And>x. x \<in> set ms \<Longrightarrow> newline \<notin> set (butlast x)" using Cons.IH Cons by simp
      ultimately show ?thesis using False by (auto split: if_splits)
    qed
  qed
qed

lemma inner_suffix: "newline \<notin> set (butlast l) \<Longrightarrow> l = p @ t \<Longrightarrow> newline \<notin> set (butlast t)"
  by (cases "t = []") (simp_all add: butlast_append)

lemma strip_subset: "set (strip t) \<subseteq> set t"
proof -
  have "set (dropWhile is_space (rev (dropWhile is_space t))) \<subseteq> set (rev (dropWhile is_space t))"
    by (meson set_dropWhileD subsetI)
  moreover have "set (dropWhile is_space t) \<subseteq> set t" by (meson set_dropWhileD subsetI)
  ultimately show ?thesis by (auto simp: strip_def)
qed

lemma strip_inner:
  assumes "newline \<notin> set (butlast t)"
  shows "newline \<notin> set (strip t)"
proof -
  let ?u = "dropWhile is_space t"
  have "t = takeWhile is_space t @ ?u" by simp
  then have u: "newline \<notin> set (butlast ?u)" using assms inner_suffix by blast
  show ?thesis
  proof (cases "?u = []")
    case True
    have "strip t = []" unfolding strip_def True by simp
    then show ?thesis by simp
  next
    case False
    then obtain xs x where x: "?u = xs @ [x]" by (metis rev_exhaust)
    then have xs: "newline \<notin> set xs" using u by simp
    show ?thesis
    proof (cases "is_space x")
      case True
      have "set (dropWhile is_space (rev xs)) \<subseteq> set xs" by (metis set_dropWhileD set_rev subsetI)
      then show ?thesis using True xs by (auto simp: strip_def x)
    next
      case False
      then have "x \<noteq> newline" by (auto simp: is_space_def newline_def)
      then show ?thesis using False xs by (simp add: strip_def x)
    qed
  qed
qed

lemma line_value_unbroken:
  assumes "l \<in> set (file_lines c)"
  shows "unbroken (line_value l)"
proof -
  let ?t = "snd (snd (partition_eq l))"
  have nl: "newline \<notin> set (butlast l)"
    using assms split_lines_inner by (simp add: file_lines_def)
  have cr: "carriage_return \<notin> set l" using assms by (rule file_lines_clean)
  have "\<exists>p. l = p @ ?t"
  proof (cases "dropWhile (\<lambda>c. c \<noteq> CHR ''='') l")
    case Nil
    have "?t = []" unfolding partition_eq_def Nil by simp
    then show ?thesis by simp
  next
    case (Cons a t)
    then have "l = (takeWhile (\<lambda>c. c \<noteq> CHR ''='') l @ [a]) @ t"
      by (metis append.assoc append_Cons append_Nil takeWhile_dropWhile_id)
    then have "\<exists>p. l = p @ t" by (rule exI)
    moreover have "?t = t" unfolding partition_eq_def Cons by simp
    ultimately show ?thesis by simp
  qed
  then obtain p where p: "l = p @ ?t" by blast
  have "newline \<notin> set (butlast ?t)" using nl p by (rule inner_suffix)
  then have "newline \<notin> set (strip ?t)" by (rule strip_inner)
  moreover have "carriage_return \<notin> set ?t" using cr p by (metis Un_iff set_append)
  then have "carriage_return \<notin> set (strip ?t)" using strip_subset by blast
  ultimately show ?thesis by (simp add: unbroken_def line_value_def)
qed

lemma first_value_in: "first_value k ls = Some v \<Longrightarrow> \<exists>l\<in>set ls. v = line_value l"
  by (induction ls) (auto split: if_splits)

lemma get_property_unbroken:
  assumes "get_property f k w = Inr (Some v)"
  shows "unbroken v"
proof -
  from assms obtain ls raised where o: "open_read w f = Inr (ls, raised)"
    and fv: "first_value k ls = Some v"
    by (auto simp: get_property_def split: sum.splits option.splits if_splits)
  obtain c where "set ls \<subseteq> set (file_lines c)"
    using o by (auto simp: open_read_def split: option.splits node.splits dest: in_set_takeD)
  moreover obtain l where "l \<in> set ls" "v = line_value l" using first_value_in [OF fv] by blast
  ultimately show ?thesis using line_value_unbroken by blast
qed

lemma set_property_appends:
  assumes s: "set_property f k v False w = (Inr (), w')"
    and c: "complete_lines w f"
    and k: "strip k = k" "CHR ''='' \<notin> set k" "unbroken k" and v: "unbroken v"
  shows "lines_read w' f
     = lines_read w f @ (if k \<in> line_key ` set (lines_read w f) then [] else [property_line k v])"
proof (cases "k \<in> line_key ` set (lines_read w f)")
  case True
  then have "w' = w" using s by (simp add: set_property_def keep_lines_keep)
  then show ?thesis using True by simp
next
  case False
  then have ow: "open_write f (concat (lines_read w f) @ property_line k v) w = (Inr (), w')"
    using s by (simp add: set_property_def keep_lines_keep property_line_def)
  have pl: "is_line (property_line k v)" using k v by (simp add: is_line_property_line)
  have "lines_read w' f = lines_read w f @ [property_line k v]"
    using lines_read_written(2) [OF ow] file_lines_snoc [OF _ pl, of "lines_read w f"] c
    by (simp add: complete_lines_def)
  then show ?thesis using False by simp
qed

lemma seed_defaults_lines:
  assumes s: "seed_defaults f dk w = (Inr (), w')" and c: "complete_lines w f"
    and dk: "unbroken dk"
  shows "\<forall>(k, v)\<in>set (default_pairs dk).
           k \<notin> line_key ` set (lines_read w f) \<longrightarrow> property_line k v \<in> set (lines_read w' f)"
proof -
  from s obtain w1 where s1: "set_property f ''key.alias'' ''android'' False w = (Inr (), w1)"
    and r1: "seq (set_property f ''key.store.password'' ''android'' False)
      (seq (set_property f ''key.alias.password'' ''android'' False)
           (set_property f ''key.store'' dk False)) w1 = (Inr (), w')"
    unfolding seed_defaults_def by (blast dest: seq_Inr)
  from r1 obtain w2 where s2: "set_property f ''key.store.password'' ''android'' False w1 = (Inr (), w2)"
    and r2: "seq (set_property f ''key.alias.password'' ''android'' False)
           (set_property f ''key.store'' dk False) w2 = (Inr (), w')"
    by (blast dest: seq_Inr)
  from r2 obtain w3 where s3: "set_property f ''key.alias.password'' ''android'' False w2 = (Inr (), w3)"
    and s4: "set_property f ''key.store'' dk False w3 = (Inr (), w')"
    by (blast dest: seq_Inr)
  let ?K = "line_key ` set (lines_read w f)"
  have a1: "complete_lines w1 f"
    and b1: "line_key ` set (lines_read w1 f) = insert ''key.alias'' ?K"
    using set_property_adds [OF s1 c key_literals(1,2,3) key_literals(16)] by simp_all
  have a2: "complete_lines w2 f"
    and b2: "line_key ` set (lines_read w2 f) = insert ''key.store.password'' (line_key ` set (lines_read w1 f))"
    using set_property_adds [OF s2 a1 key_literals(4,5,6) key_literals(16)] by simp_all
  have a3: "complete_lines w3 f"
    and b3: "line_key ` set (lines_read w3 f) = insert ''key.alias.password'' (line_key ` set (lines_read w2 f))"
    using set_property_adds [OF s3 a2 key_literals(7,8,9) key_literals(16)] by simp_all
  have e1: "lines_read w1 f = lines_read w f
      @ (if ''key.alias'' \<in> ?K then [] else [property_line ''key.alias'' ''android''])"
    using set_property_appends [OF s1 c key_literals(1,2,3) key_literals(16)] .
  have e2: "lines_read w2 f = lines_read w1 f
      @ (if ''key.store.password'' \<in> ?K then [] else [property_line ''key.store.password'' ''android''])"
    using set_property_appends [OF s2 a1 key_literals(4,5,6) key_literals(16)] by (simp add: b1)
  have e3: "lines_read w3 f = lines_read w2 f
      @ (if ''key.alias.password'' \<in> ?K then [] else [property_line ''key.alias.password'' ''android''])"
    using set_property_appends [OF s3 a2 key_literals(7,8,9) key_literals(16)] by (simp add: b1 b2)
  have e4: "lines_read w' f = lines_read w3 f
      @ (if ''key.store'' \<in> ?K then [] else [property_line ''key.store'' dk])"
    using set_property_appends [OF s4 a3 key_literals(10,11,12) dk] by (simp add: b1 b2 b3)
  show ?thesis by (simp add: default_pairs_def e4 e3 e2 e1)
qed

lemma file_below:
  assumes "lookup t p = Some (File c r)" and "lookup t q \<noteq> None" and "p \<noteq> q"
  shows "\<not> prefix p q"
proof
  assume "prefix p q"
  then obtain z where z: "q = p @ z" by (auto simp: prefix_def)
  then have "z \<noteq> []" using assms(3) by auto
  then obtain x xs where "z = x # xs" by (cases z) auto
  then have "lookup t q = None" using z assms(1) by (simp add: lookup_append)
  then show False using assms(2) by simp
qed

lemma is_file_lookup: "is_file w f \<longleftrightarrow> (\<exists>c r. lookup (fs w) (resolve (cwd w) f) = Some (File c r))"
  by (auto simp: is_file_def split: option.splits node.splits)

lemma set_property_replace_file:
  assumes "is_file w f"
  shows "\<exists>w' t. set_property f k v True w = (Inr (), w')
          \<and> lookup (fs w') (resolve (cwd w) f) = Some (File (t @ property_line k v) None)
          \<and> cwd w' = cwd w \<and> trace w' = trace w
          \<and> (\<forall>q. \<not> prefix (resolve (cwd w) f) q \<longrightarrow> \<not> prefix q (resolve (cwd w) f)
                 \<longrightarrow> lookup (fs w') q = lookup (fs w) q)"
proof -
  let ?t = "concat (filter (\<lambda>l. line_key l \<noteq> k) (lines_read w f))"
  obtain c r where f: "lookup (fs w) (resolve (cwd w) f) = Some (File c r)"
    using assms is_file_lookup by blast
  have sp: "set_property f k v True w = open_write f (?t @ property_line k v) w"
    by (simp add: set_property_def keep_lines_replace property_line_def)
  obtain w' where ow: "open_write f (?t @ property_line k v) w = (Inr (), w')"
    using open_write_existing [OF f] by blast
  have "lookup (fs w') (resolve (cwd w) f) = Some (File (?t @ property_line k v) None)"
    using open_write_lookup [OF ow] .
  moreover have "cwd w' = cwd w \<and> trace w' = trace w" using open_write_cwd [OF ow] by simp
  moreover have "\<forall>q. \<not> prefix (resolve (cwd w) f) q \<longrightarrow> \<not> prefix q (resolve (cwd w) f)
                 \<longrightarrow> lookup (fs w') q = lookup (fs w) q"
    using open_write_other [OF ow] by blast
  ultimately show ?thesis using sp ow by auto
qed

lemma persist_writes:
  assumes fl: "is_file wb (local_properties P)" and fb: "is_file wb (bundle_properties P)"
  shows "\<exists>w'. persist_sdk_dir P wb = (Inr (), w')
          \<and> ends_with w' (local_properties P) (property_line ''sdk.dir'' (replace_backslash (sdk P)))
          \<and> ends_with w' (bundle_properties P) (property_line ''sdk.dir'' (replace_backslash (sdk P)))
          \<and> trace w' = trace wb @ [Final_success Ready_to_package]"
proof -
  let ?X = "replace_backslash (sdk P)"
  let ?l = "property_line ''sdk.dir'' ?X"
  let ?pl = "resolve (cwd wb) (local_properties P)"
  let ?pb = "resolve (cwd wb) (bundle_properties P)"
  obtain cl rl where l0: "lookup (fs wb) ?pl = Some (File cl rl)" using fl is_file_lookup by blast
  obtain cb rb where b0: "lookup (fs wb) ?pb = Some (File cb rb)" using fb is_file_lookup by blast
  have ap: "?pl \<noteq> ?pb \<Longrightarrow> \<not> prefix ?pl ?pb \<and> \<not> prefix ?pb ?pl"
    using file_below [OF l0, of ?pb] file_below [OF b0, of ?pl] l0 b0 by auto
  obtain w2 t2 where s2: "set_property (local_properties P) ''sdk.dir'' ?X True wb = (Inr (), w2)"
    and l2: "lookup (fs w2) ?pl = Some (File (t2 @ ?l) None)"
    and c2: "cwd w2 = cwd wb" "trace w2 = trace wb"
    and o2: "\<forall>q. \<not> prefix ?pl q \<longrightarrow> \<not> prefix q ?pl \<longrightarrow> lookup (fs w2) q = lookup (fs wb) q"
    using set_property_replace_file [OF fl, of "''sdk.dir''" ?X] by blast
  have "is_file w2 (bundle_properties P)"
  proof (cases "?pl = ?pb")
    case True
    then show ?thesis using l2 c2 by (simp add: is_file_lookup)
  next
    case False
    then have "lookup (fs w2) ?pb = lookup (fs wb) ?pb" using ap o2 by blast
    then show ?thesis using b0 c2 by (simp add: is_file_lookup)
  qed
  then obtain w3 t3 where s3: "set_property (bundle_properties P) ''sdk.dir'' ?X True w2 = (Inr (), w3)"
    and l3: "lookup (fs w3) ?pb = Some (File (t3 @ ?l) None)"
    and c3: "cwd w3 = cwd wb" "trace w3 = trace wb"
    and o3: "\<forall>q. \<not> prefix ?pb q \<longrightarrow> \<not> prefix q ?pb \<longrightarrow> lookup (fs w3) q = lookup (fs w2) q"
    using set_property_replace_file [of w2 "bundle_properties P" "''sdk.dir''" ?X] c2 by auto
  have l3': "\<exists>t. lookup (fs w3) ?pl = Some (File (t @ ?l) None)"
  proof (cases "?pl = ?pb")
    case True
    then show ?thesis using l3 by auto
  next
    case False
    then have "lookup (fs w3) ?pl = lookup (fs w2) ?pl" using ap o3 by blast
    then show ?thesis using l2 by auto
  qed
  let ?w' = "w3\<lparr> trace := trace w3 @ [Final_success Ready_to_package] \<rparr>"
  have p: "persist_sdk_dir P wb = (Inr (), ?w')"
    by (simp add: persist_sdk_dir_def seq_def bind_def s2 s3 interface_final_success_def emit_def)
  have "ends_with ?w' (local_properties P) ?l" using l3' c3 by (auto simp: ends_with_def suffix_def)
  moreover have "ends_with ?w' (bundle_properties P) ?l" using l3 c3 by (auto simp: ends_with_def suffix_def)
  moreover have "trace ?w' = trace wb @ [Final_success Ready_to_package]" using c3 by simp
  ultimately show ?thesis using p by blast
qed

lemma broken_sel:
  "yesno broken_env m = False"
  "copy_project broken_env u w = Inr (fs w)"
  "\<not> is_keytool_call demo_plat args \<Longrightarrow> call broken_env args kw w = (Returned, fs w)"
  "is_keytool_call demo_plat args \<Longrightarrow> call broken_env args kw w = (Raised_OSError, fs w)"
  by (simp_all add: broken_env_def demo_env_def)

lemma broken_run_slow:
  assumes "length args \<le> 4"
  shows "run_slow broken_env args kw (rapt_world proj ks T)
     = (Inr True, rapt_world proj ks (T @ [Call args (kw\<lparr> cancel := True \<rparr>)]))"
  by (simp add: run_slow_def interface_call_def broken_sel(3) [OF short_not_keytool [OF assms]]
      rapt_world_sel rapt_world_fs_trace rapt_world_trace)

lemma broken_provision:
  "provision_sdk broken_env demo_plat (rapt_world proj ks T)
     = (Inr (), rapt_world proj ks (T @ provision_events))"
proof -
  have c: "rapt_build_copy_project broken_env False (rapt_world proj ks T) = (Inr (), rapt_world proj ks T)"
    by (simp add: rapt_build_copy_project_def broken_sel rapt_world_def)
  have j: "\<And>T. check_java broken_env demo_plat (rapt_world proj ks T)
     = (Inr (), rapt_world proj ks (T @ java_events))"
    by (simp add: check_java_def seq_def bind_def interface_info_def interface_success_def emit_rapt
        broken_run_slow demo_tools return_def no_kwargs_def java_events_def)
  have g: "\<And>T. get_packages broken_env demo_plat (rapt_world proj ks T)
     = (Inr (), rapt_world proj ks (T @ package_events))"
    by (simp add: get_packages_def wanted_packages_def demo_tools joined packages_missing seq_def bind_def
        interface_info_def interface_success_def emit_rapt broken_run_slow return_def no_kwargs_def
        package_events_def)
  show ?thesis
    by (simp add: provision_sdk_def seq_def bind_def c j unpack_rapt g provision_events_def)
qed

lemma gk_fresh_declining:
  assumes "yesno E Want_to_create_key = False"
  shows "generate_keys E demo_plat (rapt_world [] [] T)
     = (Inr (), rapt_world [(''local.properties'', File (seeded_lines ''/rapt/android.keystore'') None)] []
                  (T @ [Yesno Want_to_create_key False]))"
proof -
  let ?ws = "rapt_world [(''local.properties'', File (seeded_lines ''/rapt/android.keystore'') None)] [] T"
  have seed: "seed_defaults (local_properties demo_plat)
      (replace_backslash (path demo_plat ''android.keystore'')) (rapt_world [] [] T) = (Inr (), ?ws)"
    using seed_project_fresh [OF project_resolved(1), of "[]" "''/rapt/android.keystore''" "[]" T]
    by (simp add: demo_paths demo_dk)
  have get: "get_property (local_properties demo_plat) ''key.store'' ?ws
      = Inr (Some (replace_backslash (path demo_plat ''android.keystore'')))"
    using get_project [OF project_resolved(1), of _ "seeded_lines ''/rapt/android.keystore''" "''key.store''" "[]" T]
    by (simp add: demo_paths demo_dk stored_seeded(1) [OF plain_paths(1,2)])
  have nokey: "\<not> os_path_exists ?ws (path demo_plat ''android.keystore'')"
    by (simp add: demo_paths keystore_exists_rapt)
  have d: "\<not> yesno E Want_to_create_key \<or> \<not> yesno E Will_you_backup" using assms by simp
  show ?thesis
    by (simp add: generate_keys_reaches [OF seed get nokey] create_android_key_declined [OF d]
        assms rapt_world_sel rapt_world_trace)
qed

lemma gk_loose_declining:
  assumes "yesno E Want_to_create_key = False"
  shows "generate_keys E demo_plat (rapt_world [(''local.properties'', File loose_text None)] [] T)
     = (Inr (), rapt_world
          [(''local.properties'', File (loose_text @ seeded_lines ''/rapt/android.keystore'') None)] []
          (T @ [Yesno Want_to_create_key False]))"
proof -
  let ?ws = "rapt_world
      [(''local.properties'', File (loose_text @ seeded_lines ''/rapt/android.keystore'') None)] [] T"
  have seed: "seed_defaults (local_properties demo_plat)
      (replace_backslash (path demo_plat ''android.keystore''))
      (rapt_world [(''local.properties'', File loose_text None)] [] T) = (Inr (), ?ws)"
    using seed_project_loose [OF project_resolved(1),
        of "[(''local.properties'', File loose_text None)]" "''/rapt/android.keystore''" "[]" T]
    by (simp add: demo_paths demo_dk)
  have get: "get_property (local_properties demo_plat) ''key.store'' ?ws
      = Inr (Some (replace_backslash (path demo_plat ''android.keystore'')))"
    using get_project [OF project_resolved(1),
        of _ "loose_text @ seeded_lines ''/rapt/android.keystore''" "''key.store''" "[]" T]
    by (simp add: demo_paths demo_dk glued_stored(1) [OF plain_paths(1,2)])
  have nokey: "\<not> os_path_exists ?ws (path demo_plat ''android.keystore'')"
    by (simp add: demo_paths keystore_exists_rapt)
  have d: "\<not> yesno E Want_to_create_key \<or> \<not> yesno E Will_you_backup" using assms by simp
  show ?thesis
    by (simp add: generate_keys_reaches [OF seed get nokey] create_android_key_declined [OF d]
        assms rapt_world_sel rapt_world_trace)
qed

lemma loose_no_alias:
  "get_property ''/rapt/project/local.properties'' ''key.alias''
     (rapt_world [(''local.properties'', File (loose_text @ seeded_lines ''/rapt/android.keystore'') None)]
        ks T) = Inr None"
  using get_project [OF project_resolved(1),
        of _ "loose_text @ seeded_lines ''/rapt/android.keystore''" "''key.alias''" ks T]
  by (simp add: glued_file_lines(1) [OF plain_paths(1)] glued_line_facts default_line_keys)

lemma broken_gbk:
  "generate_bundle_keys broken_env demo_plat (rapt_world [(''local.properties'', n)] [] T)
     = (Inl SystemExit, rapt_world [(''local.properties'', n),
                            (''bundle.properties'', File (seeded_lines ''/rapt/bundle.keystore'') None)] []
          (T @ [Call (keytool_args demo_plat ''bundle.keystore'' (''CN=Ren'' @ [CHR 0x27] @ ''Py Creator''))
                  \<lparr> cancel = False, use_path = True, yes = False \<rparr>,
                Fail Could_not_create_bundle_keystore]))"
proof -
  let ?ws = "rapt_world [(''local.properties'', n),
                            (''bundle.properties'', File (seeded_lines ''/rapt/bundle.keystore'') None)] [] T"
  have seed: "seed_defaults (bundle_properties demo_plat)
      (replace_backslash (path demo_plat ''bundle.keystore'')) (rapt_world [(''local.properties'', n)] [] T)
       = (Inr (), ?ws)"
    using seed_project_fresh [OF project_resolved(2), of "[(''local.properties'', n)]"
        "''/rapt/bundle.keystore''" "[]" T]
    by (simp add: demo_paths demo_dk)
  have get: "get_property (bundle_properties demo_plat) ''key.store'' ?ws
      = Inr (Some (replace_backslash (path demo_plat ''bundle.keystore'')))"
    using get_project [OF project_resolved(2), of _ "seeded_lines ''/rapt/bundle.keystore''" "''key.store''" "[]" T]
    by (simp add: demo_paths demo_dk stored_seeded(1) [OF plain_paths(3,4)])
  have nokey: "\<not> os_path_exists ?ws (path demo_plat ''bundle.keystore'')"
    by (simp add: demo_paths keystore_exists_rapt)
  have r: "\<And>dn kw. run broken_env (keytool_args demo_plat ''bundle.keystore'' dn) kw ?ws
      = (Inr False, rapt_world [(''local.properties'', n),
                            (''bundle.properties'', File (seeded_lines ''/rapt/bundle.keystore'') None)] []
                      (T @ [Call (keytool_args demo_plat ''bundle.keystore'' dn) kw]))"
    by (simp add: run_def interface_call_def broken_sel(4) [OF is_keytool_call_args] rapt_world_sel
        rapt_world_fs_trace rapt_world_trace)
  show ?thesis
    by (simp add: generate_bundle_keys_reaches [OF seed get nokey] create_bundle_key_def bind_def r
        no_kwargs_def interface_fail_def seq_def emit_rapt raise_def)
qed

lemma broken_run:
  "install_sdk broken_env demo_plat (rapt_world [] [] [])
     = (Inl SystemExit, rapt_world seeded_project [] broken_events)"
proof -
  have p: "provision_sdk broken_env demo_plat (rapt_world [] [] [])
      = (Inr (), rapt_world [] [] provision_events)"
    using broken_provision [of "[]" "[]" "[]"] by simp
  have g: "generate_keys broken_env demo_plat (rapt_world [] [] provision_events)
     = (Inr (), rapt_world [(''local.properties'', File (seeded_lines ''/rapt/android.keystore'') None)] []
                  (provision_events @ [Yesno Want_to_create_key False]))"
    by (rule gk_fresh_declining) (rule broken_sel)
  show ?thesis
    by (simp add: install_sdk_split seq_def bind_def p g broken_gbk seeded_project_def broken_events_def)
qed

lemma seeded_no_sdk_dir:
  "get_property ''/rapt/project/local.properties'' ''sdk.dir'' (rapt_world seeded_project ks T) = Inr None"
  using get_project [OF project_resolved(1), of seeded_project
        "seeded_lines ''/rapt/android.keystore''" "''sdk.dir''" ks T]
  by (simp add: seeded_project_def seeded_file_lines [OF plain_paths(1)] default_line_keys)

text \<open>
  C8. The claim: when the user declines one of the two prompts of \<^verbatim>\<open>generate_keys\<close>, no
  keystore is created, nothing more is written to the property file and the run is not
  aborted; \<^verbatim>\<open>local.properties\<close> holds the four default lines and the run goes on to the
  \<open>sdk.dir\<close> step.

  As amended: when \<^verbatim>\<open>generate_keys\<close> reaches its prompts (the defaults are written, the
  stored keystore path is the default one, no keystore exists) and the user declines the
  first or the second of them, it returns normally and the world is the one the defaults
  left, with the prompts added to the trace: no process is started, no file is written or
  created. A property file that did not exist holds exactly the four default lines; one
  whose lines all ended with their line feed holds a line for each of the four keys, the
  default line for each key that it had no line for. \<^verbatim>\<open>install_sdk\<close> goes on with
  \<^verbatim>\<open>generate_bundle_keys\<close>; when that returns normally and the two property files are
  regular files, \<^verbatim>\<open>install_sdk\<close> returns normally, the text of either property file
  ends with the \<open>sdk.dir\<close> line, and the final success is the last that is shown.
\<close>

theorem declined_prompt_is_not_fatal:
  assumes seeded: "seed_defaults (local_properties P) (replace_backslash (path P ''android.keystore'')) w
                     = (Inr (), w1)"
    and stored: "get_property (local_properties P) ''key.store'' w1
                     = Inr (Some (replace_backslash (path P ''android.keystore'')))"
    and nokey: "\<not> os_path_exists w1 (path P ''android.keystore'')"
    and declined: "\<not> yesno E Want_to_create_key \<or> \<not> yesno E Will_you_backup"
  shows "generate_keys E P w =
           (Inr (), w1\<lparr> trace := trace w @
              (if yesno E Want_to_create_key
               then [Yesno Want_to_create_key True, Yesno Will_you_backup False]
               else [Yesno Want_to_create_key False]) \<rparr>)
       \<and> (lookup (fs w) (resolve (cwd w) (local_properties P)) = None \<longrightarrow>
            lookup (fs (snd (generate_keys E P w))) (resolve (cwd w) (local_properties P))
              = Some (File (seeded_lines (replace_backslash (path P ''android.keystore''))) None))
       \<and> (complete_lines w (local_properties P) \<longrightarrow>
            has_defaults (snd (generate_keys E P w)) (local_properties P)
            \<and> (\<forall>(k, v)\<in>set (default_pairs (replace_backslash (path P ''android.keystore''))).
                  k \<notin> line_key ` set (lines_read w (local_properties P)) \<longrightarrow>
                  property_line k v \<in> set (lines_read (snd (generate_keys E P w)) (local_properties P))))
       \<and> (\<forall>w0. provision_sdk E P w0 = (Inr (), w) \<longrightarrow>
             install_sdk E P w0
               = seq (generate_bundle_keys E P) (persist_sdk_dir P) (snd (generate_keys E P w))
             \<and> (\<forall>wb. generate_bundle_keys E P (snd (generate_keys E P w)) = (Inr (), wb)
                     \<and> is_file wb (local_properties P) \<and> is_file wb (bundle_properties P) \<longrightarrow>
                   (\<exists>w'. install_sdk E P w0 = (Inr (), w')
                      \<and> ends_with w' (local_properties P)
                            (property_line ''sdk.dir'' (replace_backslash (sdk P)))
                      \<and> ends_with w' (bundle_properties P)
                            (property_line ''sdk.dir'' (replace_backslash (sdk P)))
                      \<and> trace w' = trace wb @ [Final_success Ready_to_package])))"
proof -
  let ?evs = "if yesno E Want_to_create_key
               then [Yesno Want_to_create_key True, Yesno Will_you_backup False]
               else [Yesno Want_to_create_key False]"
  let ?f = "local_properties P"
  let ?d = "replace_backslash (path P ''android.keystore'')"
  let ?wd = "w1\<lparr> trace := trace w @ ?evs \<rparr>"
  have ow: "only_writes (resolve (cwd w) ?f) w w1" using seeded by (rule seed_defaults_only_writes)
  have tr: "trace w1 = trace w" and cw: "cwd w1 = cwd w" using ow by (simp_all add: only_writes_def)
  have g: "generate_keys E P w = (Inr (), ?wd)"
    using stored nokey tr
    by (simp add: generate_keys_after_seed [OF seeded] create_android_key_declined [OF declined])
  have wd: "snd (generate_keys E P w) = ?wd" using g by simp
  have lr: "lines_read ?wd ?f = lines_read w1 ?f" by (rule lines_read_cong(1)) simp_all
  have fresh: "lookup (fs w) (resolve (cwd w) ?f) = None \<longrightarrow>
            lookup (fs (snd (generate_keys E P w))) (resolve (cwd w) ?f)
              = Some (File (seeded_lines ?d) None)"
    using seed_defaults_fresh [OF _ seeded] g by simp
  have ub: "unbroken ?d" using stored by (rule get_property_unbroken)
  have lines: "complete_lines w ?f \<longrightarrow>
            has_defaults (snd (generate_keys E P w)) ?f
            \<and> (\<forall>(k, v)\<in>set (default_pairs ?d).
                  k \<notin> line_key ` set (lines_read w ?f) \<longrightarrow>
                  property_line k v \<in> set (lines_read (snd (generate_keys E P w)) ?f))"
  proof
    assume c: "complete_lines w ?f"
    have "has_defaults w1 ?f" using seed_defaults_seeds(2) [OF seeded c ub] .
    then have "has_defaults ?wd ?f" using lr by (simp add: has_defaults_def)
    moreover have "\<forall>(k, v)\<in>set (default_pairs ?d).
                  k \<notin> line_key ` set (lines_read w ?f) \<longrightarrow>
                  property_line k v \<in> set (lines_read ?wd ?f)"
      using seed_defaults_lines [OF seeded c ub] unfolding lr .
    ultimately show "has_defaults (snd (generate_keys E P w)) ?f
            \<and> (\<forall>(k, v)\<in>set (default_pairs ?d).
                  k \<notin> line_key ` set (lines_read w ?f) \<longrightarrow>
                  property_line k v \<in> set (lines_read (snd (generate_keys E P w)) ?f))"
      unfolding wd by simp
  qed
  have goes: "\<forall>w0. provision_sdk E P w0 = (Inr (), w) \<longrightarrow>
             install_sdk E P w0
               = seq (generate_bundle_keys E P) (persist_sdk_dir P) (snd (generate_keys E P w))
             \<and> (\<forall>wb. generate_bundle_keys E P (snd (generate_keys E P w)) = (Inr (), wb)
                     \<and> is_file wb ?f \<and> is_file wb (bundle_properties P) \<longrightarrow>
                   (\<exists>w'. install_sdk E P w0 = (Inr (), w')
                      \<and> ends_with w' ?f (property_line ''sdk.dir'' (replace_backslash (sdk P)))
                      \<and> ends_with w' (bundle_properties P)
                            (property_line ''sdk.dir'' (replace_backslash (sdk P)))
                      \<and> trace w' = trace wb @ [Final_success Ready_to_package]))"
  proof (intro allI impI conjI)
    fix w0
    assume p: "provision_sdk E P w0 = (Inr (), w)"
    have "install_sdk E P w0
        = seq (generate_keys E P) (seq (generate_bundle_keys E P) (persist_sdk_dir P)) w"
      using p by (simp add: install_sdk_split seq_def bind_def)
    then show i: "install_sdk E P w0
               = seq (generate_bundle_keys E P) (persist_sdk_dir P) (snd (generate_keys E P w))"
      using g by (simp add: seq_def bind_def)
    fix wb
    assume b: "generate_bundle_keys E P (snd (generate_keys E P w)) = (Inr (), wb)
                     \<and> is_file wb ?f \<and> is_file wb (bundle_properties P)"
    then have "install_sdk E P w0 = persist_sdk_dir P wb" using i by (simp add: seq_def bind_def)
    then show "\<exists>w'. install_sdk E P w0 = (Inr (), w')
                      \<and> ends_with w' ?f (property_line ''sdk.dir'' (replace_backslash (sdk P)))
                      \<and> ends_with w' (bundle_properties P)
                            (property_line ''sdk.dir'' (replace_backslash (sdk P)))
                      \<and> trace w' = trace wb @ [Final_success Ready_to_package]"
      using persist_writes [of wb P] b by simp
  qed
  show ?thesis using g fresh lines goes by blast
qed

theorem declined_prompt_is_not_fatal_witness:
  "generate_keys (keytool_env False) demo_plat (rapt_world [] [] provision_events)
     = (Inr (), rapt_world [(''local.properties'', File (seeded_lines ''/rapt/android.keystore'') None)]
                  [] (provision_events @ [Yesno Want_to_create_key False]))
   \<and> lookup (fs (snd (generate_keys (keytool_env False) demo_plat (rapt_world [] [] provision_events))))
         [''rapt'', ''project'', ''local.properties'']
       = Some (File (seeded_lines ''/rapt/android.keystore'') None)
   \<and> has_defaults (snd (generate_keys (keytool_env False) demo_plat (rapt_world [] [] provision_events)))
         (local_properties demo_plat)
   \<and> install_sdk (keytool_env False) demo_plat (rapt_world [] [] []) = (Inr (), declined_world)
   \<and> ends_with declined_world (local_properties demo_plat) (property_line ''sdk.dir'' ''/rapt/Sdk'')
   \<and> ends_with declined_world (bundle_properties demo_plat) (property_line ''sdk.dir'' ''/rapt/Sdk'')"
proof -
  let ?E = "keytool_env False"
  let ?w = "rapt_world [] [] provision_events"
  let ?w1 = "rapt_world [(''local.properties'', File (seeded_lines ''/rapt/android.keystore'') None)] []
               provision_events"
  let ?wd = "rapt_world [(''local.properties'', File (seeded_lines ''/rapt/android.keystore'') None)] []
               (provision_events @ [Yesno Want_to_create_key False])"
  let ?wb = "rapt_world seeded_project [(''bundle.keystore'', File ''key'' None)]
               (provision_events @ [Yesno Want_to_create_key False] @ bundle_key_events)"
  have seeded: "seed_defaults (local_properties demo_plat)
      (replace_backslash (path demo_plat ''android.keystore'')) ?w = (Inr (), ?w1)"
    using seed_project_fresh [OF project_resolved(1), of "[]" "''/rapt/android.keystore''" "[]"
        provision_events]
    by (simp add: demo_paths demo_dk)
  have stored: "get_property (local_properties demo_plat) ''key.store'' ?w1
      = Inr (Some (replace_backslash (path demo_plat ''android.keystore'')))"
    using get_project [OF project_resolved(1), of _ "seeded_lines ''/rapt/android.keystore''"
        "''key.store''" "[]" provision_events]
    by (simp add: demo_paths demo_dk stored_seeded(1) [OF plain_paths(1,2)])
  have nokey: "\<not> os_path_exists ?w1 (path demo_plat ''android.keystore'')"
    by (simp add: demo_paths keystore_exists_rapt)
  have declined: "\<not> yesno ?E Want_to_create_key \<or> \<not> yesno ?E Will_you_backup"
    by (simp add: answers)
  note T = declined_prompt_is_not_fatal [OF seeded stored nokey declined]
  have g: "generate_keys ?E demo_plat ?w = (Inr (), ?wd)"
    using T [THEN conjunct1] by (simp add: answers rapt_world_sel rapt_world_trace)
  have none: "lookup (fs ?w) (resolve (cwd ?w) (local_properties demo_plat)) = None"
    by (simp add: rapt_world_sel demo_paths demo_resolved lookup_project)
  have fresh: "lookup (fs (snd (generate_keys ?E demo_plat ?w))) [''rapt'', ''project'', ''local.properties'']
       = Some (File (seeded_lines ''/rapt/android.keystore'') None)"
    using T [THEN conjunct2, THEN conjunct1] none
    by (simp add: rapt_world_sel demo_paths demo_resolved demo_dk)
  have hd: "has_defaults (snd (generate_keys ?E demo_plat ?w)) (local_properties demo_plat)"
    using T [THEN conjunct2, THEN conjunct2, THEN conjunct1] fresh_complete(1) [of "[]" provision_events]
    by simp
  have p: "provision_sdk ?E demo_plat (rapt_world [] [] []) = (Inr (), ?w)"
    using provision_rapt [of False "[]" "[]" "[]"] by simp
  have b: "generate_bundle_keys ?E demo_plat (snd (generate_keys ?E demo_plat ?w)) = (Inr (), ?wb)"
    using gbk_fresh [of "[]" False _ "provision_events @ [Yesno Want_to_create_key False]"]
    by (simp add: g seeded_project_def)
  have f: "is_file ?wb (local_properties demo_plat)" "is_file ?wb (bundle_properties demo_plat)"
    by (simp_all add: is_file_def rapt_world_sel demo_paths demo_resolved lookup_project
        seeded_project_def)
  obtain w' where w': "install_sdk ?E demo_plat (rapt_world [] [] []) = (Inr (), w')"
    and e: "ends_with w' (local_properties demo_plat)
              (property_line ''sdk.dir'' (replace_backslash (sdk demo_plat)))"
      "ends_with w' (bundle_properties demo_plat)
              (property_line ''sdk.dir'' (replace_backslash (sdk demo_plat)))"
    using T [THEN conjunct2, THEN conjunct2, THEN conjunct2] p b f by blast
  have "w' = declined_world" using w' run_declined by simp
  then show ?thesis using g fresh hd run_declined e by (simp add: demo_dk)
qed

text \<open>
  The claim fails in two ways. When \<^verbatim>\<open>local.properties\<close> starts with a last line that
  has no line feed, the first default is glued onto that line, and after the declined
  prompt the file has no \<open>key.alias\<close> line. And the run can still be aborted before the
  \<open>sdk.dir\<close> step: with a user who declines and a key-generation tool that is not
  found, \<^verbatim>\<open>generate_bundle_keys\<close> fails, \<^verbatim>\<open>install_sdk\<close> ends with \<open>SystemExit\<close>
  and \<^verbatim>\<open>local.properties\<close> has no \<open>sdk.dir\<close> line.
\<close>

theorem declined_prompt_is_not_fatal_counterexample:
  "generate_keys (keytool_env False) demo_plat
       (rapt_world [(''local.properties'', File loose_text None)] [] [])
     = (Inr (), rapt_world
          [(''local.properties'', File (loose_text @ seeded_lines ''/rapt/android.keystore'') None)] []
          [Yesno Want_to_create_key False])
   \<and> get_property ''/rapt/project/local.properties'' ''key.alias''
         (rapt_world
            [(''local.properties'', File (loose_text @ seeded_lines ''/rapt/android.keystore'') None)] []
            [Yesno Want_to_create_key False])
       = Inr None
   \<and> yesno broken_env Want_to_create_key = False
   \<and> install_sdk broken_env demo_plat (rapt_world [] [] [])
       = (Inl SystemExit, rapt_world seeded_project [] broken_events)
   \<and> get_property ''/rapt/project/local.properties'' ''sdk.dir''
         (rapt_world seeded_project [] broken_events)
       = Inr None"
proof -
  have "generate_keys (keytool_env False) demo_plat
       (rapt_world [(''local.properties'', File loose_text None)] [] [])
     = (Inr (), rapt_world
          [(''local.properties'', File (loose_text @ seeded_lines ''/rapt/android.keystore'') None)] []
          [Yesno Want_to_create_key False])"
    using gk_loose_declining [of "keytool_env False" "[]"] by (simp add: answers)
  then show ?thesis by (simp add: loose_no_alias broken_sel broken_run seeded_no_sdk_dir)
qed

text \<open>
  C1. The claim: a second run of \<^verbatim>\<open>install_sdk\<close>, from the state a completed first run
  left, leaves the two property files byte for byte as they are and neither downloads nor
  starts the key-generation tool.

  As amended: this holds when the first run left the package manager in place and, for
  each of the two keystores, the keystore file or a stored keystore path other than the
  default one (for \<open>android.keystore\<close> it is enough that the user of the second run
  declines a prompt); when every line of the property files the first run started from
  ended with its line feed; when the property files are apart from each other and from
  the SDK directory and the paths written into them have neither a line feed nor a
  carriage return; and when the collaborators leave the property files alone (in the
  second run also the keystores and the package manager, the key-generation tool apart).
  The second run may end in any way.
\<close>

theorem second_run_changes_nothing:
  assumes first: "install_sdk E1 P w0 = (Inr (), w1)"
    and second: "install_sdk E2 P w1 = (r2, w2)"
    and placed: "well_placed P w0"
    and lines: "complete_lines w0 (local_properties P)" "complete_lines w0 (bundle_properties P)"
    and keeps1: "first_run_keeps E1 P w0"
    and keeps2: "second_run_keeps E2 P w0"
    and prov: "provisioned E2 P w1"
  shows "lookup (fs w2) (local_file P w0) = lookup (fs w1) (local_file P w0)
       \<and> lookup (fs w2) (bundle_file P w0) = lookup (fs w1) (bundle_file P w0)
       \<and> (\<exists>evs. trace w2 = trace w1 @ evs \<and> downloads evs = []
                \<and> (\<forall>args\<in>set (calls evs). \<not> is_keytool_call P args))"
proof -
  have k: "\<forall>q\<in>set [local_file P w0, bundle_file P w0]. keeps E1 any_event q"
    and u: "\<forall>q\<in>set [local_file P w0, bundle_file P w0]. unpack_keeps E1 q"
    using keeps1 by (simp_all add: first_run_keeps_def)
  have away: "\<forall>q\<in>set [local_file P w0, bundle_file P w0]. apart q (sdk_directory P w0)"
    and ap: "apart (local_file P w0) (bundle_file P w0)"
    and na: "unbroken (path P ''android.keystore'')"
    and nb: "unbroken (path P ''bundle.keystore'')"
    and nx: "unbroken (replace_backslash (sdk P))"
    using placed by (simp_all add: well_placed_def replace_backslash_newline)
  have c1: "cwd w1 = cwd w0"
    and sl: "settled w1 (local_properties P) (replace_backslash (sdk P))"
    and sb: "settled w1 (bundle_properties P) (replace_backslash (sdk P))"
    using first_run_settles [OF first k u away ap lines na nb] by simp_all
  have f1: "local_file P w1 = local_file P w0" "bundle_file P w1 = bundle_file P w0"
    using c1 by (simp_all add: local_file_def bundle_file_def)
  have k2: "\<forall>q\<in>set (watched P w1). keeps E2 (quiet_event P) q"
    using keeps2 watched_cong [OF c1] by (simp add: second_run_keeps_def)
  have ap1: "apart (local_file P w1) (bundle_file P w1)" using ap f1 by simp
  have "steady (quiet_event P) [local_file P w1, bundle_file P w1] w1 w2"
    using second_run_idle [OF second sl sb nx prov k2 ap1] .
  then have s: "steady (quiet_event P) [local_file P w0, bundle_file P w0] w1 w2" using f1 by simp
  then obtain evs where e: "trace w2 = trace w1 @ evs" and q: "\<forall>ev\<in>set evs. quiet_event P ev"
    unfolding steady_def by (elim conjE exE)
  have "trace w2 = trace w1 @ evs \<and> downloads evs = []
      \<and> (\<forall>args\<in>set (calls evs). \<not> is_keytool_call P args)"
    using e quiet_events [OF q] by simp
  then have "\<exists>evs. trace w2 = trace w1 @ evs \<and> downloads evs = []
      \<and> (\<forall>args\<in>set (calls evs). \<not> is_keytool_call P args)" by (rule exI)
  moreover have "lookup (fs w2) (local_file P w0) = lookup (fs w1) (local_file P w0)"
    and "lookup (fs w2) (bundle_file P w0) = lookup (fs w1) (bundle_file P w0)"
    using s by (simp_all add: steady_def)
  ultimately show ?thesis by simp
qed

theorem second_run_changes_nothing_witness:
  "install_sdk (keytool_env True) demo_plat (rapt_world [] [] []) = (Inr (), accepted_world)
   \<and> install_sdk (keytool_env True) demo_plat accepted_world = (Inr (), idle_world)
   \<and> well_placed demo_plat (rapt_world [] [] [])
   \<and> complete_lines (rapt_world [] [] []) (local_properties demo_plat)
   \<and> complete_lines (rapt_world [] [] []) (bundle_properties demo_plat)
   \<and> first_run_keeps (keytool_env True) demo_plat (rapt_world [] [] [])
   \<and> second_run_keeps (keytool_env True) demo_plat (rapt_world [] [] [])
   \<and> provisioned (keytool_env True) demo_plat accepted_world
   \<and> lookup (fs idle_world) (local_file demo_plat (rapt_world [] [] []))
       = lookup (fs accepted_world) (local_file demo_plat (rapt_world [] [] []))
   \<and> lookup (fs idle_world) (bundle_file demo_plat (rapt_world [] [] []))
       = lookup (fs accepted_world) (bundle_file demo_plat (rapt_world [] [] []))
   \<and> trace idle_world = trace accepted_world @ idle_events
   \<and> downloads idle_events = []
   \<and> filter (is_keytool_call demo_plat) (calls idle_events) = []"
proof -
  have t: "trace idle_world = trace accepted_world @ idle_events"
    by (simp add: idle_world_def accepted_world_def rapt_world_sel)
  have "lookup (fs idle_world) (local_file demo_plat (rapt_world [] [] []))
       = lookup (fs accepted_world) (local_file demo_plat (rapt_world [] [] []))
     \<and> lookup (fs idle_world) (bundle_file demo_plat (rapt_world [] [] []))
       = lookup (fs accepted_world) (bundle_file demo_plat (rapt_world [] [] []))
     \<and> (\<exists>evs. trace idle_world = trace accepted_world @ evs \<and> downloads evs = []
                \<and> (\<forall>args\<in>set (calls evs). \<not> is_keytool_call demo_plat args))"
    by (rule second_run_changes_nothing [OF run_accepted run_idle demo_well_placed
          fresh_complete keytool_env_first_keeps keytool_env_second_keeps accepted_provisioned])
  then have "lookup (fs idle_world) (local_file demo_plat (rapt_world [] [] []))
       = lookup (fs accepted_world) (local_file demo_plat (rapt_world [] [] []))
     \<and> lookup (fs idle_world) (bundle_file demo_plat (rapt_world [] [] []))
       = lookup (fs accepted_world) (bundle_file demo_plat (rapt_world [] [] []))
     \<and> downloads idle_events = []
     \<and> filter (is_keytool_call demo_plat) (calls idle_events) = []"
    by (auto simp: t filter_empty_conv)
  then show ?thesis
    using run_accepted run_idle demo_well_placed fresh_complete keytool_env_first_keeps
      keytool_env_second_keeps accepted_provisioned t by simp
qed

text \<open>
  The claim fails in two ways. A first run whose user declines the key still completes,
  with no \<^verbatim>\<open>android.keystore\<close>; a second run whose user accepts then starts the
  key-generation tool. And when \<^verbatim>\<open>local.properties\<close> starts with a last line that has
  no line feed, the first run glues \<open>key.alias=android\<close> onto that line; the second run,
  with the same answers and both keystores in place, finds no \<open>key.alias\<close> line and
  appends one, so the file it leaves differs from the one it found.
\<close>

theorem second_run_changes_nothing_counterexample:
  "install_sdk (keytool_env False) demo_plat (rapt_world [] [] []) = (Inr (), declined_world)
   \<and> install_sdk (keytool_env True) demo_plat declined_world = (Inr (), late_key_world)
   \<and> trace late_key_world = trace declined_world @ late_key_events
   \<and> filter (is_keytool_call demo_plat) (calls late_key_events)
       = [keytool_args demo_plat ''android.keystore'' ''CN=Me'']
   \<and> install_sdk (keytool_env True) demo_plat
         (rapt_world [(''local.properties'', File loose_text None)] [] [])
       = (Inr (), rapt_world glued_project both_keystores accepted_events)
   \<and> install_sdk (keytool_env True) demo_plat (rapt_world glued_project both_keystores accepted_events)
       = (Inr (), rapt_world reglued_project both_keystores (accepted_events @ idle_events))
   \<and> lookup (fs (rapt_world reglued_project both_keystores (accepted_events @ idle_events)))
         [''rapt'', ''project'', ''local.properties'']
       \<noteq> lookup (fs (rapt_world glued_project both_keystores accepted_events))
           [''rapt'', ''project'', ''local.properties'']"
proof -
  have "trace late_key_world = trace declined_world @ late_key_events"
    by (simp add: late_key_world_def declined_world_def rapt_world_sel)
  then show ?thesis
    using glued_differs [of both_keystores "accepted_events @ idle_events" both_keystores accepted_events]
    by (simp add: run_declined run_late_key late_key_calls run_loose run_glued)
qed

end
